(* ===== verification/Traffic_Prelude.thy ===== *)
theory Traffic_Prelude
  imports Complex_Main "HOL-Library.Log_Nat"
begin

text \<open>
  Shared vocabulary of the development: the names of the model's value types, the
  theorem collections the component theories fill, and the generic facts about
  clamping, four-element lists and iterated functions that several components use.
  Nothing here refers to the program; the component theories do.
\<close>

section \<open>Types of the model\<close>

text \<open>
  A Python \<^verbatim>\<open>float\<close> is modelled by the rational number it denotes (theory
  \<open>Binary64\<close> says which rationals are floats and how operations round); a Python
  \<^verbatim>\<open>int\<close> is an unbounded \<^typ>\<open>int\<close>.
\<close>

type_synonym seconds = rat
type_synonym vehicle_count = int
type_synonym lane = nat

section \<open>Theorem collections\<close>

named_theorems tm_defs \<open>unfolding equations of the model's non-recursive definitions\<close>
named_theorems tm_frame \<open>fields that an operation leaves unchanged\<close>
named_theorems tm_inv \<open>an operation preserves an invariant\<close>

section \<open>Clamping\<close>

text \<open>\<open>max lo (min hi x)\<close> is how the program clamps a value into \<open>[lo, hi]\<close>.\<close>

lemma clamp_lower [simp]: "lo \<le> max lo (min hi x)" for lo :: "'a::linorder"
  by simp

lemma clamp_upper: "lo \<le> hi \<Longrightarrow> max lo (min hi x) \<le> hi" for lo :: "'a::linorder"
  by simp

lemma clamp_mono: "x \<le> y \<Longrightarrow> max lo (min hi x) \<le> max lo (min hi y)" for lo :: "'a::linorder"
  by (auto simp: max_def min_def)

lemma clamp_inside: "lo \<le> x \<Longrightarrow> x \<le> hi \<Longrightarrow> max lo (min hi x) = x" for lo :: "'a::linorder"
  by (simp add: max_def min_def)

lemma clamp_below: "x \<le> lo \<Longrightarrow> lo \<le> hi \<Longrightarrow> max lo (min hi x) = lo" for lo :: "'a::linorder"
  by (auto simp: max_def min_def)

lemma clamp_above: "hi \<le> x \<Longrightarrow> lo \<le> hi \<Longrightarrow> max lo (min hi x) = hi" for lo :: "'a::linorder"
  by (auto simp: max_def min_def)

section \<open>Lists of four\<close>

text \<open>The program's vectors (counts, timers) have one entry per direction.\<close>

lemma length_4_iff: "length xs = 4 \<longleftrightarrow> (\<exists>a b c d. xs = [a, b, c, d])"
  by (auto simp: length_Suc_conv eval_nat_numeral)

lemma nth_lt_4_cases:
  assumes "i < (4::nat)"
  obtains "i = 0" | "i = 1" | "i = 2" | "i = 3"
  using assms by linarith

lemma list_all_nth: "list_all P xs \<Longrightarrow> i < length xs \<Longrightarrow> P (xs ! i)"
  by (simp add: list_all_length)

lemma sum_list_nonneg_int: "list_all (\<lambda>c. 0 \<le> c) cs \<Longrightarrow> 0 \<le> sum_list cs" for cs :: "int list"
  by (induction cs) auto

section \<open>Iterated steps\<close>

lemma funpow_invariant:
  assumes "P x" and "\<And>y. P y \<Longrightarrow> P (f y)"
  shows "P ((f ^^ n) x)"
  using assms by (induction n) auto

lemma funpow_frame:
  assumes "\<And>y. g (f y) = g y"
  shows "g ((f ^^ n) x) = g x"
  using assms by (induction n) auto

lemma funpow_mono_field:
  fixes g :: "'s \<Rightarrow> 'a::preorder"
  assumes "\<And>y. g y \<le> g (f y)"
  shows "g x \<le> g ((f ^^ n) x)"
proof (induction n)
  case 0
  show ?case by simp
next
  case (Suc n)
  have "g ((f ^^ n) x) \<le> g ((f ^^ Suc n) x)" using assms by simp
  with Suc show ?case by (rule order_trans)
qed

section \<open>Powers of two with integer exponents\<close>

lemma powi2_pos [simp]: "0 < (2::rat) powi e"
  by simp

lemma powi2_less_imp_less: "(2::rat) powi a < 2 powi b \<Longrightarrow> a < b"
  by (rule ccontr) (simp add: not_less power_int_increasing leD)

lemma powi2_le_iff: "(2::rat) powi a \<le> 2 powi b \<longleftrightarrow> a \<le> b"
proof
  assume le: "(2::rat) powi a \<le> 2 powi b"
  show "a \<le> b"
  proof (rule ccontr)
    assume "\<not> a \<le> b"
    then have "(2::rat) powi b < 2 powi a" by (intro power_int_strict_increasing) simp_all
    with le show False by simp
  qed
qed (simp add: power_int_increasing)

lemma powi2_split: "(2::rat) powi (a + b) = 2 powi a * 2 powi b"
  by (rule power_int_add) simp

lemma bitlen_powi_bounds:
  assumes "0 < p"
  shows "(2::rat) powi (bitlen p - 1) \<le> of_int p" and "of_int p < (2::rat) powi bitlen p"
proof -
  from assms have b: "1 \<le> bitlen p" by (simp add: bitlen_alt_def)
  from bitlen_bounds [OF assms]
  have "(2::int) ^ nat (bitlen p - 1) \<le> p" and "p < 2 ^ nat (bitlen p)" by simp_all
  then have "rat_of_int (2 ^ nat (bitlen p - 1)) \<le> of_int p"
    and "rat_of_int p < of_int (2 ^ nat (bitlen p))"
    by (simp_all only: of_int_le_iff of_int_less_iff)
  with b show "(2::rat) powi (bitlen p - 1) \<le> of_int p" and "of_int p < (2::rat) powi bitlen p"
    by (simp_all add: power_int_def)
qed

section \<open>Floor of a negated rational\<close>

lemma floor_uminus_rat:
  "\<lfloor>- q\<rfloor> = (if of_int \<lfloor>q\<rfloor> = q then - \<lfloor>q\<rfloor> else - \<lfloor>q\<rfloor> - 1)" for q :: rat
proof (cases "of_int \<lfloor>q\<rfloor> = q")
  case True
  then have "- q = of_int (- \<lfloor>q\<rfloor>)" by (simp only: of_int_minus)
  then have "\<lfloor>- q\<rfloor> = - \<lfloor>q\<rfloor>" by (simp only: floor_of_int)
  with True show ?thesis by simp
next
  case False
  then have "of_int \<lfloor>q\<rfloor> < q" using of_int_floor_le [of q] by linarith
  moreover have "q < of_int \<lfloor>q\<rfloor> + 1" by linarith
  ultimately have "\<lfloor>- q\<rfloor> = - \<lfloor>q\<rfloor> - 1" by (intro floor_unique) simp_all
  with False show ?thesis by simp
qed

end
