(* ===== verification/Binary64.thy ===== *)
theory Binary64
  imports Traffic_Prelude
begin

text \<open>
  The arithmetic of Python's \<^verbatim>\<open>float\<close> as the program uses it. A float is an IEEE 754
  binary64 number; the program multiplies a count by \<^verbatim>\<open>1.5\<close>
  (\<^verbatim>\<open>calculate_timers\<close>), divides \<^verbatim>\<open>1 / 30\<close> and subtracts the quotient from
  the running timer once per frame (\<^verbatim>\<open>main\<close>). Each of these operations returns the
  exact result rounded to the nearest binary64 number, ties to the even significand.

  The model keeps a float as the rational it denotes. \<open>b64\<close> is the rounding function:
  \<open>ilog2\<close> finds the binade of the argument, \<open>round_to\<close> rounds to the multiple of the
  binade's unit in the last place with \<open>rhe\<close> (round half to even). All four are
  executable. The exponent is not bounded, so the model agrees with the machine
  wherever the machine neither overflows nor produces a subnormal number:
  \<open>in_b64_range\<close> is that range, and theory \<open>Float_Range\<close> proves that the
  values the program computes stay in it.

  The lemmas give the facts the components need: floats are the fixed points of
  \<open>b64\<close> (\<open>b64_fix\<close>, \<open>b64_idem\<close>), rounding is monotone (\<open>b64_mono\<close>), odd
  (\<open>b64_minus\<close>), stays within the binade (\<open>b64_binade\<close>) and is off by at most half
  a unit in the last place (\<open>b64_err\<close>, \<open>b64_rel_err\<close>); \<open>b64_scaled\<close> proves the
  integer routine \<open>round53\<close> equal to \<open>b64\<close>.
\<close>

section \<open>Rounding to binary64\<close>

definition rhe :: "rat \<Rightarrow> int" where
  "rhe q = (let f = \<lfloor>q\<rfloor>; r = q - of_int f in
     if r < 1 / 2 then f else if 1 / 2 < r then f + 1 else if even f then f else f + 1)"

definition ilog2 :: "rat \<Rightarrow> int" where
  "ilog2 x = (case quotient_of x of (p, q) \<Rightarrow>
     let d = bitlen p - bitlen q in if 2 powi d \<le> x then d else d - 1)"

definition round_to :: "int \<Rightarrow> rat \<Rightarrow> rat" where
  "round_to e x = of_int (rhe (x / 2 powi e)) * 2 powi e"

definition b64 :: "rat \<Rightarrow> rat" where
  "b64 x = (if x = 0 then 0 else round_to (ilog2 \<bar>x\<bar> - 52) x)"

definition is_b64 :: "rat \<Rightarrow> bool" where
  "is_b64 x \<longleftrightarrow> b64 x = x"

definition in_b64_range :: "rat \<Rightarrow> bool" where
  "in_b64_range x \<longleftrightarrow> x = 0 \<or> (2 powi (- 1022) \<le> \<bar>x\<bar> \<and> \<bar>x\<bar> < 2 powi 1024)"

section \<open>Rounding on scaled integers\<close>

text \<open>
  \<open>round53 n\<close> rounds an integer to 53 significant bits with integer operations only.
  It computes \<open>b64\<close> on every number of the form \<open>n * 2 powi e\<close> (\<open>b64_scaled\<close>) and
  is what the closed evaluations of the scheduler run on.
\<close>

definition rhe_div :: "int \<Rightarrow> nat \<Rightarrow> int" where
  "rhe_div n k = (let q = n div 2 ^ k; r = n mod 2 ^ k in
     if 2 * r < 2 ^ k then q else if 2 ^ k < 2 * r then q + 1 else if even q then q else q + 1)"

definition round53 :: "int \<Rightarrow> int" where
  "round53 n = (let k = nat (bitlen \<bar>n\<bar> - 53) in rhe_div n k * 2 ^ k)"

section \<open>The operations the program uses\<close>

definition float_of_int :: "int \<Rightarrow> rat" where
  "float_of_int n = b64 (of_int n)"

definition float_mul :: "rat \<Rightarrow> rat \<Rightarrow> rat" where
  "float_mul a b = b64 (a * b)"

definition float_sub :: "rat \<Rightarrow> rat \<Rightarrow> rat" where
  "float_sub a b = b64 (a - b)"

definition int_truediv :: "int \<Rightarrow> int \<Rightarrow> rat" where
  "int_truediv a b = b64 (of_int a / of_int b)"

section \<open>Round half to even\<close>

lemma rhe_of_int: "rhe (of_int n) = n"
  by (simp add: rhe_def)

lemma rhe_cases: "rhe q = \<lfloor>q\<rfloor> \<or> rhe q = \<lfloor>q\<rfloor> + 1"
  by (simp add: rhe_def Let_def)

lemma rhe_lower: "of_int (rhe q) - 1 / 2 \<le> q"
  unfolding rhe_def Let_def by (auto; linarith)

lemma rhe_upper: "q \<le> of_int (rhe q) + 1 / 2"
  unfolding rhe_def Let_def by (auto; linarith)

lemma rhe_mono:
  assumes "q \<le> q'"
  shows "rhe q \<le> rhe q'"
proof (cases "\<lfloor>q\<rfloor> = \<lfloor>q'\<rfloor>")
  case True
  with assms show ?thesis by (auto simp: rhe_def Let_def)
next
  case False
  with floor_mono [OF assms] have "\<lfloor>q\<rfloor> + 1 \<le> \<lfloor>q'\<rfloor>" by linarith
  moreover have "rhe q \<le> \<lfloor>q\<rfloor> + 1" using rhe_cases [of q] by linarith
  moreover have "\<lfloor>q'\<rfloor> \<le> rhe q'" using rhe_cases [of q'] by linarith
  ultimately show ?thesis by linarith
qed

lemma rhe_minus: "rhe (- q) = - rhe q"
proof (cases "of_int \<lfloor>q\<rfloor> = q")
  case True
  then obtain n where "q = of_int n" by metis
  then show ?thesis by (simp add: rhe_of_int flip: of_int_minus)
next
  case False
  then have fl: "\<lfloor>- q\<rfloor> = - \<lfloor>q\<rfloor> - 1" by (simp add: floor_uminus_rat)
  show ?thesis unfolding rhe_def Let_def fl by (auto; linarith)
qed

section \<open>The binade of a positive rational\<close>

lemma ilog2_bounds:
  assumes "0 < x"
  shows "2 powi ilog2 x \<le> x" and "x < 2 powi (ilog2 x + 1)"
proof -
  obtain p q where pq: "quotient_of x = (p, q)" by (cases "quotient_of x")
  then have q: "0 < q" and x: "x = of_int p / of_int q"
    by (simp_all add: quotient_of_denom_pos quotient_of_div)
  with assms have p: "0 < p" by (simp add: zero_less_divide_iff)
  let ?d = "bitlen p - bitlen q"
  have lo: "2 powi (?d - 1) \<le> x"
  proof -
    have "2 powi (?d - 1) * of_int q \<le> 2 powi (?d - 1) * (2::rat) powi bitlen q"
      using bitlen_powi_bounds(2) [OF q] by (intro mult_left_mono) simp_all
    also have "\<dots> = 2 powi (bitlen p - 1)"
      by (simp flip: power_int_add)
    also have "\<dots> \<le> of_int p" by (rule bitlen_powi_bounds(1) [OF p])
    finally show ?thesis using q by (simp add: x pos_le_divide_eq)
  qed
  have hi: "x < 2 powi (?d + 1)"
  proof -
    have "of_int p < (2::rat) powi bitlen p" by (rule bitlen_powi_bounds(2) [OF p])
    also have "\<dots> = 2 powi (?d + 1) * 2 powi (bitlen q - 1)"
      by (simp flip: power_int_add)
    also have "\<dots> \<le> 2 powi (?d + 1) * of_int q"
      using bitlen_powi_bounds(1) [OF q] by (intro mult_left_mono) simp_all
    finally show ?thesis using q by (simp add: x pos_divide_less_eq)
  qed
  show "2 powi ilog2 x \<le> x" using lo by (simp add: ilog2_def pq Let_def)
  show "x < 2 powi (ilog2 x + 1)" using hi by (auto simp add: ilog2_def pq Let_def not_le)
qed

lemma ilog2_unique:
  assumes "2 powi e \<le> x" and "x < 2 powi (e + 1)"
  shows "ilog2 x = e"
proof -
  have "(0::rat) < 2 powi e" by simp
  with assms have x: "0 < x" by linarith
  from ilog2_bounds [OF x] assms
  have a: "(2::rat) powi ilog2 x < 2 powi (e + 1)" and b: "(2::rat) powi e < 2 powi (ilog2 x + 1)"
    by linarith+
  from a have "ilog2 x < e + 1" by (rule powi2_less_imp_less)
  moreover from b have "e < ilog2 x + 1" by (rule powi2_less_imp_less)
  ultimately show ?thesis by simp
qed

lemma ilog2_mono:
  assumes "0 < x" and "x \<le> y"
  shows "ilog2 x \<le> ilog2 y"
proof -
  from assms have y: "0 < y" by simp
  from ilog2_bounds(1) [OF assms(1)] ilog2_bounds(2) [OF y] assms(2)
  have "(2::rat) powi ilog2 x < 2 powi (ilog2 y + 1)" by linarith
  then have "ilog2 x < ilog2 y + 1" by (rule powi2_less_imp_less)
  then show ?thesis by simp
qed


section \<open>Rounding to a multiple of a power of two\<close>

lemma round_to_mono: "x \<le> y \<Longrightarrow> round_to e x \<le> round_to e y"
  by (simp add: round_to_def rhe_mono divide_right_mono)

lemma round_to_fix: "round_to e (of_int n * 2 powi e) = of_int n * 2 powi e"
  by (simp add: round_to_def rhe_of_int)

lemma round_to_minus: "round_to e (- x) = - round_to e x"
  by (simp add: round_to_def rhe_minus)

lemma round_to_err: "\<bar>round_to e x - x\<bar> \<le> 2 powi (e - 1)"
proof -
  let ?u = "(2::rat) powi e"
  let ?d = "of_int (rhe (x / ?u)) - x / ?u"
  have "\<bar>?d\<bar> \<le> 1 / 2"
    using rhe_lower [of "x / ?u"] rhe_upper [of "x / ?u"] by linarith
  then have "\<bar>?d\<bar> * ?u \<le> 1 / 2 * ?u"
    by (intro mult_right_mono) simp_all
  moreover have "?d * ?u = round_to e x - x"
    by (simp add: round_to_def left_diff_distrib)
  moreover have "\<bar>?d * ?u\<bar> = \<bar>?d\<bar> * ?u"
    by (simp add: abs_mult)
  moreover have "1 / 2 * ?u = 2 powi (e - 1)"
    by (simp add: power_int_diff)
  ultimately show ?thesis by simp
qed

lemma ilog2_int_powi:
  assumes "0 < m"
  shows "ilog2 (of_int m * 2 powi e) = bitlen m - 1 + e"
proof (rule ilog2_unique)
  show "2 powi (bitlen m - 1 + e) \<le> rat_of_int m * 2 powi e"
    using bitlen_powi_bounds(1) [OF assms]
    by (simp add: power_int_add mult_right_mono)
  show "rat_of_int m * 2 powi e < 2 powi (bitlen m - 1 + e + 1)"
    using bitlen_powi_bounds(2) [OF assms]
    by (simp add: power_int_add mult_strict_right_mono)
qed

section \<open>Properties of the rounding function\<close>

lemma b64_minus: "b64 (- x) = - b64 x"
  by (simp add: b64_def round_to_minus)

lemma b64_fix_pos:
  assumes "0 < m" and "m < 2 ^ 53"
  shows "b64 (of_int m * 2 powi e) = of_int m * 2 powi e"
proof -
  let ?x = "rat_of_int m * 2 powi e"
  from assms have x: "0 < ?x" by simp
  from assms have b: "bitlen m \<le> 53" by (simp add: bitlen_le_iff_power)
  define k where "k = nat (53 - bitlen m)"
  let ?E = "bitlen m - 1 + e - 52"
  from b have "e = ?E + int k" by (simp add: k_def)
  moreover have "(2::rat) powi (?E + int k) = 2 powi ?E * 2 powi int k"
    by (rule power_int_add) simp
  ultimately have "(2::rat) powi e = 2 powi ?E * 2 ^ k"
    by (simp only: power_int_of_nat)
  then have "?x = of_int (m * 2 ^ k) * 2 powi ?E"
    by simp
  then have "round_to ?E ?x = ?x" by (simp only: round_to_fix)
  with x show ?thesis by (simp add: b64_def ilog2_int_powi [OF assms(1)])
qed


lemma b64_zero [simp]: "b64 0 = 0"
  by (simp add: b64_def)

lemma b64_fix:
  assumes "\<bar>m\<bar> < 2 ^ 53"
  shows "b64 (of_int m * 2 powi e) = of_int m * 2 powi e"
proof (cases m "0::int" rule: linorder_cases)
  case less
  with assms have "b64 (of_int (- m) * 2 powi e) = of_int (- m) * 2 powi e"
    by (intro b64_fix_pos) simp_all
  then show ?thesis by (simp add: b64_minus)
next
  case equal
  then show ?thesis by simp
next
  case greater
  with assms show ?thesis by (intro b64_fix_pos) simp_all
qed

lemma b64_of_int: "\<bar>n\<bar> < 2 ^ 53 \<Longrightarrow> b64 (of_int n) = of_int n"
  using b64_fix [of n 0] by simp

lemma b64_powi: "b64 (2 powi e) = 2 powi e"
  using b64_fix [of 1 e] by simp

lemma binade_lo: "(2::rat) powi e = of_int (2 ^ 52) * 2 powi (e - 52)"
proof -
  have "(2::rat) powi e = 2 powi (52 + (e - 52))" by simp
  also have "\<dots> = 2 powi 52 * 2 powi (e - 52)" by (rule powi2_split)
  finally show ?thesis by simp
qed

lemma binade_hi: "(2::rat) powi (e + 1) = of_int (2 ^ 53) * 2 powi (e - 52)"
proof -
  have "e + 1 = 53 + (e - 52)" by simp
  then have "(2::rat) powi (e + 1) = 2 powi (53 + (e - 52))" by (rule arg_cong)
  also have "\<dots> = 2 powi 53 * 2 powi (e - 52)" by (rule powi2_split)
  finally show ?thesis by simp
qed

lemma b64_binade:
  assumes "0 < x"
  shows "2 powi ilog2 x \<le> b64 x" and "b64 x \<le> 2 powi (ilog2 x + 1)"
proof -
  let ?e = "ilog2 x" and ?E = "ilog2 x - 52"
  from assms have b: "b64 x = round_to ?E x" by (simp add: b64_def)
  note lo = binade_lo [of ?e] and hi = binade_hi [of ?e]
  have "round_to ?E (2 powi ?e) \<le> round_to ?E x"
    by (rule round_to_mono) (rule ilog2_bounds(1) [OF assms])
  then show "2 powi ?e \<le> b64 x" unfolding b lo round_to_fix .
  have "round_to ?E x \<le> round_to ?E (2 powi (?e + 1))"
    by (rule round_to_mono) (rule less_imp_le, rule ilog2_bounds(2) [OF assms])
  then show "b64 x \<le> 2 powi (?e + 1)" unfolding b hi round_to_fix .
qed

lemma b64_pos: "0 < x \<Longrightarrow> 0 < b64 x"
  using b64_binade(1) [of x] powi2_pos [of "ilog2 x"] by linarith

lemma b64_neg: "x < 0 \<Longrightarrow> b64 x < 0"
  using b64_pos [of "- x"] by (simp add: b64_minus)

lemma b64_mono_pos:
  assumes "0 < x" and "x \<le> y"
  shows "b64 x \<le> b64 y"
proof (cases "ilog2 x = ilog2 y")
  case True
  with assms show ?thesis by (simp add: b64_def round_to_mono)
next
  case False
  from assms have y: "0 < y" by simp
  from False ilog2_mono [OF assms] have "ilog2 x + 1 \<le> ilog2 y" by simp
  then have "(2::rat) powi (ilog2 x + 1) \<le> 2 powi ilog2 y" by (simp add: powi2_le_iff)
  with b64_binade(2) [OF assms(1)] b64_binade(1) [OF y] show ?thesis by linarith
qed

lemma b64_mono:
  assumes "x \<le> y"
  shows "b64 x \<le> b64 y"
proof -
  consider "0 < x" | "y < 0" | "x \<le> 0" "0 \<le> y" by linarith
  then show ?thesis
  proof cases
    case 1
    from 1 assms show ?thesis by (rule b64_mono_pos)
  next
    case 2
    with assms have "b64 (- y) \<le> b64 (- x)" by (intro b64_mono_pos) simp_all
    then show ?thesis by (simp add: b64_minus)
  next
    case 3
    have "b64 x \<le> 0" using 3(1) b64_neg [of x] by (cases "x = 0") simp_all
    moreover have "0 \<le> b64 y" using 3(2) b64_pos [of y] by (cases "y = 0") simp_all
    ultimately show ?thesis by simp
  qed
qed

lemma b64_idem_pos:
  assumes "0 < x"
  shows "b64 (b64 x) = b64 x"
proof -
  let ?E = "ilog2 x - 52"
  define n where "n = rhe (x / 2 powi ?E)"
  from assms have b: "b64 x = of_int n * 2 powi ?E"
    by (simp add: b64_def round_to_def n_def)
  have "b64 x \<le> 2 powi (ilog2 x + 1)" by (rule b64_binade(2) [OF assms])
  also have "(2::rat) powi (ilog2 x + 1) = of_int (2 ^ 53) * 2 powi ?E"
    by (rule binade_hi)
  finally have "rat_of_int n \<le> of_int (2 ^ 53)"
    unfolding b by (simp only: mult_le_cancel_right_pos powi2_pos)
  then have le: "n \<le> 2 ^ 53" by (simp only: of_int_le_iff)
  from b64_pos [OF assms] have "0 < rat_of_int n"
    unfolding b by (rule zero_less_mult_pos2) simp
  then have "0 < n" by simp
  show ?thesis
  proof (cases "n = 2 ^ 53")
    case True
    then have "b64 x = 2 powi (?E + 53)"
      unfolding b using powi2_split [of ?E 53] by simp
    then show ?thesis by (simp only: b64_powi)
  next
    case False
    with le \<open>0 < n\<close> show ?thesis unfolding b by (intro b64_fix) simp
  qed
qed

lemma b64_idem [simp]: "b64 (b64 x) = b64 x"
proof (cases x "0::rat" rule: linorder_cases)
  case less
  then have "b64 (b64 (- x)) = b64 (- x)" by (intro b64_idem_pos) simp
  then show ?thesis by (simp add: b64_minus)
next
  case equal
  then show ?thesis by simp
next
  case greater
  then show ?thesis by (rule b64_idem_pos)
qed

lemma b64_err:
  assumes "x \<noteq> 0"
  shows "\<bar>b64 x - x\<bar> \<le> 2 powi (ilog2 \<bar>x\<bar> - 53)"
  using assms round_to_err [of "ilog2 \<bar>x\<bar> - 52" x] by (simp add: b64_def)

lemma b64_rel_err: "\<bar>b64 x - x\<bar> \<le> \<bar>x\<bar> / 2 ^ 53"
proof (cases "x = 0")
  case True
  then show ?thesis by simp
next
  case False
  then have pos: "0 < \<bar>x\<bar>" by simp
  have "(2::rat) powi (ilog2 \<bar>x\<bar> - 53) = 2 powi ilog2 \<bar>x\<bar> / 2 ^ 53"
    by (simp add: power_int_diff)
  also have "\<dots> \<le> \<bar>x\<bar> / 2 ^ 53"
    by (intro divide_right_mono ilog2_bounds(1) [OF pos]) simp
  finally show ?thesis using b64_err [OF False] by linarith
qed

section \<open>Equivalence of the integer rounding\<close>

lemma rhe_div: "rhe (of_int n / 2 ^ k) = rhe_div n k"
proof -
  let ?p = "(2::int) ^ k"
  have fl: "\<lfloor>rat_of_int n / 2 ^ k\<rfloor> = n div ?p"
    using floor_divide_of_int_eq [of n ?p, where ?'a = rat] by simp
  have "rat_of_int n = of_int (n div ?p * ?p + n mod ?p)" by (simp only: div_mult_mod_eq)
  also have "\<dots> = of_int (n div ?p) * 2 ^ k + of_int (n mod ?p)" by simp
  finally have fr: "rat_of_int n / 2 ^ k - of_int (n div ?p) = of_int (n mod ?p) / 2 ^ k"
    by (simp add: field_simps)
  have lt: "rat_of_int (n mod ?p) / 2 ^ k < 1 / 2 \<longleftrightarrow> 2 * (n mod ?p) < ?p"
  proof -
    have "rat_of_int (n mod ?p) / 2 ^ k < 1 / 2 \<longleftrightarrow> rat_of_int (2 * (n mod ?p)) < of_int ?p"
      by (simp add: field_simps)
    then show ?thesis by (simp only: of_int_less_iff)
  qed
  have gt: "1 / 2 < rat_of_int (n mod ?p) / 2 ^ k \<longleftrightarrow> ?p < 2 * (n mod ?p)"
  proof -
    have "1 / 2 < rat_of_int (n mod ?p) / 2 ^ k \<longleftrightarrow> rat_of_int ?p < of_int (2 * (n mod ?p))"
      by (simp add: field_simps)
    then show ?thesis by (simp only: of_int_less_iff)
  qed
  show ?thesis
    unfolding rhe_def rhe_div_def Let_def fl fr lt gt ..
qed

lemma b64_scaled: "b64 (of_int n * 2 powi e) = of_int (round53 n) * 2 powi e"
proof (cases "bitlen \<bar>n\<bar> \<le> 53")
  case True
  then have "\<bar>n\<bar> < 2 ^ 53" by (simp add: bitlen_le_iff_power)
  then have "b64 (of_int n * 2 powi e) = of_int n * 2 powi e" by (rule b64_fix)
  moreover from True have "round53 n = n"
    using rhe_div [of n 0] by (simp add: round53_def rhe_of_int)
  ultimately show ?thesis by simp
next
  case False
  define k where "k = nat (bitlen \<bar>n\<bar> - 53)"
  with False have k: "int k = bitlen \<bar>n\<bar> - 53" by simp
  from False have n: "n \<noteq> 0" by auto
  let ?x = "rat_of_int n * 2 powi e"
  have "\<bar>?x\<bar> = of_int \<bar>n\<bar> * 2 powi e" by (simp add: abs_mult)
  moreover have "ilog2 (rat_of_int \<bar>n\<bar> * 2 powi e) = bitlen \<bar>n\<bar> - 1 + e"
    using n by (intro ilog2_int_powi) simp
  ultimately have "ilog2 \<bar>?x\<bar> = bitlen \<bar>n\<bar> - 1 + e" by (simp only:)
  then have E: "ilog2 \<bar>?x\<bar> - 52 = int k + e" using k by simp
  have "?x / 2 powi (int k + e) = of_int n / 2 ^ k"
    by (simp add: powi2_split)
  then have "round_to (int k + e) ?x = of_int (rhe_div n k) * (2 ^ k * 2 powi e)"
    by (simp add: round_to_def rhe_div powi2_split)
  then show ?thesis
    using n by (simp add: b64_def E round53_def k_def [symmetric])
qed

section \<open>Floats\<close>

lemma is_b64_b64 [simp]: "is_b64 (b64 x)"
  by (simp add: is_b64_def)

lemma is_b64_zero [simp]: "is_b64 0"
  by (simp add: is_b64_def)

lemma is_b64_scaled: "\<bar>m\<bar> < 2 ^ 53 \<Longrightarrow> is_b64 (of_int m * 2 powi e)"
  by (simp add: is_b64_def b64_fix)

lemma is_b64_of_int: "\<bar>n\<bar> < 2 ^ 53 \<Longrightarrow> is_b64 (of_int n)"
  by (simp add: is_b64_def b64_of_int)

lemma is_b64_numeral [simp]: "numeral w < (2::int) ^ 53 \<Longrightarrow> is_b64 (numeral w)"
  using is_b64_of_int [of "numeral w"] by simp

lemma is_b64_half: "\<bar>n\<bar> < 2 ^ 53 \<Longrightarrow> is_b64 (of_int n / 2)"
  using is_b64_scaled [of n "- 1"] by (simp add: power_int_minus field_simps)

lemma is_b64_minus [simp]: "is_b64 (- x) \<longleftrightarrow> is_b64 x"
  by (simp add: is_b64_def b64_minus)

lemma b64_le_float: "x \<le> y \<Longrightarrow> is_b64 y \<Longrightarrow> b64 x \<le> y"
  using b64_mono [of x y] by (simp add: is_b64_def)

lemma b64_ge_float: "y \<le> x \<Longrightarrow> is_b64 y \<Longrightarrow> y \<le> b64 x"
  using b64_mono [of y x] by (simp add: is_b64_def)

lemmas float_ops = float_of_int_def float_mul_def float_sub_def int_truediv_def

lemma is_b64_float_ops [simp]:
  "is_b64 (float_of_int n)" "is_b64 (float_mul a b)" "is_b64 (float_sub a b)"
  "is_b64 (int_truediv i j)"
  by (simp_all add: float_ops)

section \<open>Properties of the operations\<close>


text \<open>
  Float subtraction is monotone in its first argument and antitone in its
  second: rounding never reverses the order of two results.
\<close>

theorem float_sub_mono:
  "a \<le> a' \<Longrightarrow> b' \<le> b \<Longrightarrow> float_sub a b \<le> float_sub a' b'"
  unfolding float_sub_def by (rule b64_mono) simp

theorem float_sub_mono_witness:
  "(1::rat) \<le> 2 \<and> (1 / 3 :: rat) \<le> 1 / 2 \<and> float_sub 1 (1 / 2) \<le> float_sub 2 (1 / 3)"
  using float_sub_mono [of 1 2 "1 / 3" "1 / 2"] by simp

text \<open>
  The integer routine computes the float operation: on operands that are
  multiples of the same power of two, float subtraction is \<open>round53\<close> of the
  difference of the integer numerators.
\<close>

theorem float_sub_scaled:
  "float_sub (of_int m * 2 powi e) (of_int n * 2 powi e) = of_int (round53 (m - n)) * 2 powi e"
proof -
  have "rat_of_int m * 2 powi e - of_int n * 2 powi e = of_int (m - n) * 2 powi e"
    by (simp add: left_diff_distrib)
  then show ?thesis by (simp only: float_sub_def b64_scaled)
qed

end
