(* ===== verification/Timing_Policy.thy ===== *)
theory Timing_Policy
  imports Binary64
begin

text \<open>
  The timing policy, \<^verbatim>\<open>calculate_timers\<close> of
  \<^verbatim>\<open>src/advanced_traffic_management.py\<close> (lines 43-54): one green time per
  direction, \<open>1.5\<close> seconds per counted vehicle, clamped to \<open>[5, 20]\<close> seconds.

  \<open>timer_for\<close> is the body of the loop with Python's float arithmetic,
  \<open>calculate_timers_loop\<close> the loop with its accumulator \<^verbatim>\<open>timers\<close>, and
  \<open>calculate_timers\<close> the function. \<open>timing_policy\<close> is the contract in exact
  arithmetic. The lemmas show that the float computation never rounds,
  the bounds, monotonicity and saturation of the result, and
  that the loop is a \<open>map\<close>.
\<close>

section \<open>Definitions\<close>

definition time_per_car :: seconds where
  "time_per_car = 3 / 2"

definition min_time :: seconds where
  "min_time = 5"

definition max_time :: seconds where
  "max_time = 20"

definition timer_for :: "vehicle_count \<Rightarrow> seconds" where
  "timer_for count =
     max min_time (min max_time (float_mul (float_of_int count) time_per_car))"

fun calculate_timers_loop :: "vehicle_count list \<Rightarrow> seconds list \<Rightarrow> seconds list" where
  "calculate_timers_loop [] timers = timers"
| "calculate_timers_loop (count # car_counts) timers =
     calculate_timers_loop car_counts (timers @ [timer_for count])"

definition calculate_timers :: "vehicle_count list \<Rightarrow> seconds list" where
  "calculate_timers car_counts = calculate_timers_loop car_counts []"

definition timing_policy :: "int \<Rightarrow> rat" where
  "timing_policy count = max 5 (min 20 (of_int count * (3 / 2)))"

definition timer_value :: "seconds \<Rightarrow> bool" where
  "timer_value t \<longleftrightarrow> 5 \<le> t \<and> t \<le> 20 \<and> (\<exists>n::int. t = of_int n / 2)"

section \<open>The loop body\<close>

lemmas timing_consts = time_per_car_def min_time_def max_time_def

lemma float_constants [simp]: "is_b64 time_per_car" "is_b64 min_time" "is_b64 max_time"
  using is_b64_half [of 3] is_b64_of_int [of 5] is_b64_of_int [of 20]
  by (simp_all add: timing_consts)

lemma float_product_small:
  assumes "count \<le> 3"
  shows "float_mul (float_of_int count) time_per_car \<le> 9 / 2"
proof -
  have "float_of_int count \<le> 3"
    unfolding float_of_int_def using assms is_b64_of_int [of 3]
    by (intro b64_le_float) simp_all
  then have "float_of_int count * time_per_car \<le> 9 / 2"
    by (simp add: time_per_car_def)
  then show ?thesis
    unfolding float_mul_def using is_b64_half [of 9] by (intro b64_le_float) simp_all
qed

lemma float_product_large:
  assumes "14 \<le> count"
  shows "21 \<le> float_mul (float_of_int count) time_per_car"
proof -
  have "14 \<le> float_of_int count"
    unfolding float_of_int_def using assms is_b64_of_int [of 14]
    by (intro b64_ge_float) simp_all
  then have "21 \<le> float_of_int count * time_per_car"
    by (simp add: time_per_car_def)
  then show ?thesis
    unfolding float_mul_def using is_b64_of_int [of 21] by (intro b64_ge_float) simp_all
qed

lemma float_product_exact:
  assumes "\<bar>count\<bar> < 2 ^ 51"
  shows "float_mul (float_of_int count) time_per_car = of_int count * (3 / 2)"
proof -
  from assms have fl: "float_of_int count = of_int count"
    by (simp add: float_of_int_def b64_of_int)
  have eq: "rat_of_int count * (3 / 2) = of_int (3 * count) / 2" by simp
  have "is_b64 (of_int (3 * count) / 2)"
    using assms by (intro is_b64_half) simp
  then show ?thesis
    unfolding float_mul_def fl time_per_car_def eq by (simp only: is_b64_def)
qed

lemma timer_for_cases:
  "timer_for count =
     (if count \<le> 3 then 5 else if 14 \<le> count then 20 else of_int count * (3 / 2))"
proof -
  consider "count \<le> 3" | "14 \<le> count" | "3 < count" "count < 14" by linarith
  then show ?thesis
  proof cases
    case 1
    with float_product_small [OF 1] show ?thesis
      by (simp add: timer_for_def timing_consts max_def min_def)
  next
    case 2
    with float_product_large [OF 2] show ?thesis
      by (simp add: timer_for_def timing_consts max_def min_def)
  next
    case 3
    then have "\<bar>count\<bar> < 2 ^ 51" and "4 \<le> rat_of_int count" and "rat_of_int count \<le> 13"
      by simp_all
    with 3 show ?thesis
      unfolding timer_for_def by (simp add: float_product_exact min_time_def max_time_def)
  qed
qed

lemma timing_policy_cases:
  "timing_policy count =
     (if count \<le> 3 then 5 else if 14 \<le> count then 20 else of_int count * (3 / 2))"
proof -
  have "count \<le> 3 \<longleftrightarrow> rat_of_int count \<le> 3" and "14 \<le> count \<longleftrightarrow> 14 \<le> rat_of_int count"
    by simp_all
  then show ?thesis
    unfolding timing_policy_def by (simp add: max_def min_def)
qed

lemma timer_for_simps [simp]:
  "timer_for 0 = 5" "timer_for 2 = 5" "timer_for 3 = 5" "timer_for 4 = 6"
  "timer_for 10 = 15" "timer_for 13 = 39 / 2" "timer_for 14 = 20"
  by (simp_all add: timer_for_cases)

lemma timer_for_range: "5 \<le> timer_for count" "timer_for count \<le> 20"
  by (simp_all add: timer_for_def timing_consts)

lemma timer_value_timer_for [simp]: "timer_value (timer_for count)"
proof -
  have "\<exists>n::int. timer_for count = of_int n / 2"
  proof (cases "count \<le> 3 \<or> 14 \<le> count")
    case True
    then have "timer_for count = of_int 10 / 2 \<or> timer_for count = of_int 40 / 2"
      by (auto simp: timer_for_cases)
    then show ?thesis by blast
  next
    case False
    then have "timer_for count = of_int count * (3 / 2)" by (simp add: timer_for_cases)
    also have "\<dots> = of_int (3 * count) / 2" by simp
    finally show ?thesis by blast
  qed
  then show ?thesis by (simp add: timer_value_def timer_for_range)
qed

lemma timer_value_is_b64: "timer_value t \<Longrightarrow> is_b64 t"
proof -
  assume "timer_value t"
  then obtain n :: int where t: "t = of_int n / 2" and "5 \<le> t" "t \<le> 20"
    by (auto simp: timer_value_def)
  then have "\<bar>n\<bar> < 2 ^ 53" by simp
  then show ?thesis unfolding t by (rule is_b64_half)
qed

lemma timer_value_pos: "timer_value t \<Longrightarrow> 0 < t"
  by (simp add: timer_value_def)

text \<open>
  C5. The float computation of a green time never rounds: for every count, the value
  \<^verbatim>\<open>max(min_time, min(max_time, count * time_per_car))\<close> computed in binary64 equals
  the clamp of \<open>count * 1.5\<close> to \<open>[5, 20]\<close> in exact arithmetic.
\<close>

theorem timer_for_exact: "timer_for count = timing_policy count"
  by (simp only: timer_for_cases timing_policy_cases)

text \<open>
  Every green time lies between \<open>min_time = 5\<close> and \<open>max_time = 20\<close> seconds,
  whatever the count, negative counts included.
\<close>

theorem timer_for_bounds: "min_time \<le> timer_for count \<and> timer_for count \<le> max_time"
  by (simp add: timer_for_def timing_consts)

text \<open>
  The green time is monotonically non-decreasing in the vehicle count.
\<close>

theorem timer_for_mono: "c \<le> c' \<Longrightarrow> timer_for c \<le> timer_for c'"
  unfolding timer_for_def float_mul_def float_of_int_def
  by (intro clamp_mono b64_mono mult_right_mono) (simp_all add: time_per_car_def)

theorem timer_for_mono_witness: "(2::int) \<le> 10 \<and> timer_for 2 \<le> timer_for 10"
  using timer_for_mono [of 2 10] by simp

text \<open>
  Saturation: fourteen or more vehicles give the maximum of 20 seconds, since
  \<open>14 * 1.5 = 21\<close> exceeds it.
\<close>

theorem timer_for_saturates: "14 \<le> count \<Longrightarrow> timer_for count = max_time"
  by (simp add: timer_for_cases max_time_def)

theorem timer_for_saturates_witness: "(14::int) \<le> 14 \<and> timer_for 14 = max_time"
  using timer_for_saturates [of 14] by simp

text \<open>
  Floor: three or fewer vehicles (zero and negative counts included) give the
  minimum of 5 seconds, since \<open>3 * 1.5 = 4.5\<close> is below it.
\<close>

theorem timer_for_floor: "count \<le> 3 \<Longrightarrow> timer_for count = min_time"
  by (simp add: timer_for_cases min_time_def)

theorem timer_for_floor_witness: "(0::int) \<le> 3 \<and> timer_for 0 = min_time"
  using timer_for_floor [of 0] by simp

text \<open>
  Between the floor and the saturation point the green time is exactly one and a
  half seconds per vehicle.
\<close>

theorem timer_for_linear:
  "4 \<le> count \<Longrightarrow> count \<le> 13 \<Longrightarrow> timer_for count = of_int count * time_per_car"
  by (simp add: timer_for_cases time_per_car_def)

theorem timer_for_linear_witness:
  "(4::int) \<le> 4 \<and> (4::int) \<le> 13 \<and> timer_for 4 = of_int 4 * time_per_car"
  using timer_for_linear [of 4] by simp

section \<open>The loop\<close>

lemma calculate_timers_loop_map:
  "calculate_timers_loop car_counts timers = timers @ map timer_for car_counts"
  by (induction car_counts arbitrary: timers) simp_all

lemma calculate_timers_map: "calculate_timers car_counts = map timer_for car_counts"
  by (simp add: calculate_timers_def calculate_timers_loop_map)

lemma length_calculate_timers [simp]: "length (calculate_timers cs) = length cs"
  by (simp add: calculate_timers_map)

lemma nth_calculate_timers [simp]:
  "i < length cs \<Longrightarrow> calculate_timers cs ! i = timer_for (cs ! i)"
  by (simp add: calculate_timers_map)

lemma calculate_timers_eq_Nil [simp]: "calculate_timers cs = [] \<longleftrightarrow> cs = []"
  by (simp add: calculate_timers_map)

lemma list_all_timer_value [simp]: "list_all timer_value (calculate_timers cs)"
  by (simp add: calculate_timers_map list_all_iff)

text \<open>
  The accumulator loop of \<^verbatim>\<open>calculate_timers\<close> applies the policy of the
  specification to each count independently and in order: its result is the \<open>map\<close> of
  the exact clamp over the counts, of the same length as the input.
\<close>

theorem calculate_timers_policy:
  "calculate_timers car_counts = map timing_policy car_counts"
  by (simp add: calculate_timers_map timer_for_cases timing_policy_cases)

text \<open>
  The worked example of the specification: the counts \<open>[10, 2, 10, 2]\<close> give the
  green times \<open>[15, 5, 15, 5]\<close>.
\<close>

theorem calculate_timers_example: "calculate_timers [10, 2, 10, 2] = [15, 5, 15, 5]"
  by (simp add: calculate_timers_map)

end
