(* ===== verification/Signals.thy ===== *)
theory Signals
  imports Timing_Policy
begin

text \<open>
  What \<^verbatim>\<open>draw_signals\<close> (lines 154-199 of
  \<^verbatim>\<open>src/advanced_traffic_management.py\<close>) decides to show: the table of the four
  signals with their positions, counts and green times, the colour of the three lamps
  of each signal, and the time printed under it. The pixels (housing, texture lines,
  fonts) are not modelled here.

  The table reads \<^verbatim>\<open>car_counts[0..3]\<close> and \<^verbatim>\<open>timers[0..3]\<close>; with shorter lists
  Python raises \<^verbatim>\<open>IndexError\<close>, which is the \<open>Inl\<close> branch of \<open>signals_table\<close>.
\<close>

section \<open>Definitions\<close>

datatype py_error = IndexError

type_synonym colour = "nat \<times> nat \<times> nat"

definition RED :: colour where
  "RED = (255, 50, 50)"

definition YELLOW :: colour where
  "YELLOW = (255, 200, 0)"

definition GREEN :: colour where
  "GREEN = (50, 255, 50)"

definition BLACK :: colour where
  "BLACK = (0, 0, 0)"

record signal_entry =
  sig_x :: int
  sig_y :: int
  sig_active :: lane
  sig_count :: vehicle_count
  sig_total_time :: seconds
  sig_direction :: string

definition signals_table ::
  "lane \<Rightarrow> vehicle_count list \<Rightarrow> seconds list \<Rightarrow> py_error + signal_entry list" where
  "signals_table active_lane car_counts timers =
     (if length car_counts < 4 \<or> length timers < 4 then Inl IndexError
      else Inr
        [\<lparr>sig_x = 500, sig_y = 250, sig_active = active_lane, sig_count = car_counts ! 0,
           sig_total_time = timers ! 0, sig_direction = ''North''\<rparr>,
         \<lparr>sig_x = 700, sig_y = 500, sig_active = active_lane, sig_count = car_counts ! 1,
           sig_total_time = timers ! 1, sig_direction = ''East''\<rparr>,
         \<lparr>sig_x = 500, sig_y = 750, sig_active = active_lane, sig_count = car_counts ! 2,
           sig_total_time = timers ! 2, sig_direction = ''South''\<rparr>,
         \<lparr>sig_x = 300, sig_y = 500, sig_active = active_lane, sig_count = car_counts ! 3,
           sig_total_time = timers ! 3, sig_direction = ''West''\<rparr>])"

definition light_colors :: "lane \<Rightarrow> nat \<Rightarrow> seconds \<Rightarrow> colour list" where
  "light_colors active_lane idx timer_remaining =
     [if active_lane \<noteq> idx then (255, 50, 50) else (0, 0, 0),
      if active_lane = idx \<and> timer_remaining \<le> 3 then (255, 200, 0) else (0, 0, 0),
      if active_lane = idx \<and> 3 < timer_remaining then (50, 255, 50) else (0, 0, 0)]"

record signal_view =
  view_direction :: string
  view_lights :: "colour list"
  view_count :: vehicle_count
  view_time :: seconds

definition signal_view_of :: "lane \<Rightarrow> seconds \<Rightarrow> nat \<Rightarrow> signal_entry \<Rightarrow> signal_view" where
  "signal_view_of active_lane timer_remaining idx entry =
     \<lparr>view_direction = sig_direction entry,
      view_lights = light_colors active_lane idx timer_remaining,
      view_count = sig_count entry,
      view_time = (if active_lane = idx then timer_remaining else sig_total_time entry)\<rparr>"

definition draw_signals ::
  "lane \<Rightarrow> vehicle_count list \<Rightarrow> seconds list \<Rightarrow> seconds \<Rightarrow> nat
    \<Rightarrow> py_error + signal_view list" where
  "draw_signals active_lane car_counts timers timer_remaining frame_count =
     (case signals_table active_lane car_counts timers of
        Inl e \<Rightarrow> Inl e
      | Inr signals \<Rightarrow>
          Inr (map (\<lambda>(idx, entry). signal_view_of active_lane timer_remaining idx entry)
                 (enumerate 0 signals)))"

definition lit :: "colour list \<Rightarrow> colour list" where
  "lit lights = filter (\<lambda>c. c \<noteq> BLACK) lights"

section \<open>The table\<close>

lemma signals_table_Inl:
  "signals_table a cs ts = Inl e \<longleftrightarrow> e = IndexError \<and> (length cs < 4 \<or> length ts < 4)"
  by (cases e) (auto simp: signals_table_def)

lemma signals_table_Inr:
  assumes "4 \<le> length cs" and "4 \<le> length ts"
  shows "\<exists>tab. signals_table a cs ts = Inr tab \<and> length tab = 4
    \<and> map sig_direction tab = [''North'', ''East'', ''South'', ''West'']
    \<and> map sig_count tab = take 4 cs \<and> map sig_total_time tab = take 4 ts"
proof -
  from assms obtain c0 c1 c2 c3 cs' where cs: "cs = c0 # c1 # c2 # c3 # cs'"
    by (auto simp: Suc_le_length_iff eval_nat_numeral)
  from assms obtain t0 t1 t2 t3 ts' where ts: "ts = t0 # t1 # t2 # t3 # ts'"
    by (auto simp: Suc_le_length_iff eval_nat_numeral)
  show ?thesis by (simp add: signals_table_def cs ts)
qed

section \<open>The lamps\<close>

lemmas colour_defs = RED_def YELLOW_def GREEN_def BLACK_def

lemma light_colors_inactive [simp]:
  "active_lane \<noteq> idx \<Longrightarrow> light_colors active_lane idx r = [RED, BLACK, BLACK]"
  by (simp add: light_colors_def colour_defs)

lemma light_colors_yellow [simp]:
  "r \<le> 3 \<Longrightarrow> light_colors idx idx r = [BLACK, YELLOW, BLACK]"
  by (simp add: light_colors_def colour_defs)

lemma light_colors_green [simp]:
  "3 < r \<Longrightarrow> light_colors idx idx r = [BLACK, BLACK, GREEN]"
  by (simp add: light_colors_def colour_defs)

lemma lit_simps [simp]:
  "lit [RED, BLACK, BLACK] = [RED]" "lit [BLACK, YELLOW, BLACK] = [YELLOW]"
  "lit [BLACK, BLACK, GREEN] = [GREEN]"
  by (simp_all add: lit_def colour_defs)

lemma lit_light_colors:
  "lit (light_colors active_lane idx r) =
     [if active_lane \<noteq> idx then RED else if r \<le> 3 then YELLOW else GREEN]"
  by (cases "active_lane = idx"; cases "r \<le> 3") simp_all

section \<open>The whole display\<close>

lemma draw_signals_Inl:
  "draw_signals a cs ts r f = Inl e \<longleftrightarrow> e = IndexError \<and> (length cs < 4 \<or> length ts < 4)"
  by (cases e) (auto simp: draw_signals_def signals_table_def)

lemma draw_signals_Inr:
  assumes "4 \<le> length cs" and "4 \<le> length ts"
  shows "draw_signals a cs ts r f = Inr
    [\<lparr>view_direction = ''North'', view_lights = light_colors a 0 r, view_count = cs ! 0,
       view_time = (if a = 0 then r else ts ! 0)\<rparr>,
     \<lparr>view_direction = ''East'', view_lights = light_colors a 1 r, view_count = cs ! 1,
       view_time = (if a = 1 then r else ts ! 1)\<rparr>,
     \<lparr>view_direction = ''South'', view_lights = light_colors a 2 r, view_count = cs ! 2,
       view_time = (if a = 2 then r else ts ! 2)\<rparr>,
     \<lparr>view_direction = ''West'', view_lights = light_colors a 3 r, view_count = cs ! 3,
       view_time = (if a = 3 then r else ts ! 3)\<rparr>]"
proof -
  have en: "enumerate 0 [e0, e1, e2, e3] = [(0, e0), (1, e1), (2, e2), (3, e3)]"
    for e0 e1 e2 e3 :: signal_entry
    by (simp add: eval_nat_numeral)
  from assms show ?thesis
    by (simp add: draw_signals_def signals_table_def signal_view_of_def en
        del: enumerate_simps)
qed

text \<open>
  Every signal has exactly one lamp lit. The red lamp is on exactly on the
  directions that are not active, the green lamp exactly on the active direction
  while more than 3 seconds remain, the yellow lamp exactly on the active direction
  when at most 3 seconds remain.
\<close>

theorem one_lamp_lit:
  "length (lit (light_colors active_lane idx r)) = 1
   \<and> (RED \<in> set (light_colors active_lane idx r) \<longleftrightarrow> active_lane \<noteq> idx)
   \<and> (GREEN \<in> set (light_colors active_lane idx r) \<longleftrightarrow> active_lane = idx \<and> 3 < r)
   \<and> (YELLOW \<in> set (light_colors active_lane idx r) \<longleftrightarrow> active_lane = idx \<and> r \<le> 3)"
proof -
  have "length (lit (light_colors active_lane idx r)) = 1"
    by (simp add: lit_light_colors)
  moreover have "RED \<in> set (light_colors active_lane idx r) \<longleftrightarrow> active_lane \<noteq> idx"
    and "GREEN \<in> set (light_colors active_lane idx r) \<longleftrightarrow> active_lane = idx \<and> 3 < r"
    and "YELLOW \<in> set (light_colors active_lane idx r) \<longleftrightarrow> active_lane = idx \<and> r \<le> 3"
    by (auto simp: light_colors_def colour_defs)
  ultimately show ?thesis by simp
qed

lemma draw_signals_views:
  assumes "length cs = 4" and "length ts = 4" and "a < 4"
  shows "\<exists>views. draw_signals a cs ts r f = Inr views
    \<and> map view_direction views = [''North'', ''East'', ''South'', ''West'']
    \<and> map (lit \<circ> view_lights) views =
        (replicate 4 [RED])[a := [if r \<le> 3 then YELLOW else GREEN]]
    \<and> map view_time views = ts[a := r]
    \<and> map view_count views = cs"
proof -
  from assms(1,2) obtain c0 c1 c2 c3 t0 t1 t2 t3
    where cs: "cs = [c0, c1, c2, c3]" and ts: "ts = [t0, t1, t2, t3]"
    by (auto simp: length_4_iff)
  from assms(3) show ?thesis
    by (rule nth_lt_4_cases)
      (simp_all add: draw_signals_Inr cs ts lit_light_colors eval_nat_numeral)
qed

text \<open>
  \<^verbatim>\<open>draw_signals\<close> fails exactly when one of the two lists has fewer than four
  entries, and then with \<^verbatim>\<open>IndexError\<close>.
\<close>

theorem draw_signals_fails_iff:
  "(\<exists>e. draw_signals a cs ts r f = Inl e) \<longleftrightarrow> length cs < 4 \<or> length ts < 4"
  by (simp add: draw_signals_Inl)

end
