(* ===== verification/Scheduler.thy ===== *)
theory Scheduler
  imports Signals
begin

text \<open>
  The scheduler: the state that \<^verbatim>\<open>main\<close> of
  \<^verbatim>\<open>src/advanced_traffic_management.py\<close> keeps in its local variables and the
  loop that advances it once per frame (lines 215-219 and 232-262).

  \<open>controller\<close> is the record of the locals. \<open>startup\<close> is the code between the
  input of the counts and the loop: the check for the all-zero vector, the total, the
  green times, the first direction. \<open>handle_events\<close> is the event loop of a frame,
  \<open>advance_timer\<close> the timer update with the change of direction, \<open>frame\<close> one
  iteration of the \<^verbatim>\<open>while\<close> loop and \<open>main_loop\<close> the loop itself, run on the
  events of each frame; it returns \<open>None\<close> when the events supplied end before the
  loop does. \<open>run\<close> is the state after a number of frames.

  Failures are values: \<open>Invalid_Choice\<close> and \<open>No_Valid_Input\<close> are the early
  returns of \<^verbatim>\<open>main\<close> on a choice other than 1 or 2 (used in theory \<open>Session\<close>)
  and on the all-zero vector, \<open>Raised IndexError\<close> an index out of range in
  \<^verbatim>\<open>timers\<close> or \<^verbatim>\<open>car_counts\<close>.
\<close>

section \<open>Definitions\<close>

datatype exit = Invalid_Choice | No_Valid_Input | Raised py_error

datatype event = QUIT | OTHER

record controller =
  running :: bool
  cycles_completed :: nat
  total_vehicles :: int
  frame_count :: nat
  car_counts :: "vehicle_count list"
  timers :: "seconds list"
  active_lane :: lane
  timer_remaining :: seconds

definition tick_delta :: seconds where
  "tick_delta = int_truediv 1 30"

definition startup :: "vehicle_count list \<Rightarrow> exit + controller" where
  "startup counts =
     (if counts = [0, 0, 0, 0] then Inl No_Valid_Input
      else let ts = calculate_timers counts in
        if ts = [] then Inl (Raised IndexError)
        else Inr \<lparr>running = True, cycles_completed = 0, total_vehicles = sum_list counts,
                  frame_count = 0, car_counts = counts, timers = ts, active_lane = 0,
                  timer_remaining = ts ! 0\<rparr>)"

fun handle_events :: "event list \<Rightarrow> controller \<Rightarrow> controller" where
  "handle_events [] s = s"
| "handle_events (ev # events) s =
     handle_events events (if ev = QUIT then s\<lparr>running := False\<rparr> else s)"

definition switch_lane :: "controller \<Rightarrow> controller" where
  "switch_lane s = s\<lparr>active_lane := (active_lane s + 1) mod 4,
     timer_remaining := timers s ! ((active_lane s + 1) mod 4),
     cycles_completed :=
       (if (active_lane s + 1) mod 4 = 0 then cycles_completed s + 1 else cycles_completed s)\<rparr>"

definition advance_timer :: "controller \<Rightarrow> exit + controller" where
  "advance_timer s =
     (let r = float_sub (timer_remaining s) tick_delta in
      if r \<le> 0 then
        if length (timers s) \<le> (active_lane s + 1) mod 4 then Inl (Raised IndexError)
        else Inr (switch_lane s)
      else Inr (s\<lparr>timer_remaining := r\<rparr>))"

definition frame :: "event list \<Rightarrow> controller \<Rightarrow> exit + controller" where
  "frame events s =
     (case advance_timer (handle_events events s) of
        Inl e \<Rightarrow> Inl e
      | Inr s' \<Rightarrow>
          (case draw_signals (active_lane s') (car_counts s') (timers s') (timer_remaining s')
                  (frame_count s') of
             Inl e \<Rightarrow> Inl (Raised e)
           | Inr view \<Rightarrow> Inr (s'\<lparr>frame_count := frame_count s' + 1\<rparr>)))"

fun main_loop :: "event list list \<Rightarrow> controller \<Rightarrow> (exit + controller) option" where
  "main_loop [] s = (if running s then None else Some (Inr s))"
| "main_loop (events # rest) s =
     (if running s then
        (case frame events s of Inl e \<Rightarrow> Some (Inl e) | Inr s' \<Rightarrow> main_loop rest s')
      else Some (Inr s))"

definition frame_step :: "event list \<Rightarrow> exit + controller \<Rightarrow> exit + controller" where
  "frame_step events r =
     (case r of Inl e \<Rightarrow> Inl e | Inr s \<Rightarrow> if running s then frame events s else Inr s)"

definition run :: "event list list \<Rightarrow> controller \<Rightarrow> exit + controller" where
  "run eventss s = fold frame_step eventss (Inr s)"

definition sched_inv :: "controller \<Rightarrow> bool" where
  "sched_inv s \<longleftrightarrow>
     length (car_counts s) = 4 \<and> timers s = calculate_timers (car_counts s)
     \<and> total_vehicles s = sum_list (car_counts s) \<and> active_lane s < 4
     \<and> 0 < timer_remaining s \<and> timer_remaining s \<le> timers s ! active_lane s
     \<and> is_b64 (timer_remaining s)"

definition phase_index :: "controller \<Rightarrow> nat" where
  "phase_index s = 4 * cycles_completed s + active_lane s"

fun countdown :: "nat \<Rightarrow> seconds \<Rightarrow> nat option" where
  "countdown 0 r = None"
| "countdown (Suc fuel) r =
     (let r' = float_sub r tick_delta in
      if r' \<le> 0 then Some 1 else map_option Suc (countdown fuel r'))"

definition fx :: "int \<Rightarrow> seconds" where
  "fx n = of_int n / 2 ^ 57"

definition tick_fx :: int where
  "tick_fx = 4803839602528529"

fun countdown_fx :: "nat \<Rightarrow> int \<Rightarrow> nat \<Rightarrow> nat option" where
  "countdown_fx 0 a n = None"
| "countdown_fx (Suc fuel) a n =
     (let a' = round53 (a - tick_fx) in
      if a' \<le> 0 then Some (Suc n) else countdown_fx fuel a' (Suc n))"

definition phase_start :: "vehicle_count list \<Rightarrow> lane \<Rightarrow> nat \<Rightarrow> nat \<Rightarrow> controller" where
  "phase_start counts l c f = \<lparr>running = True, cycles_completed = c,
     total_vehicles = sum_list counts, frame_count = f, car_counts = counts,
     timers = calculate_timers counts, active_lane = l,
     timer_remaining = timer_for (counts ! l)\<rparr>"

definition scenario_state :: controller where
  "scenario_state = \<lparr>running = True, cycles_completed = 0, total_vehicles = 24,
     frame_count = 0, car_counts = [10, 2, 10, 2], timers = [15, 5, 15, 5],
     active_lane = 0, timer_remaining = 15\<rparr>"

inductive reachable :: "vehicle_count list \<Rightarrow> controller \<Rightarrow> bool" for counts where
  start: "startup counts = Inr s \<Longrightarrow> reachable counts s"
| step: "reachable counts s \<Longrightarrow> running s \<Longrightarrow> frame events s = Inr s' \<Longrightarrow> reachable counts s'"

section \<open>The invariant\<close>

lemma sched_invD:
  assumes "sched_inv s"
  shows "length (car_counts s) = 4" and "timers s = calculate_timers (car_counts s)"
    and "total_vehicles s = sum_list (car_counts s)" and "active_lane s < 4"
    and "0 < timer_remaining s" and "timer_remaining s \<le> timers s ! active_lane s"
    and "is_b64 (timer_remaining s)"
  using assms unfolding sched_inv_def by blast+

lemma sched_inv_lane:
  assumes "sched_inv s" and "i < 4"
  shows "timer_value (timers s ! i)" and "i < length (timers s)"
  using assms by (simp_all add: sched_inv_def)

lemma sched_inv_lengths:
  assumes "sched_inv s"
  shows "length (timers s) = 4"
  using assms by (simp add: sched_inv_def)

section \<open>The frame period\<close>

lemma tick_delta_value: "tick_delta = 4803839602528529 / 2 ^ 57"
  unfolding tick_delta_def by code_simp

lemma tick_delta_pos [simp]: "0 < tick_delta"
  by (simp add: tick_delta_value)

lemma is_b64_tick_delta [simp]: "is_b64 tick_delta"
  by (simp add: tick_delta_def)

lemma float_sub_tick_le: "is_b64 r \<Longrightarrow> float_sub r tick_delta \<le> r"
  unfolding float_sub_def by (rule b64_le_float) (simp_all add: less_imp_le)

text \<open>
  The frame period the program subtracts is not a thirtieth of a second: the
  float nearest to \<open>1 / 30\<close> is smaller than it by exactly \<open>1 / (15 * 2 ^ 57)\<close>.
\<close>

theorem tick_delta_below_thirtieth:
  "tick_delta = 1 / 30 - 1 / (15 * 2 ^ 57) \<and> tick_delta < 1 / 30"
  by (simp add: tick_delta_value)

section \<open>Events\<close>

lemma handle_events_eq:
  "handle_events events s = s\<lparr>running := running s \<and> QUIT \<notin> set events\<rparr>"
  by (induction events arbitrary: s) auto

lemma handle_events_frame [simp, tm_frame]:
  "cycles_completed (handle_events events s) = cycles_completed s"
  "total_vehicles (handle_events events s) = total_vehicles s"
  "frame_count (handle_events events s) = frame_count s"
  "car_counts (handle_events events s) = car_counts s"
  "timers (handle_events events s) = timers s"
  "active_lane (handle_events events s) = active_lane s"
  "timer_remaining (handle_events events s) = timer_remaining s"
  by (simp_all add: handle_events_eq)

lemma running_handle_events [simp]:
  "running (handle_events events s) \<longleftrightarrow> running s \<and> QUIT \<notin> set events"
  by (simp add: handle_events_eq)

lemma sched_inv_handle_events [simp, tm_inv]:
  "sched_inv (handle_events events s) \<longleftrightarrow> sched_inv s"
  by (simp add: sched_inv_def)

section \<open>Start\<close>

lemma startup_cases:
  "startup counts =
     (if counts = [0, 0, 0, 0] then Inl No_Valid_Input
      else if counts = [] then Inl (Raised IndexError)
      else Inr \<lparr>running = True, cycles_completed = 0, total_vehicles = sum_list counts,
                frame_count = 0, car_counts = counts, timers = calculate_timers counts,
                active_lane = 0, timer_remaining = timer_for (hd counts)\<rparr>)"
  by (cases counts) (simp_all add: startup_def Let_def calculate_timers_map)

lemma sched_inv_startup [tm_inv]:
  assumes "startup counts = Inr s" and "length counts = 4"
  shows "sched_inv s"
proof -
  from assms(2) obtain a b c d where c: "counts = [a, b, c, d]" by (auto simp: length_4_iff)
  with assms(1) have s: "s = \<lparr>running = True, cycles_completed = 0,
      total_vehicles = sum_list counts, frame_count = 0, car_counts = counts,
      timers = calculate_timers counts, active_lane = 0, timer_remaining = timer_for a\<rparr>"
    by (simp add: startup_cases split: if_splits)
  show ?thesis
    unfolding sched_inv_def s
    by (simp add: c calculate_timers_map timer_value_pos timer_value_is_b64)
qed

section \<open>The timer update\<close>

lemma switch_lane_fields [simp, tm_frame]:
  "running (switch_lane s) = running s"
  "total_vehicles (switch_lane s) = total_vehicles s"
  "frame_count (switch_lane s) = frame_count s"
  "car_counts (switch_lane s) = car_counts s"
  "timers (switch_lane s) = timers s"
  "active_lane (switch_lane s) = (active_lane s + 1) mod 4"
  "timer_remaining (switch_lane s) = timers s ! ((active_lane s + 1) mod 4)"
  "cycles_completed (switch_lane s) =
     (if active_lane s mod 4 = 3 then cycles_completed s + 1 else cycles_completed s)"
  by (simp_all add: switch_lane_def mod_Suc)

lemma switch_lane_updates [simp]:
  "switch_lane (s\<lparr>frame_count := n\<rparr>) = (switch_lane s)\<lparr>frame_count := n\<rparr>"
  "switch_lane (s\<lparr>running := b\<rparr>) = (switch_lane s)\<lparr>running := b\<rparr>"
  by (simp_all add: switch_lane_def)

lemma advance_timer_continue:
  assumes "0 < float_sub (timer_remaining s) tick_delta"
  shows "advance_timer s = Inr (s\<lparr>timer_remaining := float_sub (timer_remaining s) tick_delta\<rparr>)"
  using assms by (simp add: advance_timer_def Let_def not_le [symmetric])

lemma advance_timer_switch:
  assumes "float_sub (timer_remaining s) tick_delta \<le> 0"
    and "(active_lane s + 1) mod 4 < length (timers s)"
  shows "advance_timer s = Inr (switch_lane s)"
  using assms by (simp add: advance_timer_def Let_def)

lemma advance_timer_error:
  assumes "float_sub (timer_remaining s) tick_delta \<le> 0"
    and "length (timers s) \<le> (active_lane s + 1) mod 4"
  shows "advance_timer s = Inl (Raised IndexError)"
  using assms by (simp add: advance_timer_def Let_def)

lemma advance_timer_frame [tm_frame]:
  assumes "advance_timer s = Inr s'"
  shows "running s' = running s" "total_vehicles s' = total_vehicles s"
    "frame_count s' = frame_count s" "car_counts s' = car_counts s" "timers s' = timers s"
  using assms by (auto simp: advance_timer_def Let_def split: if_splits)

lemma advance_timer_total:
  assumes "sched_inv s"
  shows "\<exists>s'. advance_timer s = Inr s'"
proof (cases "float_sub (timer_remaining s) tick_delta \<le> 0")
  case True
  have "(active_lane s + 1) mod 4 < length (timers s)"
    using sched_inv_lane(2) [OF assms, of "(active_lane s + 1) mod 4"] by simp
  with True show ?thesis by (simp add: advance_timer_switch)
next
  case False
  then show ?thesis by (simp add: advance_timer_continue)
qed

lemma sched_inv_advance_timer [tm_inv]:
  assumes "sched_inv s" and "advance_timer s = Inr s'"
  shows "sched_inv s'"
proof (cases "float_sub (timer_remaining s) tick_delta \<le> 0")
  case True
  let ?l = "(active_lane s + 1) mod 4"
  have l: "?l < 4" by simp
  note tv = sched_inv_lane [OF assms(1) l]
  from True tv(2) assms(2) have s': "s' = switch_lane s"
    by (simp add: advance_timer_switch)
  from assms(1) tv(1) show ?thesis
    unfolding s' sched_inv_def by (simp add: timer_value_pos timer_value_is_b64)
next
  case False
  with assms(2) have s': "s' = s\<lparr>timer_remaining := float_sub (timer_remaining s) tick_delta\<rparr>"
    by (simp add: advance_timer_continue)
  note inv = sched_invD [OF assms(1)]
  from float_sub_tick_le [OF inv(7)] inv(6)
  have "float_sub (timer_remaining s) tick_delta \<le> timers s ! active_lane s" by simp
  with inv False show ?thesis
    unfolding s' sched_inv_def by (simp del: nth_calculate_timers)
qed

lemma advance_timer_phase_index:
  assumes "advance_timer s = Inr s'" and "active_lane s < 4"
  shows "phase_index s' =
    phase_index s + (if float_sub (timer_remaining s) tick_delta \<le> 0 then 1 else 0)"
proof (cases "float_sub (timer_remaining s) tick_delta \<le> 0")
  case True
  with assms(1) have s': "s' = switch_lane s"
    by (auto simp: advance_timer_def Let_def split: if_splits)
  from assms(2) show ?thesis
    by (rule nth_lt_4_cases) (simp_all add: phase_index_def s' True)
next
  case False
  with assms(1) show ?thesis
    by (auto simp: advance_timer_def Let_def phase_index_def)
qed

section \<open>One frame\<close>

lemma sched_inv_frame_count [simp]: "sched_inv (s\<lparr>frame_count := n\<rparr>) \<longleftrightarrow> sched_inv s"
  by (simp add: sched_inv_def)

lemma phase_index_updates [simp]:
  "phase_index (s\<lparr>frame_count := n\<rparr>) = phase_index s"
  "phase_index (s\<lparr>running := b\<rparr>) = phase_index s"
  "phase_index (s\<lparr>timer_remaining := r\<rparr>) = phase_index s"
  by (simp_all add: phase_index_def)

lemma frame_eq:
  assumes "advance_timer (handle_events events s) = Inr s1"
    and "length (car_counts s) = 4" and "length (timers s) = 4"
  shows "frame events s = Inr (s1\<lparr>frame_count := frame_count s1 + 1\<rparr>)"
proof -
  from advance_timer_frame(4,5) [OF assms(1)] assms(2,3)
  have "4 \<le> length (car_counts s1)" and "4 \<le> length (timers s1)" by simp_all
  then show ?thesis
    by (simp add: frame_def assms(1) draw_signals_Inr)
qed

lemma frame_Inr:
  assumes "sched_inv s"
  obtains s1 where "advance_timer (handle_events events s) = Inr s1"
    and "frame events s = Inr (s1\<lparr>frame_count := frame_count s1 + 1\<rparr>)"
    and "sched_inv s1"
proof -
  from assms have inv: "sched_inv (handle_events events s)" by simp
  from advance_timer_total [OF inv] obtain s1
    where s1: "advance_timer (handle_events events s) = Inr s1" by blast
  from sched_invD(1) [OF assms] sched_inv_lengths [OF assms]
  have "frame events s = Inr (s1\<lparr>frame_count := frame_count s1 + 1\<rparr>)"
    by (intro frame_eq [OF s1])
  with s1 sched_inv_advance_timer [OF inv s1] that show thesis by blast
qed

lemma frame_preserves:
  assumes "frame events s = Inr s'"
  shows "car_counts s' = car_counts s" and "timers s' = timers s"
    and "total_vehicles s' = total_vehicles s" and "frame_count s' = frame_count s + 1"
    and "running s' \<longleftrightarrow> running s \<and> QUIT \<notin> set events"
proof -
  from assms obtain s1 where s1: "advance_timer (handle_events events s) = Inr s1"
    and s': "s' = s1\<lparr>frame_count := frame_count s1 + 1\<rparr>"
    by (auto simp: frame_def split: sum.splits)
  note fr = advance_timer_frame [OF s1]
  show "car_counts s' = car_counts s" and "timers s' = timers s"
    and "total_vehicles s' = total_vehicles s" and "frame_count s' = frame_count s + 1"
    and "running s' \<longleftrightarrow> running s \<and> QUIT \<notin> set events"
    by (simp_all add: s' fr)
qed

lemma sched_inv_frame [tm_inv]:
  assumes "sched_inv s" and "frame events s = Inr s'"
  shows "sched_inv s'"
proof -
  from frame_Inr [OF assms(1), of events] obtain s1
    where "frame events s = Inr (s1\<lparr>frame_count := frame_count s1 + 1\<rparr>)"
      and s1: "sched_inv s1" by blast
  with assms(2) have "s' = s1\<lparr>frame_count := frame_count s1 + 1\<rparr>" by simp
  with s1 show ?thesis by simp
qed

section \<open>Runs\<close>

lemma frame_step_simps [simp]:
  "frame_step events (Inl e) = Inl e"
  "frame_step events (Inr s) = (if running s then frame events s else Inr s)"
  by (simp_all add: frame_step_def)

lemma run_Nil [simp]: "run [] s = Inr s"
  by (simp add: run_def)

lemma fold_frame_step_Inl [simp]: "fold frame_step eventss (Inl e) = Inl e"
  by (induction eventss) simp_all

lemma fold_frame_step_stopped [simp]:
  "\<not> running s \<Longrightarrow> fold frame_step eventss (Inr s) = Inr s"
  by (induction eventss) simp_all

lemma run_Cons:
  "run (events # rest) s =
     (if running s then (case frame events s of Inl e \<Rightarrow> Inl e | Inr s' \<Rightarrow> run rest s')
      else Inr s)"
  by (simp add: run_def split: sum.splits)

lemma run_append:
  "run (xs @ ys) s = (case run xs s of Inl e \<Rightarrow> Inl e | Inr s' \<Rightarrow> run ys s')"
  by (simp add: run_def split: sum.splits)

lemma main_loop_run:
  "main_loop eventss s =
     (case run eventss s of
        Inl e \<Rightarrow> Some (Inl e)
      | Inr s' \<Rightarrow> if running s' then None else Some (Inr s'))"
  by (induction eventss arbitrary: s) (simp_all add: run_Cons split: sum.splits)

lemma run_inv:
  assumes "sched_inv s"
  shows "\<exists>s'. run eventss s = Inr s' \<and> sched_inv s'"
  using assms
proof (induction eventss arbitrary: s)
  case Nil
  then show ?case by simp
next
  case (Cons events rest)
  show ?case
  proof (cases "running s")
    case True
    from frame_Inr [OF Cons.prems, of events] obtain s1
      where fr: "frame events s = Inr (s1\<lparr>frame_count := frame_count s1 + 1\<rparr>)"
        and "sched_inv s1" by blast
    then have "sched_inv (s1\<lparr>frame_count := frame_count s1 + 1\<rparr>)" by simp
    from Cons.IH [OF this] True fr show ?thesis by (simp add: run_Cons)
  next
    case False
    with Cons.prems show ?thesis by (simp add: run_Cons)
  qed
qed

section \<open>The length of a phase\<close>

text \<open>
  \<open>countdown fuel r\<close> is the number of frames after which a timer that starts at \<open>r\<close>
  is used up, if that happens within \<open>fuel\<close> frames. The timer values are multiples
  of \<open>2 powi (- 57)\<close>; \<open>fx\<close> reads an integer as such a multiple, and on these
  integers the countdown runs with \<open>round53\<close> (\<open>countdown_fx\<close>).
\<close>

lemma fx_le_0 [simp]: "fx a \<le> 0 \<longleftrightarrow> a \<le> 0"
  by (simp add: fx_def divide_le_0_iff)

lemma fx_of_int: "fx (n * 2 ^ 57) = of_int n"
  by (simp add: fx_def)

lemma tick_delta_fx: "tick_delta = fx tick_fx"
  by (simp add: tick_delta_value fx_def tick_fx_def)

lemma float_sub_fx: "float_sub (fx a) tick_delta = fx (round53 (a - tick_fx))"
proof -
  have p: "(2::rat) powi (- 57) = 1 / 2 ^ 57" by (simp add: power_int_minus_divide)
  have "fx a - fx tick_fx = of_int (a - tick_fx) * 2 powi (- 57)"
    unfolding p by (simp add: fx_def diff_divide_distrib)
  then have "float_sub (fx a) tick_delta = of_int (round53 (a - tick_fx)) * 2 powi (- 57)"
    by (simp only: float_sub_def tick_delta_fx b64_scaled)
  then show ?thesis unfolding p by (simp add: fx_def)
qed

lemma countdown_fx:
  "countdown_fx fuel a n = map_option (\<lambda>k. k + n) (countdown fuel (fx a))"
  by (induction fuel arbitrary: a n)
    (simp_all add: float_sub_fx Let_def option.map_comp comp_def)

lemma countdown_fx_eval:
  assumes "countdown_fx fuel (d * 2 ^ 57) 0 = Some n"
  shows "countdown fuel (of_int d) = Some n"
proof -
  from assms have "map_option (\<lambda>k. k + 0) (countdown fuel (fx (d * 2 ^ 57))) = Some n"
    by (simp only: countdown_fx)
  then show ?thesis
    by (simp only: fx_of_int add_0_right option.map_ident)
qed

lemma countdown_Suc: "countdown fuel r = Some n \<Longrightarrow> countdown (Suc fuel) r = Some n"
proof (induction fuel arbitrary: r n)
  case 0
  then show ?case by simp
next
  case (Suc fuel)
  show ?case
  proof (cases "float_sub r tick_delta \<le> 0")
    case True
    with Suc.prems show ?thesis by simp
  next
    case False
    with Suc.prems obtain m where "countdown fuel (float_sub r tick_delta) = Some m"
      and "n = Suc m" by (auto simp: Let_def)
    with Suc.IH [of "float_sub r tick_delta" m] False show ?thesis by (simp add: Let_def)
  qed
qed

lemma countdown_add: "countdown fuel r = Some n \<Longrightarrow> countdown (fuel + k) r = Some n"
  by (induction k) (simp_all add: countdown_Suc del: countdown.simps)

lemma countdown_mono:
  "countdown fuel r = Some n \<Longrightarrow> fuel \<le> fuel' \<Longrightarrow> countdown fuel' r = Some n"
  using countdown_add [of fuel r n "fuel' - fuel"] by simp

lemma countdown_5 [simp]: "countdown 200 5 = Some 151"
proof -
  have "countdown_fx 200 (5 * 2 ^ 57) 0 = Some 151" by code_simp
  then show ?thesis using countdown_fx_eval [of 200 5 151] by simp
qed

lemma countdown_15 [simp]: "countdown 500 15 = Some 451"
proof -
  have "countdown_fx 500 (15 * 2 ^ 57) 0 = Some 451" by code_simp
  then show ?thesis using countdown_fx_eval [of 500 15 451] by simp
qed

section \<open>Frames without a quit event\<close>

lemma handle_events_quiet [simp]:
  "running s \<Longrightarrow> QUIT \<notin> set events \<Longrightarrow> handle_events events s = s"
  by (simp add: handle_events_eq)

lemma frame_continue:
  assumes "sched_inv s" and "running s" and "QUIT \<notin> set events"
    and "0 < float_sub (timer_remaining s) tick_delta"
  shows "frame events s = Inr (s\<lparr>timer_remaining := float_sub (timer_remaining s) tick_delta,
    frame_count := frame_count s + 1\<rparr>)"
  using sched_invD(1) [OF assms(1)] sched_inv_lengths [OF assms(1)] assms(2-4)
    frame_eq [of events s, OF advance_timer_continue]
  by simp

lemma frame_switch:
  assumes "sched_inv s" and "running s" and "QUIT \<notin> set events"
    and "float_sub (timer_remaining s) tick_delta \<le> 0"
  shows "frame events s = Inr ((switch_lane s)\<lparr>frame_count := frame_count s + 1\<rparr>)"
proof -
  have "(active_lane s + 1) mod 4 < length (timers s)"
    using sched_inv_lengths [OF assms(1)] by simp
  from advance_timer_switch [OF assms(4) this] assms(2,3)
  have "advance_timer (handle_events events s) = Inr (switch_lane s)"
    by simp
  from frame_eq [OF this sched_invD(1) [OF assms(1)] sched_inv_lengths [OF assms(1)]]
  show ?thesis by simp
qed

lemma run_replicate_Suc:
  "run (replicate (Suc n) []) s =
     (if running s then (case frame [] s of Inl e \<Rightarrow> Inl e | Inr s' \<Rightarrow> run (replicate n []) s')
      else Inr s)"
  by (simp add: run_Cons)

lemma run_phase:
  assumes "countdown fuel (timer_remaining s) = Some n" and "sched_inv s" and "running s"
  shows "run (replicate n []) s = Inr ((switch_lane s)\<lparr>frame_count := frame_count s + n\<rparr>)"
  using assms
proof (induction fuel arbitrary: s n)
  case 0
  then show ?case by simp
next
  case (Suc fuel)
  let ?r = "float_sub (timer_remaining s) tick_delta"
  show ?case
  proof (cases "?r \<le> 0")
    case True
    with Suc.prems(1) have n: "n = Suc 0" by simp
    from frame_switch [OF Suc.prems(2,3) _ True, of "[]"] Suc.prems(3)
    show ?thesis unfolding n run_replicate_Suc by simp
  next
    case False
    with Suc.prems(1) obtain m where m: "countdown fuel ?r = Some m" and n: "n = Suc m"
      by (auto simp: Let_def)
    let ?s1 = "s\<lparr>timer_remaining := ?r, frame_count := frame_count s + 1\<rparr>"
    from False have fr: "frame [] s = Inr ?s1"
      by (intro frame_continue Suc.prems) simp_all
    with Suc.prems(2) have inv: "sched_inv ?s1" by (rule sched_inv_frame)
    from Suc.prems(3) have run1: "running ?s1" by simp
    from m have "countdown fuel (timer_remaining ?s1) = Some m" by simp
    from Suc.IH [OF this inv run1] Suc.prems(3) fr
    show ?thesis unfolding n run_replicate_Suc by simp
  qed
qed

lemma run_before_switch:
  assumes "countdown fuel (timer_remaining s) = Some n" and "sched_inv s" and "running s"
    and "k < n"
  shows "\<exists>r. run (replicate k []) s = Inr (s\<lparr>timer_remaining := r, frame_count := frame_count s + k\<rparr>)"
  using assms
proof (induction k arbitrary: s n fuel)
  case 0
  have "s = s\<lparr>timer_remaining := timer_remaining s, frame_count := frame_count s + 0\<rparr>"
    by simp
  then show ?case by (metis run_Nil replicate_0)
next
  case (Suc k)
  let ?r = "float_sub (timer_remaining s) tick_delta"
  from Suc.prems(1) obtain fuel' where fuel: "fuel = Suc fuel'"
    by (cases fuel) simp_all
  from Suc.prems(1,4) have pos: "0 < ?r"
    unfolding fuel by (auto simp: Let_def split: if_splits)
  with Suc.prems(1) obtain m where m: "countdown fuel' ?r = Some m" and n: "n = Suc m"
    unfolding fuel by (auto simp: Let_def)
  let ?s1 = "s\<lparr>timer_remaining := ?r, frame_count := frame_count s + 1\<rparr>"
  from pos have fr: "frame [] s = Inr ?s1"
    by (intro frame_continue Suc.prems) simp_all
  with Suc.prems(2) have inv: "sched_inv ?s1" by (rule sched_inv_frame)
  from Suc.prems(3) have run1: "running ?s1" by simp
  from m have cd: "countdown fuel' (timer_remaining ?s1) = Some m" by simp
  from Suc.prems(4) n have "k < m" by simp
  from Suc.IH [OF cd inv run1 this] obtain r
    where "run (replicate k []) ?s1 = Inr (?s1\<lparr>timer_remaining := r,
      frame_count := frame_count ?s1 + k\<rparr>)" by blast
  with Suc.prems(3) fr have "run (replicate (Suc k) []) s =
      Inr (s\<lparr>timer_remaining := r, frame_count := frame_count s + Suc k\<rparr>)"
    unfolding run_replicate_Suc by simp
  then show ?case by blast
qed

section \<open>Reachable states\<close>

inductive_cases reachableE: "reachable counts s"

lemma reachable_run:
  assumes "startup counts = Inr s0" and "run eventss s0 = Inr s"
  shows "reachable counts s"
  using assms(2) reachable.start [OF assms(1)]
proof (induction eventss arbitrary: s0)
  case Nil
  then show ?case by simp
next
  case (Cons events rest)
  show ?case
  proof (cases "running s0")
    case True
    with Cons.prems(1) obtain s1 where fr: "frame events s0 = Inr s1"
      and rest: "run rest s1 = Inr s"
      by (auto simp: run_Cons split: sum.splits)
    from Cons.prems(2) True fr have "reachable counts s1" by (rule reachable.step)
    with rest show ?thesis by (rule Cons.IH)
  next
    case False
    with Cons.prems show ?thesis by (simp add: run_Cons)
  qed
qed

lemma reachable_sched_inv:
  assumes "reachable counts s" and "length counts = 4"
  shows "sched_inv s \<and> car_counts s = counts"
  using assms
proof (induction rule: reachable.induct)
  case (start s)
  then have "car_counts s = counts"
    by (auto simp: startup_cases split: if_splits)
  with start show ?case by (simp add: sched_inv_startup)
next
  case (step s events s')
  then have "sched_inv s" and "car_counts s = counts" by simp_all
  with step.hyps(3) show ?case
    by (auto intro: sched_inv_frame simp: frame_preserves(1))
qed

section \<open>Properties\<close>

text \<open>
  C35. \<^verbatim>\<open>main\<close> does not enter its loop exactly for two inputs: the all-zero vector,
  on which it returns early, and the empty vector, on which reading \<^verbatim>\<open>timers[0]\<close>
  raises \<^verbatim>\<open>IndexError\<close>. Every other vector, of any length and with any signs,
  is accepted.
\<close>

theorem startup_fails_iff:
  "(startup counts = Inl No_Valid_Input \<longleftrightarrow> counts = [0, 0, 0, 0])
   \<and> (startup counts = Inl (Raised IndexError) \<longleftrightarrow> counts = [])
   \<and> ((\<exists>e. startup counts = Inl e) \<longleftrightarrow> counts = [0, 0, 0, 0] \<or> counts = [])"
  by (auto simp: startup_cases)

text \<open>
  For four counts that are not all zero the loop starts in direction 0 with the
  full green time of that direction, no completed cycles, frame 0, and the sum of the
  counts as the total; the invariant of the scheduler holds in this state.
\<close>

theorem startup_state:
  assumes "length counts = 4" and "counts \<noteq> [0, 0, 0, 0]"
  shows "\<exists>s. startup counts = Inr s \<and> sched_inv s \<and> running s \<and> active_lane s = 0
    \<and> timer_remaining s = timer_for (counts ! 0) \<and> cycles_completed s = 0
    \<and> frame_count s = 0 \<and> total_vehicles s = sum_list counts
    \<and> car_counts s = counts \<and> timers s = map timer_for counts"
proof -
  from assms(1) have ne: "counts \<noteq> []" by auto
  then have hd: "hd counts = counts ! 0" by (simp add: hd_conv_nth)
  from assms ne obtain s where s: "startup counts = Inr s" by (simp add: startup_cases)
  from sched_inv_startup [OF s assms(1)] s assms(2) ne show ?thesis
    by (auto simp: startup_cases hd calculate_timers_map)
qed

theorem startup_state_witness:
  "\<exists>s. startup [10, 2, 10, 2] = Inr s \<and> sched_inv s \<and> running s \<and> active_lane s = 0
    \<and> timer_remaining s = 15 \<and> cycles_completed s = 0
    \<and> frame_count s = 0 \<and> total_vehicles s = 24
    \<and> car_counts s = [10, 2, 10, 2] \<and> timers s = [15, 5, 15, 5]"
  using startup_state [of "[10, 2, 10, 2]"] by simp

text \<open>
  C1. A frame never fails in a state that satisfies the invariant, and the state
  after it satisfies the invariant again: the active direction is one of the four,
  the running timer is a float, positive and at most the green time of the active
  direction. In particular no \<^verbatim>\<open>IndexError\<close> is raised and the timer shown on the
  display is never zero or negative.
\<close>

theorem frame_safe:
  assumes "sched_inv s"
  shows "\<exists>s'. frame events s = Inr s' \<and> sched_inv s'"
proof -
  from frame_Inr [OF assms, of events] obtain s1
    where "frame events s = Inr (s1\<lparr>frame_count := frame_count s1 + 1\<rparr>)"
      and "sched_inv s1" by blast
  then show ?thesis by simp
qed

theorem frame_safe_witness:
  "sched_inv \<lparr>running = True, cycles_completed = 0, total_vehicles = 24, frame_count = 0,
       car_counts = [10, 2, 10, 2], timers = [15, 5, 15, 5], active_lane = 0,
       timer_remaining = 15\<rparr>
   \<and> (\<exists>s'. frame [] \<lparr>running = True, cycles_completed = 0, total_vehicles = 24,
       frame_count = 0, car_counts = [10, 2, 10, 2], timers = [15, 5, 15, 5],
       active_lane = 0, timer_remaining = 15\<rparr> = Inr s' \<and> sched_inv s')"
proof -
  let ?s = "\<lparr>running = True, cycles_completed = 0, total_vehicles = 24, frame_count = 0,
       car_counts = [10, 2, 10, 2], timers = [15, 5, 15, 5], active_lane = 0,
       timer_remaining = 15\<rparr>"
  have "startup [10, 2, 10, 2] = Inr ?s" by (simp add: startup_cases calculate_timers_map)
  then have "sched_inv ?s" by (rule sched_inv_startup) simp
  with frame_safe [of ?s "[]"] show ?thesis by simp
qed

text \<open>
  C4. In every state that the program reaches from four counts, the active direction
  is between 0 and 3, the running timer is positive and at most 20 seconds, and the
  counts, green times and total are those computed at the start.
\<close>

theorem reachable_invariant:
  assumes "reachable counts s" and "length counts = 4"
  shows "active_lane s < 4 \<and> 0 < timer_remaining s \<and> timer_remaining s \<le> 20
    \<and> car_counts s = counts \<and> timers s = calculate_timers counts
    \<and> total_vehicles s = sum_list counts"
proof -
  from reachable_sched_inv [OF assms] have inv: "sched_inv s" and c: "car_counts s = counts"
    by simp_all
  note d = sched_invD [OF inv]
  from sched_inv_lane(1) [OF inv d(4)] have "timers s ! active_lane s \<le> 20"
    by (simp add: timer_value_def)
  with d c show ?thesis by simp
qed

theorem reachable_invariant_witness:
  "reachable [10, 2, 10, 2] \<lparr>running = True, cycles_completed = 0, total_vehicles = 24,
       frame_count = 0, car_counts = [10, 2, 10, 2], timers = [15, 5, 15, 5],
       active_lane = 0, timer_remaining = 15\<rparr>
   \<and> length [10, 2, 10, 2 :: int] = 4
   \<and> (0::nat) < 4 \<and> (0::rat) < 15 \<and> (15::rat) \<le> 20
   \<and> calculate_timers [10, 2, 10, 2] = [15, 5, 15, 5] \<and> sum_list [10, 2, 10, 2 :: int] = 24"
proof -
  let ?s = "\<lparr>running = True, cycles_completed = 0, total_vehicles = 24, frame_count = 0,
       car_counts = [10, 2, 10, 2], timers = [15, 5, 15, 5], active_lane = 0,
       timer_remaining = 15\<rparr>"
  have "startup [10, 2, 10, 2] = Inr ?s" by (simp add: startup_cases calculate_timers_map)
  then have r: "reachable [10, 2, 10, 2] ?s" by (rule reachable.start)
  from reachable_invariant [OF r] r show ?thesis by simp
qed

text \<open>
  C7. Cycle accounting. Counting phases as \<open>4 * cycles_completed + active_lane\<close>, a
  frame advances the count by exactly one when the timer is used up and leaves it
  unchanged otherwise; \<open>cycles_completed\<close> grows by one exactly when the direction
  returns from 3 to 0, so one completed cycle is four changes of direction.
\<close>

theorem frame_phase_accounting:
  assumes "sched_inv s" and "frame events s = Inr s'"
  shows "phase_index s' =
      phase_index s + (if float_sub (timer_remaining s) tick_delta \<le> 0 then 1 else 0)
    \<and> cycles_completed s' = cycles_completed s +
      (if float_sub (timer_remaining s) tick_delta \<le> 0 \<and> active_lane s = 3 then 1 else 0)"
proof -
  from frame_Inr [OF assms(1), of events] assms(2) obtain s1
    where s1: "advance_timer (handle_events events s) = Inr s1"
      and s': "s' = s1\<lparr>frame_count := frame_count s1 + 1\<rparr>" by auto
  note lane = sched_invD(4) [OF assms(1)]
  from advance_timer_phase_index [OF s1] lane
  have "phase_index s' =
      phase_index s + (if float_sub (timer_remaining s) tick_delta \<le> 0 then 1 else 0)"
    by (simp add: s' phase_index_def)
  moreover from s1 lane have "cycles_completed s1 = cycles_completed s +
      (if float_sub (timer_remaining s) tick_delta \<le> 0 \<and> active_lane s = 3 then 1 else 0)"
    by (auto simp: advance_timer_def Let_def split: if_splits)
  ultimately show ?thesis by (simp add: s')
qed

theorem frame_phase_accounting_witness:
  "sched_inv (scenario_state\<lparr>active_lane := 3, timer_remaining := tick_delta\<rparr>)
   \<and> frame [] (scenario_state\<lparr>active_lane := 3, timer_remaining := tick_delta\<rparr>) =
       Inr (scenario_state\<lparr>cycles_completed := 1, frame_count := 1\<rparr>)
   \<and> phase_index (scenario_state\<lparr>cycles_completed := 1, frame_count := 1\<rparr>) =
       phase_index (scenario_state\<lparr>active_lane := 3, timer_remaining := tick_delta\<rparr>) + 1
   \<and> cycles_completed (scenario_state\<lparr>cycles_completed := 1, frame_count := 1\<rparr>) = 1"
proof -
  let ?s = "scenario_state\<lparr>active_lane := 3, timer_remaining := tick_delta\<rparr>"
  have z: "float_sub tick_delta tick_delta = 0" by (simp add: float_sub_def)
  have "tick_delta \<le> 5" by (simp add: tick_delta_value)
  then have inv: "sched_inv ?s"
    by (simp add: sched_inv_def scenario_state_def calculate_timers_map)
  have "frame [] ?s = Inr ((switch_lane ?s)\<lparr>frame_count := frame_count ?s + 1\<rparr>)"
    by (rule frame_switch [OF inv]) (simp_all add: scenario_state_def z)
  then have fr: "frame [] ?s = Inr (scenario_state\<lparr>cycles_completed := 1, frame_count := 1\<rparr>)"
    by (simp add: switch_lane_def scenario_state_def)
  from frame_phase_accounting [OF inv fr] inv fr show ?thesis
    by (simp add: z scenario_state_def)
qed

section \<open>The loop and the quit event\<close>

lemma sched_inv_scenario [simp]: "sched_inv scenario_state"
  by (simp add: sched_inv_def scenario_state_def calculate_timers_map)

lemma scenario_state_fields [simp]:
  "running scenario_state" "cycles_completed scenario_state = 0"
  "total_vehicles scenario_state = 24" "frame_count scenario_state = 0"
  "car_counts scenario_state = [10, 2, 10, 2]" "timers scenario_state = [15, 5, 15, 5]"
  "active_lane scenario_state = 0" "timer_remaining scenario_state = 15"
  by (simp_all add: scenario_state_def)

lemma main_loop_stopped: "\<not> running s \<Longrightarrow> main_loop eventss s = Some (Inr s)"
  by (cases eventss) simp_all

lemma main_loop_quit_iff:
  assumes "sched_inv s" and "running s"
  shows "main_loop eventss s = None \<longleftrightarrow> (\<forall>events \<in> set eventss. QUIT \<notin> set events)"
  using assms
proof (induction eventss arbitrary: s)
  case Nil
  then show ?case by simp
next
  case (Cons events rest)
  from frame_Inr [OF Cons.prems(1), of events] obtain s1
    where "frame events s = Inr (s1\<lparr>frame_count := frame_count s1 + 1\<rparr>)" and "sched_inv s1"
    by blast
  then have "\<exists>s'. frame events s = Inr s' \<and> sched_inv s'" by simp
  then obtain s' where fr: "frame events s = Inr s'" and inv: "sched_inv s'" by blast
  show ?case
  proof (cases "QUIT \<in> set events")
    case True
    with frame_preserves(5) [OF fr] have "\<not> running s'" by simp
    with Cons.prems(2) fr True show ?thesis by (simp add: main_loop_stopped)
  next
    case False
    with frame_preserves(5) [OF fr] Cons.prems(2) have "running s'" by simp
    from Cons.IH [OF inv this] Cons.prems(2) fr False show ?thesis by simp
  qed
qed

lemma float_sub_tick_ge:
  assumes "1 \<le> r"
  shows "1 / 2 \<le> float_sub r tick_delta"
proof -
  have h: "is_b64 (1 / 2)" using is_b64_half [of 1] by simp
  from assms have "1 / 2 \<le> r - tick_delta" by (simp add: tick_delta_value)
  then show ?thesis unfolding float_sub_def using h by (rule b64_ge_float)
qed

text \<open>
  C11. The loop ends exactly when a quit event arrives: run on the events of finitely
  many frames from a running state that satisfies the invariant, \<^verbatim>\<open>main\<close>'s loop has
  not returned iff none of these frames contains \<^verbatim>\<open>QUIT\<close>, and it never ends with
  an exception.
\<close>

theorem main_loop_returns_iff_quit:
  assumes "sched_inv s" and "running s"
  shows "(main_loop eventss s = None \<longleftrightarrow> (\<forall>events \<in> set eventss. QUIT \<notin> set events))
    \<and> (\<forall>e. main_loop eventss s \<noteq> Some (Inl e))"
proof -
  from run_inv [OF assms(1), of eventss] have "\<forall>e. main_loop eventss s \<noteq> Some (Inl e)"
    by (auto simp: main_loop_run split: if_splits)
  with main_loop_quit_iff [OF assms] show ?thesis by simp
qed

theorem main_loop_returns_iff_quit_witness:
  "sched_inv scenario_state \<and> running scenario_state
   \<and> main_loop [[OTHER], [QUIT], []] scenario_state \<noteq> None
   \<and> main_loop [[OTHER], []] scenario_state = None"
  using main_loop_returns_iff_quit [of scenario_state "[[OTHER], [QUIT], []]"]
    main_loop_returns_iff_quit [of scenario_state "[[OTHER], []]"]
  by simp

text \<open>
  The frame in which the quit event arrives is still executed in full: the timer
  is advanced and the frame is counted before the loop ends, and the events of later
  frames are never read.
\<close>

theorem quit_frame_completes:
  assumes "sched_inv s" and "running s" and "QUIT \<in> set events"
  shows "\<exists>s'. frame events s = Inr s' \<and> main_loop (events # rest) s = Some (Inr s')
    \<and> \<not> running s' \<and> frame_count s' = frame_count s + 1
    \<and> (timer_remaining s' = float_sub (timer_remaining s) tick_delta
        \<or> active_lane s' = (active_lane s + 1) mod 4)"
proof -
  from frame_Inr [OF assms(1), of events] obtain s1
    where s1: "advance_timer (handle_events events s) = Inr s1"
      and fr: "frame events s = Inr (s1\<lparr>frame_count := frame_count s1 + 1\<rparr>)" by blast
  let ?s' = "s1\<lparr>frame_count := frame_count s1 + 1\<rparr>"
  from frame_preserves(4,5) [OF fr] assms(3)
  have stop: "\<not> running ?s'" and fc: "frame_count ?s' = frame_count s + 1" by simp_all
  from s1 have "timer_remaining s1 = float_sub (timer_remaining s) tick_delta
      \<or> active_lane s1 = (active_lane s + 1) mod 4"
    by (auto simp: advance_timer_def Let_def split: if_splits)
  with fr stop fc assms(2) show ?thesis by (simp add: main_loop_stopped)
qed

theorem quit_frame_completes_witness:
  "sched_inv scenario_state \<and> running scenario_state \<and> QUIT \<in> set [QUIT]
   \<and> (\<exists>s'. main_loop [[QUIT], [OTHER]] scenario_state = Some (Inr s')
        \<and> \<not> running s' \<and> frame_count s' = 1)"
proof -
  have "\<exists>s'. frame [QUIT] scenario_state = Inr s'
      \<and> main_loop ([QUIT] # [[OTHER]]) scenario_state = Some (Inr s')
      \<and> \<not> running s' \<and> frame_count s' = frame_count scenario_state + 1
      \<and> (timer_remaining s' = float_sub (timer_remaining scenario_state) tick_delta
          \<or> active_lane s' = (active_lane scenario_state + 1) mod 4)"
    by (rule quit_frame_completes) simp_all
  then show ?thesis by (auto simp del: main_loop.simps)
qed

text \<open>
  C37. A vector of one, two or three counts passes the start of \<^verbatim>\<open>main\<close> and makes
  the first frame fail with \<^verbatim>\<open>IndexError\<close> in \<^verbatim>\<open>draw_signals\<close>: the program does
  not check the length of its input.
\<close>

theorem short_counts_raise:
  assumes "counts \<noteq> []" and "length counts < 4"
  shows "\<exists>s. startup counts = Inr s \<and> frame events s = Inl (Raised IndexError)"
proof -
  from assms(2) have nz: "counts \<noteq> [0, 0, 0, 0]" by auto
  let ?s = "\<lparr>running = True, cycles_completed = 0, total_vehicles = sum_list counts,
      frame_count = 0, car_counts = counts, timers = calculate_timers counts,
      active_lane = 0, timer_remaining = timer_for (hd counts)\<rparr>"
  from assms(1) nz have st: "startup counts = Inr ?s" by (simp add: startup_cases)
  have "1 \<le> timer_for (hd counts)" using timer_for_range(1) [of "hd counts"] by simp
  from float_sub_tick_ge [OF this] have "0 < float_sub (timer_remaining ?s) tick_delta" by simp
  then have "0 < float_sub (timer_remaining (handle_events events ?s)) tick_delta" by simp
  from advance_timer_continue [OF this] assms(2)
  have "frame events ?s = Inl (Raised IndexError)"
    by (simp add: frame_def draw_signals_def signals_table_def)
  with st show ?thesis by blast
qed

theorem short_counts_raise_witness:
  "[7, 7, 7] \<noteq> ([] :: int list) \<and> length [7, 7, 7 :: int] < 4
   \<and> (\<exists>s. startup [7, 7, 7] = Inr s \<and> frame [] s = Inl (Raised IndexError))"
  using short_counts_raise [of "[7, 7, 7]" "[]"] by simp

section \<open>Phases of a run\<close>

lemma replicate_add_append: "replicate (m + n) x = replicate m x @ replicate n x"
  by (simp add: replicate_add)

lemma run_two_phases:
  assumes "run (replicate m []) s = Inr s1" and "run (replicate n []) s1 = Inr s2"
  shows "run (replicate (m + n) []) s = Inr s2"
  using assms by (simp add: replicate_add_append run_append)

text \<open>
  C9. A phase ends by a clean change of direction. If the timer of a running state
  is used up after \<open>n\<close> frames, then during the first \<open>n - 1\<close> frames only the timer
  and the frame counter change, and the \<open>n\<close>-th frame moves to the next direction
  with that direction's full green time; what the timer had gone below zero is
  discarded. The direction after 3 is 0, and reaching it completes a cycle.
\<close>

theorem phase_boundary:
  assumes "countdown fuel (timer_remaining s) = Some n" and "sched_inv s" and "running s"
  shows "run (replicate n []) s = Inr ((switch_lane s)\<lparr>frame_count := frame_count s + n\<rparr>)
    \<and> (\<forall>k<n. \<exists>r. run (replicate k []) s =
          Inr (s\<lparr>timer_remaining := r, frame_count := frame_count s + k\<rparr>))"
  using run_phase [OF assms] run_before_switch [OF assms] by blast

theorem phase_boundary_witness:
  "countdown 200 (timer_remaining (scenario_state\<lparr>active_lane := 3, timer_remaining := 5\<rparr>))
     = Some 151
   \<and> run (replicate 151 []) (scenario_state\<lparr>active_lane := 3, timer_remaining := 5\<rparr>) =
       Inr (scenario_state\<lparr>cycles_completed := 1, frame_count := 151\<rparr>)
   \<and> (\<exists>r. run (replicate 150 []) (scenario_state\<lparr>active_lane := 3, timer_remaining := 5\<rparr>)
         = Inr (scenario_state\<lparr>active_lane := 3, timer_remaining := r, frame_count := 150\<rparr>))"
proof -
  let ?s = "scenario_state\<lparr>active_lane := 3, timer_remaining := 5\<rparr>"
  have cd: "countdown 200 (timer_remaining ?s) = Some 151" by simp
  have inv: "sched_inv ?s"
    by (simp add: sched_inv_def scenario_state_def calculate_timers_map)
  have r: "running ?s" by simp
  have sw: "(switch_lane ?s)\<lparr>frame_count := frame_count ?s + 151\<rparr> =
      scenario_state\<lparr>cycles_completed := 1, frame_count := 151\<rparr>"
    by (simp add: switch_lane_def scenario_state_def)
  from phase_boundary [OF cd inv r]
  have run: "run (replicate 151 []) ?s = Inr (scenario_state\<lparr>cycles_completed := 1, frame_count := 151\<rparr>)"
    and before: "\<forall>k<151. \<exists>r. run (replicate k []) ?s =
      Inr (?s\<lparr>timer_remaining := r, frame_count := frame_count ?s + k\<rparr>)"
    unfolding sw by blast+
  from before have "\<exists>r. run (replicate 150 []) ?s =
      Inr (?s\<lparr>timer_remaining := r, frame_count := frame_count ?s + 150\<rparr>)"
    by (rule allE [of _ 150]) simp
  with cd run show ?thesis by (simp add: scenario_state_def)
qed

lemma phase_start_fields [simp]:
  "running (phase_start cs l c f)" "cycles_completed (phase_start cs l c f) = c"
  "total_vehicles (phase_start cs l c f) = sum_list cs" "frame_count (phase_start cs l c f) = f"
  "car_counts (phase_start cs l c f) = cs" "timers (phase_start cs l c f) = calculate_timers cs"
  "active_lane (phase_start cs l c f) = l"
  "timer_remaining (phase_start cs l c f) = timer_for (cs ! l)"
  by (simp_all add: phase_start_def)

lemma sched_inv_phase_start [simp]:
  "length cs = 4 \<Longrightarrow> l < 4 \<Longrightarrow> sched_inv (phase_start cs l c f)"
  by (simp add: sched_inv_def timer_value_pos timer_value_is_b64)

lemma switch_lane_phase_start:
  assumes "length cs = 4" and "l < 4"
  shows "(switch_lane (phase_start cs l c f))\<lparr>frame_count := f + n\<rparr> =
    phase_start cs ((l + 1) mod 4) (if l = 3 then c + 1 else c) (f + n)"
  using assms(2)
  by (rule nth_lt_4_cases) (simp_all add: switch_lane_def phase_start_def assms(1))

lemma startup_phase_start:
  assumes "length cs = 4" and "cs \<noteq> [0, 0, 0, 0]"
  shows "startup cs = Inr (phase_start cs 0 0 0)"
proof -
  from assms(1) have ne: "cs \<noteq> []" by auto
  with assms(2) hd_conv_nth [OF ne] show ?thesis by (simp add: startup_cases phase_start_def)
qed

lemma scenario_state_phase_start: "scenario_state = phase_start [10, 2, 10, 2] 0 0 0"
  by (simp add: scenario_state_def phase_start_def calculate_timers_map)

lemma run_phase_start:
  assumes "countdown fuel (timer_for (cs ! l)) = Some n" and "length cs = 4" and "l < 4"
  shows "run (replicate n []) (phase_start cs l c f) =
    Inr (phase_start cs ((l + 1) mod 4) (if l = 3 then c + 1 else c) (f + n))"
  using run_phase [of fuel "phase_start cs l c f" n] assms
  by (simp add: switch_lane_phase_start)

lemma run_cycle:
  assumes "countdown fuel (timer_for (cs ! 0)) = Some n0"
    and "countdown fuel (timer_for (cs ! 1)) = Some n1"
    and "countdown fuel (timer_for (cs ! 2)) = Some n2"
    and "countdown fuel (timer_for (cs ! 3)) = Some n3"
    and "length cs = 4"
  shows "run (replicate (n0 + n1 + n2 + n3) []) (phase_start cs 0 c f) =
    Inr (phase_start cs 0 (c + 1) (f + (n0 + n1 + n2 + n3)))"
proof -
  note len = assms(5)
  have 1: "run (replicate n0 []) (phase_start cs 0 c f) = Inr (phase_start cs 1 c (f + n0))"
    using run_phase_start [OF assms(1) len, of c f] by simp
  have 2: "run (replicate n1 []) (phase_start cs 1 c (f + n0)) =
      Inr (phase_start cs 2 c (f + n0 + n1))"
    using run_phase_start [OF assms(2) len, of c "f + n0"]
    by (simp add: numeral_2_eq_2 [symmetric])
  have 3: "run (replicate n2 []) (phase_start cs 2 c (f + n0 + n1)) =
      Inr (phase_start cs 3 c (f + n0 + n1 + n2))"
    using run_phase_start [OF assms(3) len, of c "f + n0 + n1"]
    by (simp add: numeral_3_eq_3 [symmetric])
  have 4: "run (replicate n3 []) (phase_start cs 3 c (f + n0 + n1 + n2)) =
      Inr (phase_start cs 0 (c + 1) (f + n0 + n1 + n2 + n3))"
    using run_phase_start [OF assms(4) len, of c "f + n0 + n1 + n2"] by simp
  from run_two_phases [OF run_two_phases [OF run_two_phases [OF 1 2] 3] 4]
  show ?thesis by (simp add: add.assoc)
qed

lemma scenario_run_1053:
  "run (replicate 1053 []) scenario_state = Inr (phase_start [10, 2, 10, 2] 3 0 1053)"
proof -
  let ?cs = "[10, 2, 10, 2] :: int list"
  have 1: "run (replicate 451 []) (phase_start ?cs 0 0 0) = Inr (phase_start ?cs 1 0 451)"
    using run_phase_start [of 500 ?cs 0 451 0 0] by simp
  have 2: "run (replicate 151 []) (phase_start ?cs 1 0 451) = Inr (phase_start ?cs 2 0 602)"
    using run_phase_start [of 200 ?cs 1 151 0 451] by simp
  have 3: "run (replicate 451 []) (phase_start ?cs 2 0 602) = Inr (phase_start ?cs 3 0 1053)"
    using run_phase_start [of 500 ?cs 2 451 0 602] by simp
  from run_two_phases [OF run_two_phases [OF 1 2] 3] show ?thesis
    by (simp add: scenario_state_phase_start)
qed

text \<open>
  The first green phase of the worked example lasts 451 frames, not the 450 that
  15 seconds at 30 frames per second suggest: after 450 frames the direction is still
  0, and the 451st frame moves to direction 1 with its 5 seconds.
\<close>

theorem first_phase_451_frames:
  "(\<exists>r. run (replicate 450 []) scenario_state =
      Inr (scenario_state\<lparr>timer_remaining := r, frame_count := 450\<rparr>))
   \<and> run (replicate 451 []) scenario_state =
      Inr (scenario_state\<lparr>active_lane := 1, timer_remaining := 5, frame_count := 451\<rparr>)"
proof -
  have "run (replicate 451 []) scenario_state = Inr (phase_start [10, 2, 10, 2] 1 0 451)"
    using run_phase_start [of 500 "[10, 2, 10, 2]" 0 451 0 0]
    by (simp add: scenario_state_phase_start)
  moreover have "phase_start [10, 2, 10, 2] 1 0 451 =
      scenario_state\<lparr>active_lane := 1, timer_remaining := 5, frame_count := 451\<rparr>"
    by (simp add: scenario_state_def phase_start_def calculate_timers_map)
  ultimately show ?thesis
    using run_before_switch [of 500 scenario_state 451 450] by simp
qed

text \<open>
  The worked example completes its first cycle in frame 1204: after 1204 frames
  the state is the start state with one completed cycle. (The four phases last
  451, 151, 451 and 151 frames.)
\<close>

theorem full_cycle_1204_frames:
  "run (replicate 1204 []) scenario_state =
     Inr (scenario_state\<lparr>cycles_completed := 1, frame_count := 1204\<rparr>)"
proof -
  have "run (replicate (451 + 151 + 451 + 151) []) (phase_start [10, 2, 10, 2] 0 0 0) =
      Inr (phase_start [10, 2, 10, 2] 0 (0 + 1) (0 + (451 + 151 + 451 + 151)))"
    by (rule run_cycle [where fuel = 500])
      (simp_all add: countdown_mono [OF countdown_5])
  then show ?thesis
    by (simp add: scenario_state_def phase_start_def calculate_timers_map)
qed

text \<open>
  After the 1200 frames that make up 40 seconds at 30 frames per second, the
  worked example is still in direction 3 and has completed no cycle.
\<close>

theorem after_1200_frames:
  "\<exists>r. run (replicate 1200 []) scenario_state =
     Inr (scenario_state\<lparr>active_lane := 3, timer_remaining := r, frame_count := 1200\<rparr>)"
proof -
  let ?s3 = "phase_start [10, 2, 10, 2] 3 0 1053"
  from run_before_switch [of 200 ?s3 151 147]
  obtain r where "run (replicate 147 []) ?s3 = Inr (?s3\<lparr>timer_remaining := r,
      frame_count := frame_count ?s3 + 147\<rparr>)"
    by auto
  from run_two_phases [OF scenario_run_1053 this] show ?thesis
    by (auto simp: scenario_state_def phase_start_def calculate_timers_map)
qed

end
