(* ===== verification/Liveness.thy ===== *)
theory Liveness
  imports Scheduler
begin

text \<open>
  Progress of the scheduler of \<^verbatim>\<open>main\<close> (lines 241-262 of
  \<^verbatim>\<open>src/advanced_traffic_management.py\<close>): every green phase ends, how many frames
  it lasts, and that every direction is served again and again.

  The countdown of a phase is monotone in the time it starts from, so the phase of the
  longest green time, 20 seconds, bounds all others: it lasts 600 frames, and 600 is
  the fuel that is enough for every \<open>countdown\<close> of the program. \<open>phase_frames\<close>
  tabulates the length of the phase for each vehicle count; its twelve entries are
  the countdowns of the twelve green times that \<open>timer_for\<close> can return.
\<close>

section \<open>Definitions\<close>

definition phase_frames :: "vehicle_count \<Rightarrow> nat" where
  "phase_frames count =
     (if count \<le> 3 then 151 else if 14 \<le> count then 600
      else [181, 226, 271, 316, 361, 406, 451, 496, 540, 585] ! nat (count - 4))"

definition cycle_frames :: "vehicle_count list \<Rightarrow> nat" where
  "cycle_frames counts = phase_frames (counts ! 0) + phase_frames (counts ! 1)
     + phase_frames (counts ! 2) + phase_frames (counts ! 3)"

section \<open>The countdown is monotone\<close>

lemma float_sub_tick_mono: "r \<le> r' \<Longrightarrow> float_sub r tick_delta \<le> float_sub r' tick_delta"
  by (simp add: float_sub_def b64_mono)

lemma countdown_bounds:
  assumes "countdown fuel r = Some n"
  shows "0 < n" and "n \<le> fuel"
  using assms
  by (induction fuel arbitrary: r n) (auto simp: Let_def split: if_splits)

lemma countdown_le:
  assumes "r \<le> r'" and "countdown fuel r' = Some n'"
  shows "\<exists>n. countdown fuel r = Some n \<and> n \<le> n'"
  using assms
proof (induction fuel arbitrary: r r' n')
  case 0
  then show ?case by simp
next
  case (Suc fuel)
  let ?a = "float_sub r tick_delta" and ?a' = "float_sub r' tick_delta"
  from Suc.prems(1) have le: "?a \<le> ?a'" by (rule float_sub_tick_mono)
  show ?case
  proof (cases "?a \<le> 0")
    case True
    with countdown_bounds(1) [OF Suc.prems(2)] show ?thesis by simp
  next
    case False
    with le have pos: "\<not> ?a' \<le> 0" by simp
    with Suc.prems(2) obtain m' where m': "countdown fuel ?a' = Some m'" and n': "n' = Suc m'"
      by (auto simp: Let_def)
    from Suc.IH [OF le m'] obtain m where "countdown fuel ?a = Some m" and "m \<le> m'" by blast
    with False n' show ?thesis by simp
  qed
qed

lemma countdown_unique:
  assumes "countdown fuel r = Some n" and "countdown fuel' r = Some n'"
  shows "n = n'"
  using countdown_mono [OF assms(1), of "max fuel fuel'"]
    countdown_mono [OF assms(2), of "max fuel fuel'"] by simp

section \<open>The table of phase lengths\<close>

lemma fx_half: "fx (d * 2 ^ 56) = of_int d / 2"
  by (simp add: fx_def)

lemma countdown_fx_half:
  assumes "countdown_fx fuel (d * 2 ^ 56) 0 = Some n"
  shows "countdown fuel (of_int d / 2) = Some n"
proof -
  from assms have "map_option (\<lambda>k. k + 0) (countdown fuel (fx (d * 2 ^ 56))) = Some n"
    by (simp only: countdown_fx)
  then show ?thesis by (simp only: fx_half add_0_right option.map_ident)
qed

lemma countdown_fx_10: "countdown_fx 600 (10 * 2 ^ 56) 0 = Some 151" by code_simp
lemma countdown_fx_12: "countdown_fx 600 (12 * 2 ^ 56) 0 = Some 181" by code_simp
lemma countdown_fx_15: "countdown_fx 600 (15 * 2 ^ 56) 0 = Some 226" by code_simp
lemma countdown_fx_18: "countdown_fx 600 (18 * 2 ^ 56) 0 = Some 271" by code_simp
lemma countdown_fx_21: "countdown_fx 600 (21 * 2 ^ 56) 0 = Some 316" by code_simp
lemma countdown_fx_24: "countdown_fx 600 (24 * 2 ^ 56) 0 = Some 361" by code_simp
lemma countdown_fx_27: "countdown_fx 600 (27 * 2 ^ 56) 0 = Some 406" by code_simp
lemma countdown_fx_30: "countdown_fx 600 (30 * 2 ^ 56) 0 = Some 451" by code_simp
lemma countdown_fx_33: "countdown_fx 600 (33 * 2 ^ 56) 0 = Some 496" by code_simp
lemma countdown_fx_36: "countdown_fx 600 (36 * 2 ^ 56) 0 = Some 540" by code_simp
lemma countdown_fx_39: "countdown_fx 600 (39 * 2 ^ 56) 0 = Some 585" by code_simp
lemma countdown_fx_40: "countdown_fx 600 (40 * 2 ^ 56) 0 = Some 600" by code_simp

lemmas countdown_table =
  countdown_fx_10 [THEN countdown_fx_half] countdown_fx_12 [THEN countdown_fx_half]
  countdown_fx_15 [THEN countdown_fx_half] countdown_fx_18 [THEN countdown_fx_half]
  countdown_fx_21 [THEN countdown_fx_half] countdown_fx_24 [THEN countdown_fx_half]
  countdown_fx_27 [THEN countdown_fx_half] countdown_fx_30 [THEN countdown_fx_half]
  countdown_fx_33 [THEN countdown_fx_half] countdown_fx_36 [THEN countdown_fx_half]
  countdown_fx_39 [THEN countdown_fx_half] countdown_fx_40 [THEN countdown_fx_half]

lemma count_cases:
  fixes count :: int
  assumes "3 < count" and "count < 14"
  obtains "count = 4" | "count = 5" | "count = 6" | "count = 7" | "count = 8" | "count = 9"
    | "count = 10" | "count = 11" | "count = 12" | "count = 13"
proof -
  from assms have "count = 4 \<or> count = 5 \<or> count = 6 \<or> count = 7 \<or> count = 8 \<or> count = 9
    \<or> count = 10 \<or> count = 11 \<or> count = 12 \<or> count = 13" by arith
  then show thesis using that by blast
qed

lemma countdown_timer_for: "countdown 600 (timer_for count) = Some (phase_frames count)"
proof -
  consider "count \<le> 3" | "14 \<le> count" | "3 < count" "count < 14" by linarith
  then show ?thesis
  proof cases
    case 1
    with countdown_table(1) show ?thesis by (simp add: timer_for_cases phase_frames_def)
  next
    case 2
    with countdown_table(12) show ?thesis by (simp add: timer_for_cases phase_frames_def)
  next
    case 3
    then show ?thesis
      by (rule count_cases) (use countdown_table in \<open>simp_all add: timer_for_cases phase_frames_def\<close>)
  qed
qed

lemma phase_frames_range: "151 \<le> phase_frames count" "phase_frames count \<le> 600"
proof -
  consider "count \<le> 3" | "14 \<le> count" | "3 < count" "count < 14" by linarith
  then have "151 \<le> phase_frames count \<and> phase_frames count \<le> 600"
  proof cases
    case 3
    then show ?thesis by (rule count_cases) (simp_all add: phase_frames_def)
  qed (simp_all add: phase_frames_def)
  then show "151 \<le> phase_frames count" "phase_frames count \<le> 600" by simp_all
qed

section \<open>Every phase ends\<close>

lemma countdown_within_600:
  assumes "r \<le> 20"
  shows "\<exists>n. countdown 600 r = Some n \<and> 0 < n \<and> n \<le> 600"
proof -
  have "countdown 600 (of_int 40 / 2) = Some 600" by (rule countdown_table(12))
  then have "countdown 600 20 = Some 600" by simp
  from countdown_le [OF assms this] obtain n where "countdown 600 r = Some n" by blast
  with countdown_bounds [OF this] show ?thesis by simp
qed

lemma countdown_at_least_151:
  assumes "5 \<le> r" and "countdown fuel r = Some n"
  shows "151 \<le> n"
proof -
  from countdown_le [OF assms] obtain m where m: "countdown fuel 5 = Some m" and "m \<le> n"
    by blast
  from countdown_unique [OF m countdown_5] have "m = 151" .
  with \<open>m \<le> n\<close> show ?thesis by simp
qed

lemma sched_inv_timer_le_20:
  assumes "sched_inv s"
  shows "timer_remaining s \<le> 20"
proof -
  note d = sched_invD [OF assms]
  from sched_inv_lane(1) [OF assms d(4)] have "timers s ! active_lane s \<le> 20"
    by (simp add: timer_value_def)
  with d(6) show ?thesis by simp
qed

lemma phase_ends:
  assumes "sched_inv s" and "running s"
  shows "\<exists>n. 0 < n \<and> n \<le> 600 \<and> countdown 600 (timer_remaining s) = Some n
    \<and> run (replicate n []) s = Inr ((switch_lane s)\<lparr>frame_count := frame_count s + n\<rparr>)"
proof -
  from countdown_within_600 [OF sched_inv_timer_le_20 [OF assms(1)]] obtain n
    where n: "countdown 600 (timer_remaining s) = Some n" "0 < n" "n \<le> 600" by blast
  from run_phase [OF n(1) assms] n show ?thesis by blast
qed

section \<open>Several phases\<close>

lemma switch_lane_funpow_fields [simp]:
  "running ((switch_lane ^^ k) s) = running s"
  "timers ((switch_lane ^^ k) s) = timers s"
  "car_counts ((switch_lane ^^ k) s) = car_counts s"
  "total_vehicles ((switch_lane ^^ k) s) = total_vehicles s"
  "frame_count ((switch_lane ^^ k) s) = frame_count s"
  by (induction k) simp_all

lemma switch_lane_funpow_frame_count [simp]:
  "(switch_lane ^^ k) (s\<lparr>frame_count := n\<rparr>) = ((switch_lane ^^ k) s)\<lparr>frame_count := n\<rparr>"
  by (induction k) simp_all

lemma switch_lane_funpow_lane:
  "active_lane s < 4 \<Longrightarrow> active_lane ((switch_lane ^^ k) s) = (active_lane s + k) mod 4"
  by (induction k) (simp_all add: mod_Suc_eq)

lemma switch_lane_funpow_timer:
  "timer_remaining ((switch_lane ^^ Suc k) s) = timers s ! active_lane ((switch_lane ^^ Suc k) s)"
  by simp

lemma phase_index_switch_lane:
  assumes "active_lane s < 4"
  shows "phase_index (switch_lane s) = phase_index s + 1"
  using assms by (rule nth_lt_4_cases) (simp_all add: phase_index_def)

lemma switch_lane_funpow_phase_index:
  "active_lane s < 4 \<Longrightarrow> phase_index ((switch_lane ^^ k) s) = phase_index s + k"
proof (induction k)
  case (Suc k)
  then have "active_lane ((switch_lane ^^ k) s) < 4" by (simp add: switch_lane_funpow_lane)
  from phase_index_switch_lane [OF this] Suc show ?case by simp
qed simp

lemma run_phases:
  assumes "sched_inv s" and "running s"
  shows "\<exists>n. k \<le> n \<and> n \<le> 600 * k
    \<and> run (replicate n []) s = Inr (((switch_lane ^^ k) s)\<lparr>frame_count := frame_count s + n\<rparr>)"
proof (induction k)
  case 0
  show ?case by simp
next
  case (Suc k)
  then obtain n where n: "k \<le> n" "n \<le> 600 * k"
    and r: "run (replicate n []) s =
      Inr (((switch_lane ^^ k) s)\<lparr>frame_count := frame_count s + n\<rparr>)" by blast
  let ?s1 = "((switch_lane ^^ k) s)\<lparr>frame_count := frame_count s + n\<rparr>"
  from run_inv [OF assms(1), of "replicate n []"] r have inv: "sched_inv ?s1" by simp
  from assms(2) have "running ?s1" by simp
  from phase_ends [OF inv this] obtain m where m: "0 < m" "m \<le> 600"
    and r1: "run (replicate m []) ?s1 = Inr ((switch_lane ?s1)\<lparr>frame_count := frame_count ?s1 + m\<rparr>)"
    by blast
  from run_two_phases [OF r r1]
  have "run (replicate (n + m) []) s =
      Inr (((switch_lane ^^ Suc k) s)\<lparr>frame_count := frame_count s + (n + m)\<rparr>)"
    by (simp add: add.assoc)
  moreover from n m have "Suc k \<le> n + m" "n + m \<le> 600 * Suc k" by simp_all
  ultimately show ?case by blast
qed

lemma lane_reached:
  assumes "a < 4" and "l < (4::nat)"
  shows "\<exists>k. 0 < k \<and> k \<le> 4 \<and> (a + k) mod 4 = l"
proof -
  let ?k = "if a < l then l - a else l + 4 - a"
  from assms have "0 < ?k \<and> ?k \<le> 4 \<and> (a + ?k) mod 4 = l" by auto
  then show ?thesis by blast
qed

section \<open>Progress\<close>

text \<open>
  C8. Every green phase ends. From every running state that satisfies the invariant,
  frames without a quit event change the direction after at most 600 frames (20
  seconds at 30 frames per second); until then only the timer and the frame counter
  change.
\<close>

theorem phase_terminates:
  assumes "sched_inv s" and "running s"
  shows "\<exists>n. 0 < n \<and> n \<le> 600
    \<and> run (replicate n []) s = Inr ((switch_lane s)\<lparr>frame_count := frame_count s + n\<rparr>)
    \<and> (\<forall>k<n. \<exists>r. run (replicate k []) s =
          Inr (s\<lparr>timer_remaining := r, frame_count := frame_count s + k\<rparr>))"
proof -
  from phase_ends [OF assms] obtain n where n: "0 < n" "n \<le> 600"
    and cd: "countdown 600 (timer_remaining s) = Some n"
    and r: "run (replicate n []) s = Inr ((switch_lane s)\<lparr>frame_count := frame_count s + n\<rparr>)"
    by blast
  from run_before_switch [OF cd assms] n r show ?thesis by blast
qed

theorem phase_terminates_witness:
  "sched_inv scenario_state \<and> running scenario_state
   \<and> (\<exists>n. 0 < n \<and> n \<le> 600 \<and> run (replicate n []) scenario_state =
        Inr (scenario_state\<lparr>active_lane := 1, timer_remaining := 5, frame_count := n\<rparr>))"
proof -
  have "(switch_lane scenario_state)\<lparr>frame_count := frame_count scenario_state + n\<rparr> =
      scenario_state\<lparr>active_lane := 1, timer_remaining := 5, frame_count := n\<rparr>" for n
    by (simp add: switch_lane_def scenario_state_def)
  with phase_terminates [of scenario_state] show ?thesis by auto
qed

text \<open>
  C6. No direction starves. From every running state that satisfies the invariant
  and for every direction \<open>l\<close>, frames without a quit event reach, within 2400 frames
  (80 seconds), a state in which \<open>l\<close> is the active direction and starts with its full
  green time.
\<close>

theorem every_direction_served:
  assumes "sched_inv s" and "running s" and "l < 4"
  shows "\<exists>n s'. 0 < n \<and> n \<le> 2400 \<and> run (replicate n []) s = Inr s'
    \<and> active_lane s' = l \<and> timer_remaining s' = timers s ! l"
proof -
  note lane = sched_invD(4) [OF assms(1)]
  from lane_reached [OF lane assms(3)] obtain k
    where k: "0 < k" "k \<le> 4" "(active_lane s + k) mod 4 = l" by blast
  from run_phases [OF assms(1,2), of k] obtain n where n: "k \<le> n" "n \<le> 600 * k"
    and r: "run (replicate n []) s =
      Inr (((switch_lane ^^ k) s)\<lparr>frame_count := frame_count s + n\<rparr>)" by blast
  let ?s' = "((switch_lane ^^ k) s)\<lparr>frame_count := frame_count s + n\<rparr>"
  from k(1) obtain k' where k': "k = Suc k'" by (cases k) simp_all
  have "active_lane ((switch_lane ^^ k) s) = l"
    using switch_lane_funpow_lane [OF lane, of k] k(3) by simp
  moreover from this have "timer_remaining ((switch_lane ^^ k) s) = timers s ! l"
    using switch_lane_funpow_timer [of k' s] by (simp add: k')
  moreover from k n have "0 < n" "n \<le> 2400" by simp_all
  ultimately have "0 < n \<and> n \<le> 2400 \<and> run (replicate n []) s = Inr ?s'
      \<and> active_lane ?s' = l \<and> timer_remaining ?s' = timers s ! l"
    using r by simp
  then show ?thesis by blast
qed

theorem every_direction_served_witness:
  "sched_inv scenario_state \<and> running scenario_state \<and> (2::nat) < 4
   \<and> (\<exists>n s'. 0 < n \<and> n \<le> 2400 \<and> run (replicate n []) scenario_state = Inr s'
        \<and> active_lane s' = 2 \<and> timer_remaining s' = 15)"
  using every_direction_served [of scenario_state 2] by simp

text \<open>
  C21. Cycles keep completing. From every running state that satisfies the invariant,
  frames without a quit event reach within 2400 frames a state with the same active
  direction and one more completed cycle.
\<close>

theorem cycle_completes:
  assumes "sched_inv s" and "running s"
  shows "\<exists>n s'. 4 \<le> n \<and> n \<le> 2400 \<and> run (replicate n []) s = Inr s'
    \<and> cycles_completed s' = cycles_completed s + 1 \<and> active_lane s' = active_lane s"
proof -
  note lane = sched_invD(4) [OF assms(1)]
  from run_phases [OF assms, of 4] obtain n where n: "4 \<le> n" "n \<le> 2400"
    and r: "run (replicate n []) s =
      Inr (((switch_lane ^^ 4) s)\<lparr>frame_count := frame_count s + n\<rparr>)" by auto
  let ?s' = "(switch_lane ^^ 4) s"
  let ?t = "?s'\<lparr>frame_count := frame_count s + n\<rparr>"
  from lane have a: "active_lane ?s' = active_lane s" by (simp add: switch_lane_funpow_lane)
  from switch_lane_funpow_phase_index [OF lane, of 4] a
  have "cycles_completed ?s' = cycles_completed s + 1" by (simp add: phase_index_def)
  with a n r have "4 \<le> n \<and> n \<le> 2400 \<and> run (replicate n []) s = Inr ?t
      \<and> cycles_completed ?t = cycles_completed s + 1 \<and> active_lane ?t = active_lane s"
    by simp
  then show ?thesis by blast
qed

theorem cycle_completes_witness:
  "sched_inv scenario_state \<and> running scenario_state
   \<and> (\<exists>n s'. 4 \<le> n \<and> n \<le> 2400 \<and> run (replicate n []) scenario_state = Inr s'
        \<and> cycles_completed s' = 1 \<and> active_lane s' = 0)"
  using cycle_completes [of scenario_state] by simp

section \<open>The length of a green phase\<close>

text \<open>
  A full green phase lasts exactly the number of frames of the table: from a
  state in which the active direction has its full green time, \<open>phase_frames\<close> of its
  vehicle count many frames change the direction, and this number lies between 151
  and 600.
\<close>

theorem green_phase_frames:
  assumes "sched_inv s" and "running s" and "timer_remaining s = timers s ! active_lane s"
  shows "run (replicate (phase_frames (car_counts s ! active_lane s)) []) s =
      Inr ((switch_lane s)\<lparr>frame_count :=
        frame_count s + phase_frames (car_counts s ! active_lane s)\<rparr>)
    \<and> 151 \<le> phase_frames (car_counts s ! active_lane s)
    \<and> phase_frames (car_counts s ! active_lane s) \<le> 600"
proof -
  note d = sched_invD [OF assms(1)]
  from d(1,2,4) assms(3) have "timer_remaining s = timer_for (car_counts s ! active_lane s)"
    by simp
  then have "countdown 600 (timer_remaining s) = Some (phase_frames (car_counts s ! active_lane s))"
    by (simp only: countdown_timer_for)
  from run_phase [OF this assms(1,2)] phase_frames_range show ?thesis by simp
qed

theorem green_phase_frames_witness:
  "sched_inv scenario_state \<and> running scenario_state
   \<and> timer_remaining scenario_state = timers scenario_state ! active_lane scenario_state
   \<and> run (replicate 451 []) scenario_state =
       Inr (scenario_state\<lparr>active_lane := 1, timer_remaining := 5, frame_count := 451\<rparr>)"
proof -
  have "phase_frames 10 = 451" by (simp add: phase_frames_def)
  moreover have "(switch_lane scenario_state)\<lparr>frame_count := 451\<rparr> =
      scenario_state\<lparr>active_lane := 1, timer_remaining := 5, frame_count := 451\<rparr>"
    by (simp add: switch_lane_def scenario_state_def)
  ultimately show ?thesis using green_phase_frames [of scenario_state] by simp
qed

text \<open>
  C20. The green time is honoured. At 30 frames per second a full green phase lasts at
  least the green time computed for its direction and at most one frame longer.
\<close>

theorem green_time_honoured:
  "\<exists>n. countdown 600 (timer_for count) = Some n
     \<and> 30 * timer_for count \<le> of_nat n \<and> of_nat n \<le> 30 * timer_for count + 1"
proof -
  consider "count \<le> 3" | "14 \<le> count" | "3 < count" "count < 14" by linarith
  then have "30 * timer_for count \<le> of_nat (phase_frames count)
      \<and> of_nat (phase_frames count) \<le> 30 * timer_for count + 1"
  proof cases
    case 3
    then show ?thesis
      by (rule count_cases) (simp_all add: timer_for_cases phase_frames_def)
  qed (simp_all add: timer_for_cases phase_frames_def)
  with countdown_timer_for [of count] show ?thesis by blast
qed

text \<open>
  C10. The length of a cycle. For four counts that are not all zero the first cycle
  completes after exactly \<open>cycle_frames counts\<close> frames, the sum of the four phase
  lengths, which is between 604 and 2400 frames; the state is then the start state
  with one completed cycle.
\<close>

theorem cycle_length:
  assumes "length counts = 4" and "counts \<noteq> [0, 0, 0, 0]"
  shows "\<exists>s0. startup counts = Inr s0
    \<and> run (replicate (cycle_frames counts) []) s0 =
        Inr (s0\<lparr>cycles_completed := 1, frame_count := cycle_frames counts\<rparr>)
    \<and> 604 \<le> cycle_frames counts \<and> cycle_frames counts \<le> 2400"
proof -
  let ?s0 = "phase_start counts 0 0 0"
  have "run (replicate (phase_frames (counts ! 0) + phase_frames (counts ! 1)
        + phase_frames (counts ! 2) + phase_frames (counts ! 3)) []) ?s0 =
      Inr (phase_start counts 0 (0 + 1) (0 + (phase_frames (counts ! 0)
        + phase_frames (counts ! 1) + phase_frames (counts ! 2) + phase_frames (counts ! 3))))"
    by (rule run_cycle [where fuel = 600]) (simp_all only: countdown_timer_for assms(1))
  then have "run (replicate (cycle_frames counts) []) ?s0 =
      Inr (?s0\<lparr>cycles_completed := 1, frame_count := cycle_frames counts\<rparr>)"
    by (simp add: cycle_frames_def phase_start_def)
  moreover have "604 \<le> cycle_frames counts" "cycle_frames counts \<le> 2400"
    using phase_frames_range [of "counts ! 0"] phase_frames_range [of "counts ! 1"]
      phase_frames_range [of "counts ! 2"] phase_frames_range [of "counts ! 3"]
    by (simp_all add: cycle_frames_def)
  ultimately show ?thesis using startup_phase_start [OF assms] by simp
qed

theorem cycle_length_witness:
  "length [3, 20, 7, 0 :: int] = 4 \<and> [3, 20, 7, 0] \<noteq> [0, 0, 0, 0 :: int]
   \<and> (\<exists>s0. startup [3, 20, 7, 0] = Inr s0
        \<and> run (replicate 1218 []) s0 = Inr (s0\<lparr>cycles_completed := 1, frame_count := 1218\<rparr>))"
proof -
  have "cycle_frames [3, 20, 7, 0] = 1218" by (simp add: cycle_frames_def phase_frames_def)
  with cycle_length [of "[3, 20, 7, 0]"] show ?thesis by simp
qed

end
