(* ===== verification/Detection.thy ===== *)
theory Detection
  imports Traffic_Prelude
begin

text \<open>
  The acquisition of the four vehicle counts (lines 56-111 of
  \<^verbatim>\<open>src/advanced_traffic_management.py\<close>): \<^verbatim>\<open>count_vehicles\<close>, which counts the
  detections of a frame whose class is a vehicle class, and the two ways to obtain four
  frames, \<^verbatim>\<open>capture_from_file_dialog\<close> and \<^verbatim>\<open>capture_one_by_one_images\<close>.

  What the program calls and does not define is a parameter of the model: the detector
  \<open>model\<close> maps a frame (of any type \<open>'img\<close>) to the rows of its result;
  \<open>imread\<close> maps a path to an image or to \<open>None\<close>; the file dialog is the list of
  paths it returns; the webcam and the keyboard are a list of ticks, one per iteration
  of the waiting loop, each with the frame read (\<open>None\<close> when \<^verbatim>\<open>ret\<close> is false) and the
  key that \<^verbatim>\<open>waitKey\<close> returns. The waiting loop may run forever; in the model it
  returns \<open>None\<close> when the ticks end before it does. What the functions
  print is in theory \<open>Console\<close>; the window calls are left out.
\<close>

section \<open>Definitions\<close>

record detection =
  x1 :: rat
  y1 :: rat
  x2 :: rat
  y2 :: rat
  conf :: rat
  cls :: rat

type_synonym 'img detector = "'img \<Rightarrow> detection list"

type_synonym 'img tick = "'img option \<times> int"

definition py_int :: "rat \<Rightarrow> int" where
  "py_int x = (if 0 \<le> x then \<lfloor>x\<rfloor> else \<lceil>x\<rceil>)"

definition vehicle_classes :: "int list" where
  "vehicle_classes = [2, 3, 5, 7]"

definition is_vehicle :: "detection \<Rightarrow> bool" where
  "is_vehicle det \<longleftrightarrow> py_int (cls det) \<in> set vehicle_classes"

definition count_detections :: "detection list \<Rightarrow> vehicle_count" where
  "count_detections detections = sum_list (map (\<lambda>det. 1) (filter is_vehicle detections))"

definition count_vehicles :: "'img detector \<Rightarrow> 'img \<Rightarrow> vehicle_count" where
  "count_vehicles model frame = count_detections (model frame)"

fun capture_files_loop ::
  "'img detector \<Rightarrow> (string \<Rightarrow> 'img option) \<Rightarrow> string list \<Rightarrow> vehicle_count list
    \<Rightarrow> vehicle_count list" where
  "capture_files_loop model imread [] vehicle_counts = vehicle_counts"
| "capture_files_loop model imread (image_path # image_paths) vehicle_counts =
     (case imread image_path of
        None \<Rightarrow> capture_files_loop model imread image_paths (vehicle_counts @ [0])
      | Some img \<Rightarrow>
          capture_files_loop model imread image_paths
            (vehicle_counts @ [count_vehicles model img]))"

definition capture_from_file_dialog ::
  "'img detector \<Rightarrow> (string \<Rightarrow> 'img option) \<Rightarrow> string list \<Rightarrow> vehicle_count list" where
  "capture_from_file_dialog model imread image_paths =
     (if length image_paths \<noteq> 4 then [0, 0, 0, 0]
      else capture_files_loop model imread image_paths [])"

definition key_s :: int where
  "key_s = 115"

definition key_q :: int where
  "key_q = 113"

fun wait_capture ::
  "'img detector \<Rightarrow> 'img tick list \<Rightarrow> (unit + vehicle_count \<times> 'img tick list) option" where
  "wait_capture model [] = None"
| "wait_capture model ((ret, key) # ticks) =
     (case ret of
        None \<Rightarrow> Some (Inl ())
      | Some frame \<Rightarrow>
          if key = key_s then Some (Inr (count_vehicles model frame, ticks))
          else if key = key_q then Some (Inl ())
          else wait_capture model ticks)"

fun capture_directions ::
  "'img detector \<Rightarrow> string list \<Rightarrow> 'img tick list \<Rightarrow> vehicle_count list
    \<Rightarrow> vehicle_count list option" where
  "capture_directions model [] ticks vehicle_counts = Some vehicle_counts"
| "capture_directions model (direction # directions) ticks vehicle_counts =
     (case wait_capture model ticks of
        None \<Rightarrow> None
      | Some (Inl _) \<Rightarrow> Some [0, 0, 0, 0]
      | Some (Inr (count, ticks')) \<Rightarrow>
          capture_directions model directions ticks' (vehicle_counts @ [count]))"

definition directions :: "string list" where
  "directions = [''North'', ''East'', ''South'', ''West'']"

definition capture_one_by_one_images ::
  "'img detector \<Rightarrow> 'img tick list \<Rightarrow> vehicle_count list option" where
  "capture_one_by_one_images model ticks = capture_directions model directions ticks []"

text \<open>
  Reference descriptions, used to state what the loops compute. A tick is
  \<open>decisive\<close> when it ends an iteration of the waiting loop other than by waiting on;
  it \<open>aborts\<close> when it makes the function return the sentinel.
\<close>

definition aborts :: "'img tick \<Rightarrow> bool" where
  "aborts t \<longleftrightarrow> fst t = None \<or> (snd t \<noteq> key_s \<and> snd t = key_q)"

definition decisive :: "'img tick \<Rightarrow> bool" where
  "decisive t \<longleftrightarrow> fst t = None \<or> snd t = key_s \<or> snd t = key_q"

definition tick_count :: "'img detector \<Rightarrow> 'img tick \<Rightarrow> vehicle_count" where
  "tick_count model t = (case fst t of None \<Rightarrow> 0 | Some frame \<Rightarrow> count_vehicles model frame)"

definition file_count :: "'img detector \<Rightarrow> (string \<Rightarrow> 'img option) \<Rightarrow> string \<Rightarrow> vehicle_count"
  where
  "file_count model imread image_path =
     (case imread image_path of None \<Rightarrow> 0 | Some img \<Rightarrow> count_vehicles model img)"

definition webcam_result :: "'img detector \<Rightarrow> 'img tick list \<Rightarrow> vehicle_count list option"
  where
  "webcam_result model ticks =
     (let ds = take 4 (filter decisive ticks) in
      if \<exists>t \<in> set ds. aborts t then Some [0, 0, 0, 0]
      else if length ds = 4 then Some (map (tick_count model) ds)
      else None)"

section \<open>Counting\<close>

lemma py_int_of_int [simp]: "py_int (of_int n) = n"
  by (simp add: py_int_def)

lemma py_int_numeral [simp]: "py_int (numeral n) = numeral n" "py_int 0 = 0" "py_int 1 = 1"
  using py_int_of_int [of "numeral n"] py_int_of_int [of 0] py_int_of_int [of 1] by simp_all

lemma py_int_trunc: "\<bar>of_int (py_int x)\<bar> \<le> \<bar>x\<bar>" "\<bar>x - of_int (py_int x)\<bar> < 1"
  by (simp_all add: py_int_def; linarith)+

lemma is_vehicle_iff: "is_vehicle det \<longleftrightarrow> py_int (cls det) \<in> {2, 3, 5, 7}"
  by (simp add: is_vehicle_def vehicle_classes_def)

lemma count_detections_length:
  "count_detections detections = int (length (filter is_vehicle detections))"
  by (simp add: count_detections_def sum_list_triv)

lemma count_detections_simps [simp]:
  "count_detections [] = 0"
  "count_detections (det # dets) = (if is_vehicle det then 1 else 0) + count_detections dets"
  "count_detections (xs @ ys) = count_detections xs + count_detections ys"
  by (simp_all add: count_detections_def)

lemma count_detections_range:
  "0 \<le> count_detections dets" "count_detections dets \<le> int (length dets)"
  by (simp_all add: count_detections_length)

lemma count_vehicles_nonneg [simp]: "0 \<le> count_vehicles model frame"
  by (simp add: count_vehicles_def count_detections_range)


section \<open>Images from files\<close>

lemma capture_files_loop_map:
  "capture_files_loop model imread image_paths vehicle_counts =
     vehicle_counts @ map (file_count model imread) image_paths"
  by (induction image_paths arbitrary: vehicle_counts)
    (simp_all add: file_count_def split: option.splits)

lemma file_count_nonneg [simp]: "0 \<le> file_count model imread image_path"
  by (simp add: file_count_def split: option.splits)

lemma capture_from_file_dialog_eq:
  "capture_from_file_dialog model imread image_paths =
     (if length image_paths = 4 then map (file_count model imread) image_paths
      else [0, 0, 0, 0])"
  by (simp add: capture_from_file_dialog_def capture_files_loop_map)

text \<open>
  C25. \<^verbatim>\<open>capture_from_file_dialog\<close> always returns four counts, none of them negative:
  the counts of the four images selected, in the order of the selection and with 0
  for an image that cannot be read, or the sentinel \<open>[0, 0, 0, 0]\<close> when the number of
  files selected is not four.
\<close>

theorem capture_from_file_dialog_result:
  "length (capture_from_file_dialog model imread image_paths) = 4
   \<and> list_all (\<lambda>c. 0 \<le> c) (capture_from_file_dialog model imread image_paths)
   \<and> capture_from_file_dialog model imread image_paths =
       (if length image_paths = 4 then map (file_count model imread) image_paths
        else [0, 0, 0, 0])"
  by (simp add: capture_from_file_dialog_eq list_all_iff)

section \<open>Images from the webcam\<close>

lemma key_s_neq_key_q [simp]: "key_s \<noteq> key_q" "key_q \<noteq> key_s"
  by (simp_all add: key_s_def key_q_def)

lemma aborts_decisive: "aborts t \<Longrightarrow> decisive t"
  by (auto simp: aborts_def decisive_def)

lemma filter_dropWhile_not: "filter P (dropWhile (Not \<circ> P) xs) = filter P xs"
  by (induction xs) simp_all

lemma dropWhile_not_Cons:
  assumes "dropWhile (Not \<circ> P) xs = t # rest"
  shows "P t" and "filter P xs = t # filter P rest"
proof -
  from assms hd_dropWhile [of "Not \<circ> P" xs] show "P t" by simp
  with assms filter_dropWhile_not [of P xs] show "filter P xs = t # filter P rest" by simp
qed

lemma dropWhile_not_Nil:
  assumes "dropWhile (Not \<circ> P) xs = []"
  shows "filter P xs = []"
  using assms filter_dropWhile_not [of P xs] by simp

lemma wait_capture_eq:
  "wait_capture model ticks =
     (case dropWhile (Not \<circ> decisive) ticks of
        [] \<Rightarrow> None
      | t # rest \<Rightarrow>
          if aborts t then Some (Inl ()) else Some (Inr (tick_count model t, rest)))"
proof (induction ticks)
  case Nil
  show ?case by simp
next
  case (Cons t ticks)
  obtain ret key where t: "t = (ret, key)" by (cases t)
  from Cons show ?case
    by (cases ret) (simp_all add: t decisive_def aborts_def tick_count_def)
qed

lemma capture_directions_eq:
  "capture_directions model dirs ticks vehicle_counts =
     (let ds = take (length dirs) (filter decisive ticks) in
      if \<exists>t \<in> set ds. aborts t then Some [0, 0, 0, 0]
      else if length ds = length dirs then Some (vehicle_counts @ map (tick_count model) ds)
      else None)"
proof (induction dirs arbitrary: ticks vehicle_counts)
  case Nil
  show ?case by simp
next
  case (Cons d dirs)
  note IH = Cons.IH
  show ?case
  proof (cases "dropWhile (Not \<circ> decisive) ticks")
    case Nil
    then have "wait_capture model ticks = None" by (simp only: wait_capture_eq list.case)
    with dropWhile_not_Nil [OF Nil] show ?thesis by simp
  next
    case (Cons t rest)
    then have w: "wait_capture model ticks =
        (if aborts t then Some (Inl ()) else Some (Inr (tick_count model t, rest)))"
      by (simp only: wait_capture_eq list.case)
    note f = dropWhile_not_Cons(2) [OF Cons]
    show ?thesis by (cases "aborts t") (simp_all add: w f IH Let_def)
  qed
qed

lemma tick_count_nonneg [simp]: "0 \<le> tick_count model t"
  by (simp add: tick_count_def split: option.splits)

lemma webcam_result_cases:
  assumes "webcam_result model ticks = Some counts"
  shows "length counts = 4" and "list_all (\<lambda>c. 0 \<le> c) counts"
proof -
  let ?ds = "take 4 (filter decisive ticks)"
  have "length counts = 4 \<and> list_all (\<lambda>c. 0 \<le> c) counts"
  proof (cases "\<exists>t \<in> set ?ds. aborts t")
    case True
    with assms have "counts = [0, 0, 0, 0]" by (simp add: webcam_result_def Let_def)
    then show ?thesis by simp
  next
    case False
    with assms have "length ?ds = 4 \<and> counts = map (tick_count model) ?ds"
      by (simp add: webcam_result_def Let_def split: if_splits)
    then show ?thesis by (simp add: list_all_iff)
  qed
  then show "length counts = 4" and "list_all (\<lambda>c. 0 \<le> c) counts" by simp_all
qed

lemma webcam_result_Some_iff:
  "(\<exists>counts. webcam_result model ticks = Some counts) \<longleftrightarrow>
     4 \<le> length (filter decisive ticks) \<or> (\<exists>t \<in> set ticks. aborts t)"
proof (cases "4 \<le> length (filter decisive ticks)")
  case True
  then show ?thesis by (simp add: webcam_result_def Let_def)
next
  case False
  then have ds: "take 4 (filter decisive ticks) = filter decisive ticks" by simp
  have "(\<exists>t \<in> set (filter decisive ticks). aborts t) \<longleftrightarrow> (\<exists>t \<in> set ticks. aborts t)"
    by (auto dest: aborts_decisive)
  with False show ?thesis by (simp add: webcam_result_def Let_def ds del: set_filter)
qed

lemma capture_one_by_one_images_eq:
  "capture_one_by_one_images model ticks = webcam_result model ticks"
proof -
  have "length directions = 4" by (simp add: directions_def)
  then show ?thesis
    by (simp add: capture_one_by_one_images_def capture_directions_eq webcam_result_def Let_def)
qed

text \<open>
  C23. \<^verbatim>\<open>capture_one_by_one_images\<close> computes what the reference description says:
  it looks at the first four decisive ticks (a failed read, the key \<^verbatim>\<open>s\<close> or the key
  \<^verbatim>\<open>q\<close>); if one of them is a failed read or \<^verbatim>\<open>q\<close> it returns the sentinel, if all
  four are captures it returns their counts in order, and with fewer than four it is
  still waiting.
\<close>

theorem capture_one_by_one_images_reference:
  "capture_one_by_one_images model ticks =
     (let ds = take 4 (filter decisive ticks) in
      if list_ex aborts ds then Some [0, 0, 0, 0]
      else if length ds = 4 then Some (map (tick_count model) ds)
      else None)"
  by (simp add: capture_one_by_one_images_eq webcam_result_def list_ex_iff)

text \<open>
  Whatever \<^verbatim>\<open>capture_one_by_one_images\<close> returns is a list of four counts, none
  of them negative.
\<close>

theorem capture_one_by_one_images_result:
  assumes "capture_one_by_one_images model ticks = Some counts"
  shows "length counts = 4 \<and> list_all (\<lambda>c. 0 \<le> c) counts"
  using webcam_result_cases [of model ticks counts] assms
  by (simp add: capture_one_by_one_images_eq)

theorem capture_one_by_one_images_result_witness:
  "capture_one_by_one_images (\<lambda>_. [])
      [(Some (), 32), (Some (), key_s), (Some (), key_s), (Some (), key_s), (Some (), key_s)]
     = Some [0, 0, 0, 0]
   \<and> length [0, 0, 0, 0 :: int] = 4 \<and> list_all (\<lambda>c. 0 \<le> c) [0, 0, 0, 0 :: int]"
proof -
  let ?ticks = "[(Some (), 32), (Some (), key_s), (Some (), key_s), (Some (), key_s),
    (Some (), key_s)] :: unit tick list"
  have r: "capture_one_by_one_images (\<lambda>_. []) ?ticks = Some [0, 0, 0, 0]"
    by (simp add: capture_one_by_one_images_def directions_def count_vehicles_def key_s_def
        key_q_def)
  from capture_one_by_one_images_result [OF r] r show ?thesis by simp
qed

text \<open>
  C24. The waiting loops end exactly when the user or the camera makes them: the
  function returns on the ticks supplied iff they contain four decisive ticks or a
  tick that aborts.
\<close>

theorem capture_one_by_one_images_returns_iff:
  "(\<exists>counts. capture_one_by_one_images model ticks = Some counts) \<longleftrightarrow>
     4 \<le> length (filter decisive ticks) \<or> list_ex aborts ticks"
  by (simp add: capture_one_by_one_images_eq webcam_result_Some_iff list_ex_iff)

end
