(* ===== verification/Session.thy ===== *)
theory Session
  imports Detection Liveness
begin

text \<open>
  The whole of \<^verbatim>\<open>main\<close> (lines 214-264 of \<^verbatim>\<open>src/advanced_traffic_management.py\<close>):
  the choice of the input, the acquisition of the counts, the start of the scheduler
  and the loop.

  Everything \<^verbatim>\<open>main\<close> reads from outside is a field of \<open>environment\<close>: the line
  typed at the prompt, the ticks of webcam and keyboard, the paths selected in the file
  dialog, what \<^verbatim>\<open>imread\<close> finds at a path, the detector, and the window events of
  each frame. \<open>main\<close> returns \<open>None\<close> when the program has not returned on the input
  supplied (a waiting loop or the main loop is still running), \<open>Some (Inl e)\<close> when it
  ended early or with an exception, and \<open>Some (Inr s)\<close> with the last state of the
  scheduler when the loop was left by a quit event.
\<close>

section \<open>Definitions\<close>

record 'img environment =
  env_model :: "'img detector"
  env_choice :: string
  env_ticks :: "'img tick list"
  env_paths :: "string list"
  env_imread :: "string \<Rightarrow> 'img option"
  env_events :: "event list list"

definition acquire :: "'img environment \<Rightarrow> (exit + vehicle_count list) option" where
  "acquire env =
     (if env_choice env = ''1'' then
        map_option Inr (capture_one_by_one_images (env_model env) (env_ticks env))
      else if env_choice env = ''2'' then
        Some (Inr (capture_from_file_dialog (env_model env) (env_imread env) (env_paths env)))
      else Some (Inl Invalid_Choice))"

definition main :: "'img environment \<Rightarrow> (exit + controller) option" where
  "main env =
     (case acquire env of
        None \<Rightarrow> None
      | Some (Inl e) \<Rightarrow> Some (Inl e)
      | Some (Inr counts) \<Rightarrow>
          (case startup counts of
             Inl e \<Rightarrow> Some (Inl e)
           | Inr s \<Rightarrow> main_loop (env_events env) s))"

section \<open>Acquisition\<close>

lemma acquire_counts:
  assumes "acquire env = Some (Inr counts)"
  shows "length counts = 4" and "list_all (\<lambda>c. 0 \<le> c) counts"
proof -
  have "length counts = 4 \<and> list_all (\<lambda>c. 0 \<le> c) counts"
  proof (cases "env_choice env = ''1''")
    case True
    with assms have "capture_one_by_one_images (env_model env) (env_ticks env) = Some counts"
      by (auto simp: acquire_def)
    then show ?thesis
      using webcam_result_cases [of "env_model env" "env_ticks env" counts]
      by (simp add: capture_one_by_one_images_eq)
  next
    case False
    with assms have "counts =
        capture_from_file_dialog (env_model env) (env_imread env) (env_paths env)"
      by (auto simp: acquire_def split: if_splits)
    then show ?thesis by (simp add: capture_from_file_dialog_eq list_all_iff)
  qed
  then show "length counts = 4" and "list_all (\<lambda>c. 0 \<le> c) counts" by simp_all
qed

lemma acquire_Inl: "acquire env = Some (Inl e) \<longleftrightarrow>
    e = Invalid_Choice \<and> env_choice env \<noteq> ''1'' \<and> env_choice env \<noteq> ''2''"
  by (auto simp: acquire_def)

lemma nonneg_sum_zero:
  fixes cs :: "int list"
  assumes "list_all (\<lambda>c. 0 \<le> c) cs" and "sum_list cs = 0"
  shows "cs = replicate (length cs) 0"
  using assms
proof (induction cs)
  case (Cons c cs)
  from Cons.prems(1) have "0 \<le> c" "0 \<le> sum_list cs" by (simp_all add: sum_list_nonneg_int)
  with Cons.prems(2) have "c = 0" "sum_list cs = 0" by simp_all
  with Cons show ?case by simp
qed simp

lemma counts_zero_iff:
  fixes counts :: "int list"
  assumes "length counts = 4" and "list_all (\<lambda>c. 0 \<le> c) counts"
  shows "counts = [0, 0, 0, 0] \<longleftrightarrow> sum_list counts = 0"
proof
  assume "sum_list counts = 0"
  from nonneg_sum_zero [OF assms(2) this] assms(1) show "counts = [0, 0, 0, 0]"
    by (simp add: eval_nat_numeral)
qed simp

section \<open>The loop\<close>

lemma main_loop_never_fails:
  assumes "sched_inv s"
  shows "main_loop eventss s \<noteq> Some (Inl e)"
  using run_inv [OF assms, of eventss] by (auto simp: main_loop_run split: if_splits)

lemma main_loop_final:
  assumes "main_loop eventss s0 = Some (Inr s)" and "startup counts = Inr s0"
    and "length counts = 4"
  shows "reachable counts s" and "sched_inv s" and "\<not> running s"
proof -
  from assms(1) have r: "run eventss s0 = Inr s" and stop: "\<not> running s"
    by (auto simp: main_loop_run split: sum.splits if_splits)
  from reachable_run [OF assms(2) r] show "reachable counts s" .
  from reachable_sched_inv [OF this assms(3)] show "sched_inv s" by simp
  from stop show "\<not> running s" .
qed

lemma main_cases:
  "main env =
     (case acquire env of
        None \<Rightarrow> None
      | Some (Inl e) \<Rightarrow> Some (Inl e)
      | Some (Inr counts) \<Rightarrow>
          if counts = [0, 0, 0, 0] then Some (Inl No_Valid_Input)
          else main_loop (env_events env) (phase_start counts 0 0 0))"
proof (cases "acquire env")
  case None
  then show ?thesis by (simp add: main_def)
next
  case (Some r)
  show ?thesis
  proof (cases r)
    case (Inl e)
    with Some show ?thesis by (simp add: main_def)
  next
    case (Inr counts)
    with Some have len: "length counts = 4" by (auto intro: acquire_counts)
    show ?thesis
    proof (cases "counts = [0, 0, 0, 0]")
      case True
      with Some Inr show ?thesis by (simp add: main_def startup_cases)
    next
      case False
      with startup_phase_start [OF len False] Some Inr show ?thesis by (simp add: main_def)
    qed
  qed
qed

lemma main_Inr:
  assumes "main env = Some (Inr s)"
  obtains counts where "acquire env = Some (Inr counts)" and "counts \<noteq> [0, 0, 0, 0]"
    and "length counts = 4" and "list_all (\<lambda>c. 0 \<le> c) counts"
    and "startup counts = Inr (phase_start counts 0 0 0)"
    and "main_loop (env_events env) (phase_start counts 0 0 0) = Some (Inr s)"
proof -
  from assms obtain counts where a: "acquire env = Some (Inr counts)"
    and ne: "counts \<noteq> [0, 0, 0, 0]"
    and l: "main_loop (env_events env) (phase_start counts 0 0 0) = Some (Inr s)"
    by (auto simp: main_cases split: option.splits sum.splits if_splits)
  from acquire_counts [OF a] startup_phase_start [OF _ ne] a ne l that show thesis by blast
qed

lemma total_positive:
  fixes counts :: "int list"
  assumes "length counts = 4" and "list_all (\<lambda>c. 0 \<le> c) counts" and "counts \<noteq> [0, 0, 0, 0]"
  shows "0 < sum_list counts"
  using counts_zero_iff [OF assms(1,2)] sum_list_nonneg_int [OF assms(2)] assms(3) by simp

lemma main_no_raise: "main env \<noteq> Some (Inl (Raised e))"
proof (cases "acquire env")
  case None
  then show ?thesis by (simp add: main_cases)
next
  case (Some r)
  show ?thesis
  proof (cases r)
    case (Inl e')
    with Some acquire_Inl [of env e'] show ?thesis by (simp add: main_cases)
  next
    case (Inr counts)
    with Some have "length counts = 4" by (auto intro: acquire_counts)
    then have "sched_inv (phase_start counts 0 0 0)" by simp
    from main_loop_never_fails [OF this] Some Inr show ?thesis by (simp add: main_cases)
  qed
qed

section \<open>Properties of the program\<close>

text \<open>
  C2. \<^verbatim>\<open>main\<close> never ends with an exception of the scheduler: whatever is typed,
  selected, captured or detected, and whatever events arrive, no index is out of
  range. The vectors of fewer than four counts, on which the scheduler fails, are never
  produced by the acquisition.
\<close>

theorem main_never_raises: "main env \<noteq> Some (Inl (Raised e))"
  by (rule main_no_raise)

text \<open>
  Why \<^verbatim>\<open>main\<close> ends early: with \<open>Invalid_Choice\<close> exactly when the line typed is
  neither \<^verbatim>\<open>1\<close> nor \<^verbatim>\<open>2\<close>, and with \<open>No_Valid_Input\<close> exactly when the acquisition
  returns four zeros.
\<close>

theorem main_early_exit:
  "(main env = Some (Inl Invalid_Choice) \<longleftrightarrow> env_choice env \<noteq> ''1'' \<and> env_choice env \<noteq> ''2'')
   \<and> (main env = Some (Inl No_Valid_Input) \<longleftrightarrow> acquire env = Some (Inr [0, 0, 0, 0]))"
proof -
  have l: "main_loop (env_events env) (phase_start counts 0 0 0) \<noteq> Some (Inl e)"
    if "acquire env = Some (Inr counts)" for counts e
  proof -
    from acquire_counts(1) [OF that] have "sched_inv (phase_start counts 0 0 0)" by simp
    then show ?thesis by (rule main_loop_never_fails)
  qed
  show ?thesis
  proof (cases "acquire env")
    case None
    then show ?thesis by (auto simp: main_cases acquire_def split: if_splits)
  next
    case (Some r)
    show ?thesis
    proof (cases r)
      case (Inl e')
      with Some acquire_Inl [of env e'] show ?thesis by (simp add: main_cases)
    next
      case (Inr counts)
      with Some have a: "acquire env = Some (Inr counts)" by simp
      then have "env_choice env = ''1'' \<or> env_choice env = ''2''"
        by (auto simp: acquire_def split: if_splits)
      with a l [OF a] show ?thesis by (auto simp: main_cases)
    qed
  qed
qed

text \<open>
  C34. Zero traffic is rejected. When the acquisition succeeds and no vehicle is
  detected in any of the four images, \<^verbatim>\<open>main\<close> ends with \<open>No_Valid_Input\<close> as it does
  after an aborted acquisition: the loop never runs with four minimum green times.
\<close>

theorem zero_traffic_rejected:
  assumes "acquire env = Some (Inr counts)" and "sum_list counts = 0"
  shows "main env = Some (Inl No_Valid_Input)"
proof -
  from counts_zero_iff [OF acquire_counts [OF assms(1)]] assms(2)
  have "counts = [0, 0, 0, 0]" by simp
  with assms(1) show ?thesis by (simp add: main_cases)
qed

theorem zero_traffic_rejected_witness:
  "acquire \<lparr>env_model = \<lambda>_. [], env_choice = ''2'', env_ticks = [],
      env_paths = [''n.jpg'', ''e.jpg'', ''s.jpg'', ''w.jpg''], env_imread = \<lambda>_. Some (),
      env_events = []\<rparr> = Some (Inr [0, 0, 0, 0])
   \<and> sum_list [0, 0, 0, 0 :: int] = 0
   \<and> main \<lparr>env_model = \<lambda>_. [], env_choice = ''2'', env_ticks = [],
      env_paths = [''n.jpg'', ''e.jpg'', ''s.jpg'', ''w.jpg''], env_imread = \<lambda>_. Some (),
      env_events = []\<rparr> = Some (Inl No_Valid_Input)"
proof -
  let ?env = "\<lparr>env_model = \<lambda>_. [], env_choice = ''2'', env_ticks = [],
      env_paths = [''n.jpg'', ''e.jpg'', ''s.jpg'', ''w.jpg''], env_imread = \<lambda>_. Some (),
      env_events = []\<rparr> :: unit environment"
  have a: "acquire ?env = Some (Inr [0, 0, 0, 0])"
    by (simp add: acquire_def capture_from_file_dialog_eq file_count_def count_vehicles_def)
  from zero_traffic_rejected [OF a] a show ?thesis by simp
qed

text \<open>
  C19. When the counts are acquired and are not all zero, \<^verbatim>\<open>main\<close> is still running
  after the events supplied iff no frame has received a quit event; the acquisition
  and the start cannot fail on such counts.
\<close>

theorem main_returns_iff_quit:
  assumes "acquire env = Some (Inr counts)" and "counts \<noteq> [0, 0, 0, 0]"
  shows "(main env = None \<longleftrightarrow> (\<forall>events \<in> set (env_events env). QUIT \<notin> set events))
    \<and> (\<forall>e. main env \<noteq> Some (Inl e))"
proof -
  let ?s0 = "phase_start counts 0 0 0"
  from acquire_counts(1) [OF assms(1)] have inv: "sched_inv ?s0" by simp
  have "running ?s0" by simp
  from main_loop_quit_iff [OF inv this, of "env_events env"] main_loop_never_fails [OF inv]
    assms show ?thesis by (simp add: main_cases)
qed

theorem main_returns_iff_quit_witness:
  "acquire \<lparr>env_model = \<lambda>_. [\<lparr>x1 = 0, y1 = 0, x2 = 1, y2 = 1, conf = 1 / 2, cls = 2\<rparr>],
      env_choice = ''2'', env_ticks = [],
      env_paths = [''n.jpg'', ''e.jpg'', ''s.jpg'', ''w.jpg''],
      env_imread = (\<lambda>p. if p = ''n.jpg'' then None else Some ()),
      env_events = [[], [OTHER]]\<rparr> = Some (Inr [0, 1, 1, 1])
   \<and> [0, 1, 1, 1] \<noteq> [0, 0, 0, 0 :: int]
   \<and> main \<lparr>env_model = \<lambda>_. [\<lparr>x1 = 0, y1 = 0, x2 = 1, y2 = 1, conf = 1 / 2, cls = 2\<rparr>],
      env_choice = ''2'', env_ticks = [],
      env_paths = [''n.jpg'', ''e.jpg'', ''s.jpg'', ''w.jpg''],
      env_imread = (\<lambda>p. if p = ''n.jpg'' then None else Some ()),
      env_events = [[], [OTHER]]\<rparr> = None"
proof -
  let ?env = "\<lparr>env_model = \<lambda>_. [\<lparr>x1 = 0, y1 = 0, x2 = 1, y2 = 1, conf = 1 / 2, cls = 2\<rparr>],
      env_choice = ''2'', env_ticks = [],
      env_paths = [''n.jpg'', ''e.jpg'', ''s.jpg'', ''w.jpg''],
      env_imread = (\<lambda>p. if p = ''n.jpg'' then None else Some ()),
      env_events = [[], [OTHER]]\<rparr> :: unit environment"
  have a: "acquire ?env = Some (Inr [0, 1, 1, 1])"
    by (simp add: acquire_def capture_from_file_dialog_eq file_count_def count_vehicles_def
        is_vehicle_iff)
  from main_returns_iff_quit [OF a] a show ?thesis by simp
qed

text \<open>
  C18. When \<^verbatim>\<open>main\<close> returns from its loop, the last state is a state the scheduler
  reaches from the four counts acquired, it satisfies the invariant, the loop has been
  stopped by a quit event, and the total shown in the statistics is the sum of the
  counts, which is positive.
\<close>

theorem main_final_state:
  assumes "main env = Some (Inr s)"
  shows "\<exists>counts. acquire env = Some (Inr counts) \<and> reachable counts s \<and> sched_inv s
    \<and> \<not> running s \<and> total_vehicles s = sum_list counts \<and> 0 < total_vehicles s"
proof -
  from assms obtain counts where a: "acquire env = Some (Inr counts)"
    and c: "counts \<noteq> [0, 0, 0, 0]" "length counts = 4" "list_all (\<lambda>c. 0 \<le> c) counts"
    and st: "startup counts = Inr (phase_start counts 0 0 0)"
    and l: "main_loop (env_events env) (phase_start counts 0 0 0) = Some (Inr s)"
    by (rule main_Inr)
  note f = main_loop_final [OF l st c(2)]
  from reachable_sched_inv [OF f(1) c(2)] sched_invD(3) [OF f(2)]
  have "total_vehicles s = sum_list counts" by simp
  with total_positive [OF c(2,3,1)] a f show ?thesis by auto
qed

theorem main_final_state_witness:
  "main \<lparr>env_model = \<lambda>_. [\<lparr>x1 = 0, y1 = 0, x2 = 1, y2 = 1, conf = 1 / 2, cls = 2\<rparr>],
      env_choice = ''2'', env_ticks = [],
      env_paths = [''n.jpg'', ''e.jpg'', ''s.jpg'', ''w.jpg''],
      env_imread = (\<lambda>p. if p = ''n.jpg'' then None else Some ()),
      env_events = [[QUIT]]\<rparr> =
     Some (Inr \<lparr>running = False, cycles_completed = 0, total_vehicles = 3, frame_count = 1,
       car_counts = [0, 1, 1, 1], timers = [5, 5, 5, 5], active_lane = 0,
       timer_remaining = float_sub 5 tick_delta\<rparr>)
   \<and> reachable [0, 1, 1, 1] \<lparr>running = False, cycles_completed = 0, total_vehicles = 3,
       frame_count = 1, car_counts = [0, 1, 1, 1], timers = [5, 5, 5, 5], active_lane = 0,
       timer_remaining = float_sub 5 tick_delta\<rparr>"
proof -
  let ?env = "\<lparr>env_model = \<lambda>_. [\<lparr>x1 = 0, y1 = 0, x2 = 1, y2 = 1, conf = 1 / 2, cls = 2\<rparr>],
      env_choice = ''2'', env_ticks = [],
      env_paths = [''n.jpg'', ''e.jpg'', ''s.jpg'', ''w.jpg''],
      env_imread = (\<lambda>p. if p = ''n.jpg'' then None else Some ()),
      env_events = [[QUIT]]\<rparr> :: unit environment"
  let ?init = "phase_start [0, 1, 1, 1] 0 0 0"
  let ?final = "\<lparr>running = False, cycles_completed = 0, total_vehicles = 3, frame_count = 1,
       car_counts = [0, 1, 1, 1], timers = [5, 5, 5, 5], active_lane = 0,
       timer_remaining = float_sub 5 tick_delta\<rparr>"
  have a: "acquire ?env = Some (Inr [0, 1, 1, 1])"
    by (simp add: acquire_def capture_from_file_dialog_eq file_count_def count_vehicles_def
        is_vehicle_iff)
  have pos: "0 < float_sub 5 tick_delta" using float_sub_tick_ge [of 5] by simp
  have t: "timer_for 1 = 5" by (simp add: timer_for_cases)
  let ?mid = "(handle_events [QUIT] ?init)\<lparr>timer_remaining := float_sub 5 tick_delta\<rparr>"
  have adv: "advance_timer (handle_events [QUIT] ?init) = Inr ?mid"
    using pos by (simp add: advance_timer_continue t)
  have "frame [QUIT] ?init = Inr (?mid\<lparr>frame_count := frame_count ?mid + 1\<rparr>)"
    by (rule frame_eq [OF adv]) simp_all
  then have "frame [QUIT] ?init = Inr ?final"
    by (simp add: phase_start_def calculate_timers_map t)
  with a have m: "main ?env = Some (Inr ?final)" by (simp add: main_cases)
  from main_final_state [OF m] a m show ?thesis by simp
qed

end
