(* ===== verification/Spec_Scheduler.thy ===== *)
theory Spec_Scheduler
  imports Traffic_Prelude
begin

text \<open>
  The Signal Scheduler as the specification describes it (\<^verbatim>\<open>spec.md\<close>, sections 3
  and 4.2): a state with the active direction, the remaining time, the completed
  cycles and the total of the counts, and the operations \<open>initialize\<close>, \<open>advance\<close>
  and \<open>query\<close>. The source has no such interface; these definitions are written from
  the specification, in exact arithmetic, and serve as the abstract machine that the
  program is compared with in theory \<open>Refinement\<close>.
\<close>

section \<open>Definitions\<close>

datatype spec_error = InvalidInputError

record signal_state =
  durations :: "seconds list"
  activeDirection :: nat
  remaining :: seconds
  cyclesCompleted :: nat
  totalVehicles :: int

record query_result =
  q_activeDirection :: nat
  q_displayRemaining :: seconds
  q_cyclesCompleted :: nat
  q_totalVehicles :: int

definition initialize :: "seconds list \<Rightarrow> vehicle_count list \<Rightarrow> spec_error + signal_state" where
  "initialize ds counts =
     (if length ds \<noteq> 4 \<or> length counts \<noteq> 4 \<or> list_ex (\<lambda>d. d < 0) ds
         \<or> list_ex (\<lambda>c. c < 0) counts
      then Inl InvalidInputError
      else Inr \<lparr>durations = ds, activeDirection = 0, remaining = ds ! 0,
                cyclesCompleted = 0, totalVehicles = sum_list counts\<rparr>)"

definition next_direction :: "signal_state \<Rightarrow> signal_state" where
  "next_direction st =
     (let a = (activeDirection st + 1) mod 4 in
      st\<lparr>activeDirection := a, remaining := durations st ! a,
         cyclesCompleted := (if a = 0 then cyclesCompleted st + 1 else cyclesCompleted st)\<rparr>)"

definition advance :: "signal_state \<Rightarrow> seconds \<Rightarrow> signal_state" where
  "advance st deltaSeconds =
     (if deltaSeconds \<le> 0 then st
      else if remaining st - deltaSeconds \<le> 0 then next_direction st
      else st\<lparr>remaining := remaining st - deltaSeconds\<rparr>)"

definition query :: "signal_state \<Rightarrow> query_result" where
  "query st = \<lparr>q_activeDirection = activeDirection st,
     q_displayRemaining = max 0 (remaining st), q_cyclesCompleted = cyclesCompleted st,
     q_totalVehicles = totalVehicles st\<rparr>"

fun ticks :: "nat \<Rightarrow> seconds \<Rightarrow> signal_state \<Rightarrow> signal_state" where
  "ticks 0 deltaSeconds st = st"
| "ticks (Suc n) deltaSeconds st = ticks n deltaSeconds (advance st deltaSeconds)"

definition spec_inv :: "signal_state \<Rightarrow> bool" where
  "spec_inv st \<longleftrightarrow> length (durations st) = 4 \<and> activeDirection st < 4
     \<and> list_all (\<lambda>d. 0 \<le> d) (durations st)
     \<and> remaining st \<le> durations st ! activeDirection st"

section \<open>The operations\<close>

lemma advance_zero [simp]: "advance st 0 = st"
  by (simp add: advance_def)

lemma advance_nonpositive: "deltaSeconds \<le> 0 \<Longrightarrow> advance st deltaSeconds = st"
  by (simp add: advance_def)

lemma next_direction_fields [simp]:
  "durations (next_direction st) = durations st"
  "activeDirection (next_direction st) = (activeDirection st + 1) mod 4"
  "remaining (next_direction st) = durations st ! ((activeDirection st + 1) mod 4)"
  "totalVehicles (next_direction st) = totalVehicles st"
  "cyclesCompleted (next_direction st) =
     (if activeDirection st mod 4 = 3 then cyclesCompleted st + 1 else cyclesCompleted st)"
  by (simp_all add: next_direction_def Let_def) presburger

lemma advance_fields [simp]:
  "durations (advance st d) = durations st" "totalVehicles (advance st d) = totalVehicles st"
  by (simp_all add: advance_def)

lemma initialize_Inr:
  assumes "length ds = 4" and "length counts = 4" and "list_all (\<lambda>d. 0 \<le> d) ds"
    and "list_all (\<lambda>c. 0 \<le> c) counts"
  shows "initialize ds counts = Inr \<lparr>durations = ds, activeDirection = 0, remaining = ds ! 0,
    cyclesCompleted = 0, totalVehicles = sum_list counts\<rparr>"
  using assms by (auto simp: initialize_def list_ex_iff list_all_iff)

lemma initialize_Inl:
  "initialize ds counts = Inl e \<longleftrightarrow> length ds \<noteq> 4 \<or> length counts \<noteq> 4
     \<or> list_ex (\<lambda>d. d < 0) ds \<or> list_ex (\<lambda>c. c < 0) counts"
  by (cases e) (simp add: initialize_def)

lemma spec_inv_initialize:
  assumes "initialize ds counts = Inr st"
  shows "spec_inv st"
  using assms
  by (auto simp: initialize_def spec_inv_def list_ex_iff list_all_iff not_less
      split: if_splits)

lemma spec_inv_advance:
  assumes "spec_inv st"
  shows "spec_inv (advance st d)"
  using assms by (auto simp: advance_def spec_inv_def)

lemma spec_inv_ticks: "spec_inv st \<Longrightarrow> spec_inv (ticks n d st)"
  by (induction n arbitrary: st) (simp_all add: spec_inv_advance)

lemma query_bounds:
  assumes "spec_inv st"
  shows "q_activeDirection (query st) \<le> 3" and "0 \<le> q_displayRemaining (query st)"
  using assms by (simp_all add: query_def spec_inv_def)

section \<open>Phases of the specification\<close>

text \<open>
  With a step that divides the remaining time exactly, a phase of the specification
  ends with the tick that uses the time up: \<open>n\<close> ticks of \<open>d\<close> end a phase of \<open>n * d\<close>
  seconds.
\<close>

lemma ticks_add: "ticks (m + n) d st = ticks n d (ticks m d st)"
  by (induction m arbitrary: st) simp_all

lemma ticks_phase:
  assumes "0 < d" and "remaining st = of_nat (Suc n) * d"
  shows "ticks (Suc n) d st = next_direction st"
  using assms(2)
proof (induction n arbitrary: st)
  case 0
  with assms(1) show ?case by (simp add: advance_def)
next
  case (Suc n)
  let ?st = "st\<lparr>remaining := remaining st - d\<rparr>"
  from Suc.prems assms(1) have r: "remaining st - d = of_nat (Suc n) * d"
    by (simp add: algebra_simps)
  with assms(1) have "\<not> remaining st - d \<le> 0" by (simp add: not_le)
  with assms(1) have a: "advance st d = ?st" by (simp add: advance_def)
  from r have "remaining ?st = of_nat (Suc n) * d" by simp
  from Suc.IH [OF this] have "ticks (Suc n) d ?st = next_direction ?st" .
  moreover have "next_direction ?st = next_direction st"
    by (simp add: next_direction_def Let_def)
  ultimately show ?case by (simp only: ticks.simps(2) [of "Suc n"] a)
qed

end
