(* ===== verification/Refinement.thy ===== *)
theory Refinement
  imports Spec_Scheduler Liveness
begin

text \<open>
  The program implements the Signal Scheduler of the specification. \<open>abstraction\<close>
  maps the locals of \<^verbatim>\<open>main\<close> to the state of the specification. The start of
  \<^verbatim>\<open>main\<close> is \<open>initialize\<close> on the green times computed, and a frame of the loop is
  one \<open>advance\<close>, not by a thirtieth of a second but by \<open>effective_delta\<close>, the
  amount by which the float subtraction of line 250 really lowers the timer in that
  state; it differs from a thirtieth by at most \<open>1 / 2 ^ 47\<close>. A run of the loop is
  the sequence of \<open>advance\<close> steps by the deltas \<open>frame_deltas\<close> of its frames.
\<close>

section \<open>Definitions\<close>

definition abstraction :: "controller \<Rightarrow> signal_state" where
  "abstraction s = \<lparr>durations = timers s, activeDirection = active_lane s,
     remaining = timer_remaining s, cyclesCompleted = cycles_completed s,
     totalVehicles = total_vehicles s\<rparr>"

definition effective_delta :: "controller \<Rightarrow> seconds" where
  "effective_delta s = timer_remaining s - float_sub (timer_remaining s) tick_delta"

definition near_thirtieth :: "seconds \<Rightarrow> bool" where
  "near_thirtieth d \<longleftrightarrow> 0 < d \<and> \<bar>d - 1 / 30\<bar> \<le> 1 / 2 ^ 47"

fun frame_deltas :: "event list list \<Rightarrow> controller \<Rightarrow> seconds list" where
  "frame_deltas [] s = []"
| "frame_deltas (events # rest) s =
     (if running s then
        (case frame events s of
           Inl e \<Rightarrow> []
         | Inr s' \<Rightarrow> effective_delta s # frame_deltas rest s')
      else [])"

definition advances :: "seconds list \<Rightarrow> signal_state \<Rightarrow> signal_state" where
  "advances deltas st = fold (\<lambda>d st. advance st d) deltas st"

section \<open>The step of a frame\<close>

lemma abstraction_fields [simp]:
  "durations (abstraction s) = timers s" "activeDirection (abstraction s) = active_lane s"
  "remaining (abstraction s) = timer_remaining s"
  "cyclesCompleted (abstraction s) = cycles_completed s"
  "totalVehicles (abstraction s) = total_vehicles s"
  by (simp_all add: abstraction_def)

lemma abstraction_updates [simp]:
  "abstraction (s\<lparr>frame_count := n\<rparr>) = abstraction s"
  "abstraction (s\<lparr>running := b\<rparr>) = abstraction s"
  "abstraction (s\<lparr>timer_remaining := r\<rparr>) = (abstraction s)\<lparr>remaining := r\<rparr>"
  by (simp_all add: abstraction_def)

lemma abstraction_handle_events [simp]: "abstraction (handle_events events s) = abstraction s"
  by (simp add: handle_events_eq)

lemma abstraction_switch_lane: "abstraction (switch_lane s) = next_direction (abstraction s)"
  by (simp add: abstraction_def switch_lane_def next_direction_def Let_def)

lemma effective_delta_handle_events [simp]:
  "effective_delta (handle_events events s) = effective_delta s"
  by (simp add: effective_delta_def handle_events_eq)

lemma float_sub_tick_err:
  assumes "0 < r" and "r \<le> 20"
  shows "\<bar>float_sub r tick_delta - (r - tick_delta)\<bar> \<le> 20 / 2 ^ 53"
proof -
  have "0 < tick_delta" "tick_delta < 20" by (simp_all add: tick_delta_value)
  with assms have "\<bar>r - tick_delta\<bar> \<le> 20" by linarith
  then have "\<bar>r - tick_delta\<bar> / 2 ^ 53 \<le> 20 / 2 ^ 53" by (simp add: divide_right_mono)
  with b64_rel_err [of "r - tick_delta"] show ?thesis unfolding float_sub_def by linarith
qed

lemma near_thirtieth_effective_delta:
  assumes "0 < timer_remaining s" and "timer_remaining s \<le> 20"
  shows "near_thirtieth (effective_delta s)"
proof -
  define e where "e = float_sub (timer_remaining s) tick_delta - (timer_remaining s - tick_delta)"
  define b :: rat where "b = 20 / 2 ^ 53"
  define eps :: rat where "eps = 1 / (15 * 2 ^ 57)"
  define c :: rat where "c = 1 / 2 ^ 47"
  have d: "effective_delta s = tick_delta - e" by (simp add: effective_delta_def e_def)
  have t: "tick_delta = 1 / 30 - eps" by (simp add: tick_delta_value eps_def)
  from float_sub_tick_err [OF assms] have e: "\<bar>e\<bar> \<le> b" by (simp only: e_def b_def)
  have "b + eps \<le> c" "b < 1 / 30 - eps" "0 < eps" by (simp_all add: b_def eps_def c_def)
  with e t have "0 < tick_delta - e \<and> \<bar>tick_delta - e - 1 / 30\<bar> \<le> c" by linarith
  then show ?thesis by (simp only: near_thirtieth_def d c_def)
qed

lemma abstraction_advance_timer:
  assumes "advance_timer s = Inr s'" and "0 < effective_delta s"
  shows "abstraction s' = advance (abstraction s) (effective_delta s)"
proof (cases "float_sub (timer_remaining s) tick_delta \<le> 0")
  case True
  with assms(1) have "s' = switch_lane s"
    by (auto simp: advance_timer_def Let_def split: if_splits)
  with True assms(2) show ?thesis
    by (simp add: abstraction_switch_lane advance_def effective_delta_def)
next
  case False
  with assms(1) have "s' = s\<lparr>timer_remaining := float_sub (timer_remaining s) tick_delta\<rparr>"
    by (simp add: advance_timer_continue)
  with False assms(2) show ?thesis by (simp add: advance_def effective_delta_def)
qed

lemma abstraction_frame:
  assumes "sched_inv s" and "frame events s = Inr s'"
  shows "abstraction s' = advance (abstraction s) (effective_delta s)"
    and "near_thirtieth (effective_delta s)"
proof -
  from sched_invD(5) [OF assms(1)] sched_inv_timer_le_20 [OF assms(1)]
  show near: "near_thirtieth (effective_delta s)" by (rule near_thirtieth_effective_delta)
  from frame_Inr [OF assms(1), of events] assms(2) obtain s1
    where s1: "advance_timer (handle_events events s) = Inr s1"
      and s': "s' = s1\<lparr>frame_count := frame_count s1 + 1\<rparr>" by auto
  from near have "0 < effective_delta (handle_events events s)"
    by (simp add: near_thirtieth_def)
  from abstraction_advance_timer [OF s1 this]
  show "abstraction s' = advance (abstraction s) (effective_delta s)" by (simp add: s')
qed

section \<open>Runs\<close>

lemma advances_simps [simp]:
  "advances [] st = st" "advances (d # ds) st = advances ds (advance st d)"
  by (simp_all add: advances_def)

lemma run_refines:
  assumes "sched_inv s"
  shows "\<exists>s'. run eventss s = Inr s'
    \<and> abstraction s' = advances (frame_deltas eventss s) (abstraction s)
    \<and> list_all near_thirtieth (frame_deltas eventss s)
    \<and> frame_count s' = frame_count s + length (frame_deltas eventss s)"
  using assms
proof (induction eventss arbitrary: s)
  case Nil
  show ?case by simp
next
  case (Cons events rest)
  show ?case
  proof (cases "running s")
    case False
    then show ?thesis by (simp add: run_Cons)
  next
    case True
    from frame_Inr [OF Cons.prems, of events] obtain s1
      where "frame events s = Inr (s1\<lparr>frame_count := frame_count s1 + 1\<rparr>)" by blast
    then obtain s' where fr: "frame events s = Inr s'" by blast
    note inv = sched_inv_frame [OF Cons.prems fr]
    from Cons.IH [OF inv] obtain t where t: "run rest s' = Inr t"
      "abstraction t = advances (frame_deltas rest s') (abstraction s')"
      "list_all near_thirtieth (frame_deltas rest s')"
      "frame_count t = frame_count s' + length (frame_deltas rest s')" by blast
    from t True fr abstraction_frame [OF Cons.prems fr] frame_preserves(4) [OF fr]
    show ?thesis by (simp add: run_Cons)
  qed
qed

lemma length_frame_deltas: "length (frame_deltas eventss s) \<le> length eventss"
  by (induction eventss arbitrary: s) (auto split: sum.splits)

section \<open>States\<close>

lemma spec_inv_abstraction:
  assumes "sched_inv s"
  shows "spec_inv (abstraction s)"
proof -
  note d = sched_invD [OF assms]
  have "list_all (\<lambda>t. 0 \<le> t) (map timer_for (car_counts s))"
    using timer_for_range(1) by (simp add: list_all_iff order_trans [of 0 5])
  with d sched_inv_lengths [OF assms] show ?thesis
    by (simp add: spec_inv_def calculate_timers_map del: nth_calculate_timers)
qed

lemma abstraction_phase_start:
  assumes "length counts = 4"
  shows "abstraction (phase_start counts 0 0 0) =
    \<lparr>durations = calculate_timers counts, activeDirection = 0,
      remaining = calculate_timers counts ! 0, cyclesCompleted = 0,
      totalVehicles = sum_list counts\<rparr>"
  using assms by (simp add: abstraction_def)

lemma initialize_calculate_timers:
  assumes "length counts = 4" and "list_all (\<lambda>c. 0 \<le> c) counts"
  shows "initialize (calculate_timers counts) counts =
    Inr (abstraction (phase_start counts 0 0 0))"
proof -
  have "list_all (\<lambda>t. 0 \<le> t) (calculate_timers counts)"
    using timer_for_range(1) by (simp add: calculate_timers_map list_all_iff order_trans [of 0 5])
  with assms show ?thesis by (simp add: initialize_Inr abstraction_phase_start)
qed

section \<open>The program refines the specification\<close>

text \<open>
  The start of \<^verbatim>\<open>main\<close> is the \<open>initialize\<close> of the specification: for four
  counts, none negative and not all zero, \<open>startup\<close> succeeds and its state is, seen
  through \<open>abstraction\<close>, the state that \<open>initialize\<close> returns for the green times of
  \<^verbatim>\<open>calculate_timers\<close>.
\<close>

theorem startup_refines_initialize:
  assumes "length counts = 4" and "list_all (\<lambda>c. 0 \<le> c) counts"
    and "counts \<noteq> [0, 0, 0, 0]"
  shows "\<exists>s. startup counts = Inr s
    \<and> initialize (calculate_timers counts) counts = Inr (abstraction s)"
  using startup_phase_start [OF assms(1,3)] initialize_calculate_timers [OF assms(1,2)]
  by blast

theorem startup_refines_initialize_witness:
  "length [10, 2, 10, 2 :: int] = 4 \<and> list_all (\<lambda>c. 0 \<le> c) [10, 2, 10, 2 :: int]
   \<and> [10, 2, 10, 2] \<noteq> [0, 0, 0, 0 :: int]
   \<and> (\<exists>s. startup [10, 2, 10, 2] = Inr s
        \<and> initialize [15, 5, 15, 5] [10, 2, 10, 2] = Inr (abstraction s))"
  using startup_refines_initialize [of "[10, 2, 10, 2]"] by (simp add: calculate_timers_map)

text \<open>
  C17. A frame of the loop is one \<open>advance\<close> of the specification. In every state
  that satisfies the invariant, a frame succeeds, and the abstraction of its result is
  \<open>advance\<close> applied to the abstraction of the state with the step \<open>effective_delta\<close>,
  which is positive and within \<open>1 / 2 ^ 47\<close> of a thirtieth of a second; the result
  satisfies the invariant of the specification.
\<close>

theorem frame_refines_advance:
  assumes "sched_inv s"
  shows "\<exists>s'. frame events s = Inr s'
    \<and> abstraction s' = advance (abstraction s) (effective_delta s)
    \<and> near_thirtieth (effective_delta s) \<and> spec_inv (abstraction s')"
proof -
  from frame_Inr [OF assms, of events] obtain s1
    where "frame events s = Inr (s1\<lparr>frame_count := frame_count s1 + 1\<rparr>)" by blast
  then obtain s' where fr: "frame events s = Inr s'" by blast
  from abstraction_frame [OF assms fr] spec_inv_abstraction [OF sched_inv_frame [OF assms fr]] fr
  show ?thesis by blast
qed

theorem frame_refines_advance_witness:
  "sched_inv scenario_state
   \<and> (\<exists>s'. frame [] scenario_state = Inr s'
        \<and> abstraction s' = advance (abstraction scenario_state) (effective_delta scenario_state)
        \<and> near_thirtieth (effective_delta scenario_state))"
  using frame_refines_advance [of scenario_state "[]"] by auto

text \<open>
  C3. The program refines the specification. For four counts, none negative and not
  all zero, the program and the specification start in corresponding states, and
  after the frames of any list of events the state of the program corresponds to the
  state the specification reaches by \<open>advance\<close> with the deltas of those frames, each
  of them within \<open>1 / 2 ^ 47\<close> of a thirtieth of a second.
\<close>

theorem program_refines_specification:
  assumes "length counts = 4" and "list_all (\<lambda>c. 0 \<le> c) counts"
    and "counts \<noteq> [0, 0, 0, 0]"
  shows "\<exists>s0 st0. startup counts = Inr s0
    \<and> initialize (calculate_timers counts) counts = Inr st0 \<and> st0 = abstraction s0
    \<and> (\<forall>eventss. \<exists>s'. run eventss s0 = Inr s'
          \<and> abstraction s' = advances (frame_deltas eventss s0) st0
          \<and> list_all near_thirtieth (frame_deltas eventss s0)
          \<and> length (frame_deltas eventss s0) \<le> length eventss)"
proof -
  let ?init = "phase_start counts 0 0 0"
  from assms(1) have "sched_inv ?init" by simp
  from run_refines [OF this] length_frame_deltas
  have "\<forall>eventss. \<exists>s'. run eventss ?init = Inr s'
      \<and> abstraction s' = advances (frame_deltas eventss ?init) (abstraction ?init)
      \<and> list_all near_thirtieth (frame_deltas eventss ?init)
      \<and> length (frame_deltas eventss ?init) \<le> length eventss" by blast
  with startup_phase_start [OF assms(1,3)] initialize_calculate_timers [OF assms(1,2)]
  show ?thesis by blast
qed

theorem program_refines_specification_witness:
  "length [10, 2, 10, 2 :: int] = 4 \<and> list_all (\<lambda>c. 0 \<le> c) [10, 2, 10, 2 :: int]
   \<and> [10, 2, 10, 2] \<noteq> [0, 0, 0, 0 :: int]
   \<and> (\<exists>s0 st0. startup [10, 2, 10, 2] = Inr s0
        \<and> initialize [15, 5, 15, 5] [10, 2, 10, 2] = Inr st0
        \<and> (\<exists>s'. run [[], [OTHER], [QUIT], []] s0 = Inr s'
              \<and> abstraction s' = advances (frame_deltas [[], [OTHER], [QUIT], []] s0) st0))"
proof -
  from program_refines_specification [of "[10, 2, 10, 2]"]
  obtain s0 st0 where "startup [10, 2, 10, 2] = Inr s0"
    and "initialize [15, 5, 15, 5] [10, 2, 10, 2] = Inr st0"
    and "\<forall>eventss. \<exists>s'. run eventss s0 = Inr s'
          \<and> abstraction s' = advances (frame_deltas eventss s0) st0
          \<and> list_all near_thirtieth (frame_deltas eventss s0)
          \<and> length (frame_deltas eventss s0) \<le> length eventss"
    by (auto simp: calculate_timers_map)
  then show ?thesis by (simp del: frame_deltas.simps) blast
qed

text \<open>
  What the display reads is what the specification's \<open>query\<close> returns. In every
  reachable state the clamp of \<open>displayRemaining\<close> is the identity, because the timer
  is positive; the active direction is at most 3 and the time shown is positive.
\<close>

theorem reachable_query:
  assumes "reachable counts s" and "length counts = 4"
  shows "query (abstraction s) = \<lparr>q_activeDirection = active_lane s,
      q_displayRemaining = timer_remaining s, q_cyclesCompleted = cycles_completed s,
      q_totalVehicles = sum_list counts\<rparr>
    \<and> q_activeDirection (query (abstraction s)) \<le> 3
    \<and> 0 < q_displayRemaining (query (abstraction s))"
proof -
  from reachable_sched_inv [OF assms] have inv: "sched_inv s" and c: "car_counts s = counts"
    by simp_all
  note d = sched_invD [OF inv]
  from d(3,4,5) c show ?thesis by (simp add: query_def max_def)
qed

theorem reachable_query_witness:
  "reachable [10, 2, 10, 2] scenario_state \<and> length [10, 2, 10, 2 :: int] = 4
   \<and> query (abstraction scenario_state) = \<lparr>q_activeDirection = 0, q_displayRemaining = 15,
        q_cyclesCompleted = 0, q_totalVehicles = 24\<rparr>"
proof -
  have "startup [10, 2, 10, 2] = Inr scenario_state"
    by (simp add: startup_cases scenario_state_def calculate_timers_map)
  then have r: "reachable [10, 2, 10, 2] scenario_state" by (rule reachable.start)
  from reachable_query [OF r] r show ?thesis by simp
qed

section \<open>Where program and specification differ\<close>

text \<open>
  C22. Scenario D of the specification. With the exact step of a thirtieth of a
  second the specification completes the cycle of the counts \<open>[10, 2, 10, 2]\<close> with
  tick 1200; the program, whose step is the float nearest to a thirtieth and whose
  subtractions round, is after 1200 frames still in direction 3 with no completed
  cycle.
\<close>

theorem scenario_d_divergence:
  "cyclesCompleted (ticks 1200 (1 / 30) (abstraction scenario_state)) = 1
   \<and> activeDirection (ticks 1200 (1 / 30) (abstraction scenario_state)) = 0
   \<and> (\<exists>r. run (replicate 1200 []) scenario_state =
         Inr (scenario_state\<lparr>active_lane := 3, timer_remaining := r, frame_count := 1200\<rparr>))"
proof -
  let ?a = "abstraction scenario_state"
  let ?n = next_direction
  have 1: "ticks 450 (1 / 30) ?a = ?n ?a"
    using ticks_phase [of "1 / 30" ?a 449] by (simp add: scenario_state_def)
  have 2: "ticks 150 (1 / 30) (?n ?a) = ?n (?n ?a)"
    using ticks_phase [of "1 / 30" "?n ?a" 149] by (simp add: scenario_state_def)
  have 3: "ticks 450 (1 / 30) (?n (?n ?a)) = ?n (?n (?n ?a))"
    using ticks_phase [of "1 / 30" "?n (?n ?a)" 449] by (simp add: scenario_state_def)
  have 4: "ticks 150 (1 / 30) (?n (?n (?n ?a))) = ?n (?n (?n (?n ?a)))"
    using ticks_phase [of "1 / 30" "?n (?n (?n ?a))" 149] by (simp add: scenario_state_def)
  have "ticks (450 + 150 + 450 + 150) (1 / 30) ?a = ?n (?n (?n (?n ?a)))"
    by (simp only: ticks_add 1 2 3 4)
  then have "ticks 1200 (1 / 30) ?a = ?n (?n (?n (?n ?a)))" by simp
  then show ?thesis using after_1200_frames by (simp add: scenario_state_def)
qed

text \<open>
  The two machines also accept different inputs: the specification rejects a negative
  count, which the start of \<^verbatim>\<open>main\<close> accepts, and it accepts four zeros, on which
  \<^verbatim>\<open>main\<close> returns early.
\<close>

theorem initialize_differs:
  "initialize (calculate_timers [- 1, 0, 0, 0]) [- 1, 0, 0, 0] = Inl InvalidInputError
   \<and> (\<exists>s. startup [- 1, 0, 0, 0] = Inr s)
   \<and> (\<exists>st. initialize (calculate_timers [0, 0, 0, 0]) [0, 0, 0, 0] = Inr st)
   \<and> startup [0, 0, 0, 0] = Inl No_Valid_Input"
  by (simp add: initialize_def startup_cases calculate_timers_map)

end
