(* ===== verification/Float_Range.thy ===== *)
theory Float_Range
  imports Liveness
begin

text \<open>
  The floats of the scheduler stay where the model of \<open>Binary64\<close> agrees with the
  machine. Every timer the loop of \<^verbatim>\<open>main\<close> holds is a multiple of \<open>2 powi (- 57)\<close>
  (\<open>on_grid\<close>), so a result of the subtraction of line 250 that is not zero has a
  magnitude of at least \<open>2 powi (- 57)\<close>, far from the subnormal numbers, and at most
  20, far from overflow.
\<close>

section \<open>Definitions\<close>

definition on_grid :: "seconds \<Rightarrow> bool" where
  "on_grid r \<longleftrightarrow> (\<exists>a. r = fx a)"

section \<open>The grid\<close>

lemma on_grid_fx [simp]: "on_grid (fx a)"
  by (auto simp: on_grid_def)

lemma on_grid_float_sub: "on_grid r \<Longrightarrow> on_grid (float_sub r tick_delta)"
  by (auto simp: on_grid_def float_sub_fx)

lemma on_grid_timer_value:
  assumes "timer_value t"
  shows "on_grid t"
proof -
  from assms obtain n :: int where "t = of_int n / 2" by (auto simp: timer_value_def)
  then have "t = fx (n * 2 ^ 56)" by (simp only: fx_half)
  then show ?thesis by simp
qed

lemma on_grid_tick_delta [simp]: "on_grid tick_delta"
  by (simp add: tick_delta_fx)

lemma fx_abs_ge:
  assumes "fx a \<noteq> 0"
  shows "2 powi (- 57) \<le> \<bar>fx a\<bar>"
proof -
  from assms have "a \<noteq> 0" by (auto simp: fx_def)
  then have "1 \<le> \<bar>a\<bar>" by simp
  then have "(1::rat) \<le> \<bar>of_int a\<bar>" by (simp only: of_int_abs [symmetric] of_int_1_le_iff)
  then have "1 / 2 ^ 57 \<le> \<bar>of_int a\<bar> / (2 ^ 57 :: rat)" by (simp add: divide_right_mono)
  then show ?thesis by (simp add: fx_def power_int_minus_divide)
qed

lemma in_b64_range_grid:
  assumes "on_grid r" and "\<bar>r\<bar> \<le> 20"
  shows "in_b64_range r"
proof (cases "r = 0")
  case True
  then show ?thesis by (simp add: in_b64_range_def)
next
  case False
  from assms(1) obtain a where r: "r = fx a" by (auto simp: on_grid_def)
  have "(2::rat) powi (- 1022) \<le> 2 powi (- 57)" by (simp only: powi2_le_iff)
  with fx_abs_ge [of a] False r have lo: "2 powi (- 1022) \<le> \<bar>r\<bar>" by simp
  have "(2::rat) powi 5 \<le> 2 powi 1024" by (simp only: powi2_le_iff)
  moreover have "(20::rat) < 2 powi 5" by simp
  ultimately have "\<bar>r\<bar> < 2 powi 1024" using assms(2) by linarith
  with lo show ?thesis by (simp add: in_b64_range_def)
qed

section \<open>Rounded values\<close>

lemma b64_between:
  assumes "2 powi lo \<le> x" and "x \<le> 2 powi hi"
  shows "2 powi lo \<le> b64 x" and "b64 x \<le> 2 powi hi"
  using b64_mono [OF assms(1)] b64_mono [OF assms(2)] by (simp_all add: b64_powi)

lemma b64_abs: "b64 \<bar>x\<bar> = \<bar>b64 x\<bar>"
proof (cases "0 \<le> x")
  case True
  with b64_mono [of 0 x] show ?thesis by simp
next
  case False
  then have "x < 0" by simp
  from b64_neg [OF this] this show ?thesis by (simp add: b64_minus)
qed

lemma in_b64_range_b64:
  assumes "x = 0 \<or> (2 powi lo \<le> \<bar>x\<bar> \<and> \<bar>x\<bar> \<le> 2 powi hi)" and "- 1022 \<le> lo" and "hi < 1024"
  shows "in_b64_range (b64 x)" and "b64 x = 0 \<or> (2 powi lo \<le> \<bar>b64 x\<bar> \<and> \<bar>b64 x\<bar> \<le> 2 powi hi)"
proof -
  show *: "b64 x = 0 \<or> (2 powi lo \<le> \<bar>b64 x\<bar> \<and> \<bar>b64 x\<bar> \<le> 2 powi hi)"
    using assms(1) b64_between [of lo "\<bar>x\<bar>" hi] by (auto simp: b64_abs)
  from assms(2) have "(2::rat) powi (- 1022) \<le> 2 powi lo" by (simp only: powi2_le_iff)
  moreover from assms(3) have "(2::rat) powi hi < 2 powi 1024"
    by (intro power_int_strict_increasing) simp_all
  ultimately have "(2::rat) powi (- 1022) \<le> 2 powi lo" "(2::rat) powi hi < 2 powi 1024" .
  with * show "in_b64_range (b64 x)" unfolding in_b64_range_def by linarith
qed

text \<open>
  The floats of \<^verbatim>\<open>calculate_timers\<close>: for a count of at most 1000 bits the converted
  count and its product with \<^verbatim>\<open>time_per_car\<close> are in the range of the model. (A
  count is a number of detections in an image.)
\<close>

theorem timing_floats_in_range:
  assumes "\<bar>count\<bar> \<le> 2 ^ 1000"
  shows "in_b64_range (float_of_int count)
    \<and> in_b64_range (float_mul (float_of_int count) time_per_car)
    \<and> in_b64_range (timer_for count)"
proof -
  let ?f = "float_of_int count"
  have c: "rat_of_int count = 0 \<or> (2 powi 0 \<le> \<bar>rat_of_int count\<bar> \<and> \<bar>rat_of_int count\<bar> \<le> 2 powi 1000)"
  proof (cases "count = 0")
    case False
    then have "1 \<le> \<bar>count\<bar>" by simp
    with assms have "rat_of_int 1 \<le> of_int \<bar>count\<bar>" "rat_of_int \<bar>count\<bar> \<le> of_int (2 ^ 1000)"
      by (simp_all only: of_int_le_iff)
    then show ?thesis by simp
  qed simp
  from in_b64_range_b64 [OF c] have f: "in_b64_range ?f"
    and fb: "?f = 0 \<or> (2 powi 0 \<le> \<bar>?f\<bar> \<and> \<bar>?f\<bar> \<le> 2 powi 1000)"
    by (simp_all add: float_of_int_def)
  have "(2::rat) powi 1001 = 2 * 2 powi 1000" using powi2_split [of 1 1000] by simp
  with fb have "?f * time_per_car = 0
      \<or> (2 powi 0 \<le> \<bar>?f * time_per_car\<bar> \<and> \<bar>?f * time_per_car\<bar> \<le> 2 powi 1001)"
    by (auto simp: time_per_car_def abs_mult)
  from in_b64_range_b64(1) [OF this] have "in_b64_range (float_mul ?f time_per_car)"
    by (simp add: float_mul_def)
  moreover have "in_b64_range (timer_for count)"
    using timer_for_range [of count] timer_value_timer_for [of count]
    by (intro in_b64_range_grid on_grid_timer_value) simp_all
  ultimately show ?thesis using f by simp
qed

theorem timing_floats_in_range_witness:
  "\<bar>10 :: int\<bar> \<le> 2 ^ 1000 \<and> in_b64_range (float_of_int 10)
   \<and> in_b64_range (float_mul (float_of_int 10) time_per_car) \<and> in_b64_range (timer_for 10)"
  using timing_floats_in_range [of 10] by simp

section \<open>Reachable states\<close>

lemma on_grid_advance_timer:
  assumes "advance_timer s = Inr s'" and "on_grid (timer_remaining s)" and "sched_inv s"
  shows "on_grid (timer_remaining s')"
proof (cases "float_sub (timer_remaining s) tick_delta \<le> 0")
  case True
  with assms(1) have "s' = switch_lane s"
    by (auto simp: advance_timer_def Let_def split: if_splits)
  with sched_inv_lane(1) [OF assms(3), of "(active_lane s + 1) mod 4"] show ?thesis
    by (simp add: on_grid_timer_value)
next
  case False
  with assms(1) have "s' = s\<lparr>timer_remaining := float_sub (timer_remaining s) tick_delta\<rparr>"
    by (simp add: advance_timer_continue)
  with assms(2) show ?thesis by (simp add: on_grid_float_sub)
qed

lemma on_grid_frame:
  assumes "frame events s = Inr s'" and "on_grid (timer_remaining s)" and "sched_inv s"
  shows "on_grid (timer_remaining s')"
proof -
  from frame_Inr [OF assms(3), of events] assms(1) obtain s1
    where s1: "advance_timer (handle_events events s) = Inr s1"
      and s': "s' = s1\<lparr>frame_count := frame_count s1 + 1\<rparr>" by auto
  from assms(2,3) have "on_grid (timer_remaining (handle_events events s))"
    and "sched_inv (handle_events events s)" by simp_all
  from on_grid_advance_timer [OF s1 this] show ?thesis by (simp add: s')
qed

lemma reachable_on_grid:
  assumes "reachable counts s" and "length counts = 4"
  shows "on_grid (timer_remaining s)"
  using assms(1)
proof (induction rule: reachable.induct)
  case (start s)
  from sched_inv_startup [OF start assms(2)] have inv: "sched_inv s" .
  from start assms(2) have "timer_remaining s = timers s ! 0 \<and> active_lane s = 0"
    by (auto simp: startup_def Let_def split: if_splits)
  with sched_inv_lane(1) [OF inv, of 0] show ?case by (simp add: on_grid_timer_value)
next
  case (step s events s')
  from reachable_sched_inv [OF step.hyps(1) assms(2)] have "sched_inv s" by simp
  from on_grid_frame [OF step.hyps(3) step.IH this] show ?case .
qed

text \<open>
  C40. The floats of the scheduler are in the range where the rounding of the model is
  the rounding of the machine. In every reachable state the timer, the result of the
  next subtraction and every green time are zero or have a magnitude in
  \<open>[2 powi (- 1022), 2 powi 1024)\<close>, and so has the frame period.
\<close>

theorem reachable_floats_in_range:
  assumes "reachable counts s" and "length counts = 4"
  shows "in_b64_range (timer_remaining s)
    \<and> in_b64_range (float_sub (timer_remaining s) tick_delta)
    \<and> list_all in_b64_range (timers s) \<and> in_b64_range tick_delta"
proof -
  from reachable_sched_inv [OF assms] have inv: "sched_inv s" by simp
  note g = reachable_on_grid [OF assms]
  note d = sched_invD [OF inv]
  note le = sched_inv_timer_le_20 [OF inv]
  from d(5) le have r: "\<bar>timer_remaining s\<bar> \<le> 20" by simp
  have t: "0 < tick_delta" "tick_delta \<le> 20" by (simp_all add: tick_delta_value)
  have "- tick_delta \<le> float_sub (timer_remaining s) tick_delta"
    unfolding float_sub_def using d(5) by (intro b64_ge_float) simp_all
  moreover from float_sub_tick_le [OF d(7)] le
  have "float_sub (timer_remaining s) tick_delta \<le> 20" by simp
  ultimately have r': "\<bar>float_sub (timer_remaining s) tick_delta\<bar> \<le> 20" using t by linarith
  have "in_b64_range (timer_for c)" for c
    using timer_for_range [of c] timer_value_timer_for [of c]
    by (intro in_b64_range_grid on_grid_timer_value) simp_all
  then have "list_all in_b64_range (timers s)"
    by (simp add: d(2) calculate_timers_map list_all_iff)
  moreover from t have "\<bar>tick_delta\<bar> \<le> 20" by linarith
  then have "in_b64_range tick_delta" by (rule in_b64_range_grid [OF on_grid_tick_delta])
  ultimately show ?thesis
    using in_b64_range_grid [OF g r] in_b64_range_grid [OF on_grid_float_sub [OF g] r']
    by simp
qed

theorem reachable_floats_in_range_witness:
  "reachable [10, 2, 10, 2] scenario_state \<and> length [10, 2, 10, 2 :: int] = 4
   \<and> in_b64_range 15 \<and> in_b64_range (float_sub 15 tick_delta)"
proof -
  have "startup [10, 2, 10, 2] = Inr scenario_state"
    by (simp add: startup_cases scenario_state_def calculate_timers_map)
  then have r: "reachable [10, 2, 10, 2] scenario_state" by (rule reachable.start)
  from reachable_floats_in_range [OF r] r show ?thesis by simp
qed

end
