(* ===== verification/Graphics.thy ===== *)
theory Graphics
  imports Signals
begin

text \<open>
  What the drawing functions of \<^verbatim>\<open>src/advanced_traffic_management.py\<close> share: the
  window and the palette of the module (lines 11 and 16-28), the three fonts (lines
  31-33), and the vocabulary of the model of drawing. A drawing function returns the
  list of the calls it makes on the window, in order, as values of \<open>command\<close>: one
  constructor per \<^verbatim>\<open>pygame\<close> call the program uses, with the arguments of the call.
  A list index out of range is the value \<open>Inl IndexError\<close>, as in theory \<open>Signals\<close>.

  \<open>py_range\<close> is Python's \<^verbatim>\<open>range(start, stop, step)\<close> for the positive steps the
  program uses; \<open>for_loop\<close> is a \<^verbatim>\<open>for\<close> loop whose body draws and may fail.
  \<open>Rect c r width radius\<close> is \<^verbatim>\<open>pygame.draw.rect(screen, c, r, width, border_radius=radius)\<close>
  with the defaults 0 where the call leaves an argument out (width 0 fills the
  rectangle), \<open>Line\<close>, \<open>Circle\<close> and \<open>Polygon\<close> the calls of the same name, \<open>Fill\<close> and
  \<open>Flip\<close> \<^verbatim>\<open>screen.fill\<close> and \<^verbatim>\<open>pygame.display.flip\<close>, and \<open>Blit f t c p\<close> the text
  \<open>t\<close> rendered in font \<open>f\<close> and colour \<open>c\<close> and copied to the window at \<open>p\<close>.
  \<open>Tick fps\<close> is \<^verbatim>\<open>clock.tick(fps)\<close>, the wait that ends a frame, and \<open>Quit\<close> is
  \<^verbatim>\<open>pygame.quit()\<close>.

  \<open>bbox\<close> is the upright rectangle spanned by the points that the arguments of a
  command name (corners, end points, vertices, centre and radius; the thickness of a
  line is left out, and a text has no box since its size is the font's);
  \<open>in_window\<close> says that it lies in the window. \<open>wf_command\<close> says that the arguments
  are ones that \<^verbatim>\<open>pygame\<close> accepts: colour components up to 255, rectangles and
  circles of positive size, polygons of at least three vertices. \<open>lamps\<close> and \<open>texts\<close>
  read the colours of the circles and the texts off a list of commands.
\<close>

section \<open>Definitions\<close>

definition screen_width :: int where
  "screen_width = 1000"

definition screen_height :: int where
  "screen_height = 1030"

definition ROAD_COLOR :: colour where
  "ROAD_COLOR = (60, 60, 60)"

definition LANE_COLOR :: colour where
  "LANE_COLOR = (200, 200, 200)"

definition CROSSWALK_COLOR :: colour where
  "CROSSWALK_COLOR = (250, 250, 250)"

definition ASPHALT_TEXTURE :: "colour list" where
  "ASPHALT_TEXTURE = [(55, 55, 55), (65, 65, 65), (50, 50, 50), (70, 70, 70)]"

definition WHITE :: colour where
  "WHITE = (255, 255, 255)"

definition GRAY :: colour where
  "GRAY = (30, 30, 30)"

definition PANEL_COLOR :: colour where
  "PANEL_COLOR = (40, 40, 40)"

datatype font = font_large | font_medium | font_small

primrec font_size :: "font \<Rightarrow> nat" where
  "font_size font_large = 36"
| "font_size font_medium = 28"
| "font_size font_small = 20"

type_synonym point = "int \<times> int"

datatype command =
    Fill colour
  | Rect colour "int \<times> int \<times> int \<times> int" nat nat
  | Line colour point point nat
  | Circle colour point nat
  | Polygon colour "point list"
  | Blit font string colour point
  | Flip
  | Tick nat
  | Quit

definition py_index :: "'a list \<Rightarrow> int \<Rightarrow> py_error + 'a" where
  "py_index xs i =
     (if 0 \<le> i \<and> i < int (length xs) then Inr (xs ! nat i)
      else if - int (length xs) \<le> i \<and> i < 0 then Inr (xs ! nat (i + int (length xs)))
      else Inl IndexError)"

definition py_range :: "int \<Rightarrow> int \<Rightarrow> int \<Rightarrow> int list" where
  "py_range start stop step =
     map (\<lambda>i. start + int i * step) [0..<nat ((stop - start + step - 1) div step)]"

fun for_loop :: "'a list \<Rightarrow> ('a \<Rightarrow> py_error + command list) \<Rightarrow> py_error + command list" where
  "for_loop [] body = Inr []"
| "for_loop (x # xs) body =
     (case body x of
        Inl e \<Rightarrow> Inl e
      | Inr cs \<Rightarrow> (case for_loop xs body of Inl e \<Rightarrow> Inl e | Inr ds \<Rightarrow> Inr (cs @ ds)))"

fun bbox :: "command \<Rightarrow> (int \<times> int \<times> int \<times> int) option" where
  "bbox (Rect c (x, y, w, h) width radius) = Some (x, y, x + w, y + h)"
| "bbox (Line c (xa, ya) (xb, yb) width) = Some (min xa xb, min ya yb, max xa xb, max ya yb)"
| "bbox (Circle c (x, y) r) = Some (x - int r, y - int r, x + int r, y + int r)"
| "bbox (Polygon c []) = None"
| "bbox (Polygon c (p # ps)) =
     Some (Min (set (map fst (p # ps))), Min (set (map snd (p # ps))),
           Max (set (map fst (p # ps))), Max (set (map snd (p # ps))))"
| "bbox _ = None"

definition box_within :: "int \<times> int \<times> int \<times> int \<Rightarrow> int \<times> int \<times> int \<times> int \<Rightarrow> bool" where
  "box_within inner outer \<longleftrightarrow>
     (case (inner, outer) of ((a, b, c, d), (l, t, r, u)) \<Rightarrow> l \<le> a \<and> t \<le> b \<and> c \<le> r \<and> d \<le> u)"

definition in_window :: "command \<Rightarrow> bool" where
  "in_window cmd \<longleftrightarrow>
     (case bbox cmd of None \<Rightarrow> True
      | Some box \<Rightarrow> box_within box (0, 0, screen_width, screen_height))"

definition wf_colour :: "colour \<Rightarrow> bool" where
  "wf_colour c \<longleftrightarrow> (case c of (r, g, b) \<Rightarrow> r \<le> 255 \<and> g \<le> 255 \<and> b \<le> 255)"

fun wf_command :: "command \<Rightarrow> bool" where
  "wf_command (Fill c) = wf_colour c"
| "wf_command (Rect c (x, y, w, h) width radius) = (wf_colour c \<and> 0 < w \<and> 0 < h)"
| "wf_command (Line c p q width) = (wf_colour c \<and> 0 < width)"
| "wf_command (Circle c p r) = (wf_colour c \<and> 0 < r)"
| "wf_command (Polygon c ps) = (wf_colour c \<and> 3 \<le> length ps)"
| "wf_command (Blit f text c p) = wf_colour c"
| "wf_command Flip = True"
| "wf_command (Tick fps) = (0 < fps)"
| "wf_command Quit = True"

definition inside :: "command \<Rightarrow> command \<Rightarrow> bool" where
  "inside c d \<longleftrightarrow>
     (case (bbox c, bbox d) of (Some a, Some b) \<Rightarrow> box_within a b | _ \<Rightarrow> False)"

fun circle_colour :: "command \<Rightarrow> colour option" where
  "circle_colour (Circle c p r) = Some c"
| "circle_colour _ = None"

fun blit_text :: "command \<Rightarrow> string option" where
  "blit_text (Blit f t c p) = Some t"
| "blit_text _ = None"

definition lamps :: "command list \<Rightarrow> colour list" where
  "lamps cs = List.map_filter circle_colour cs"

definition texts :: "command list \<Rightarrow> string list" where
  "texts cs = List.map_filter blit_text cs"

section \<open>Ranges and loops\<close>

lemma length_py_range [simp]:
  "length (py_range start stop step) = nat ((stop - start + step - 1) div step)"
  by (simp add: py_range_def)

lemma int_le_div_iff:
  fixes a b k :: int
  assumes "0 < b"
  shows "k \<le> a div b \<longleftrightarrow> k * b \<le> a"
proof
  assume "k \<le> a div b"
  with assms have "k * b \<le> a div b * b" by (simp add: mult_right_mono)
  also have "a div b * b = a - a mod b" by (simp add: minus_mod_eq_div_mult)
  also have "\<dots> \<le> a" using assms by simp
  finally show "k * b \<le> a" .
next
  assume "k * b \<le> a"
  from zdiv_mono1 [OF this assms] assms show "k \<le> a div b" by simp
qed

lemma py_range_index:
  assumes "0 < step"
  shows "i < nat ((stop - start + step - 1) div step) \<longleftrightarrow> start + int i * step < stop"
proof -
  have "int i + 1 \<le> (stop - start + step - 1) div step
      \<longleftrightarrow> (int i + 1) * step \<le> stop - start + step - 1"
    using assms by (rule int_le_div_iff)
  also have "\<dots> \<longleftrightarrow> start + int i * step < stop" by (auto simp: algebra_simps)
  finally show ?thesis by linarith
qed

lemma set_py_range:
  assumes "0 < step"
  shows "set (py_range start stop step) =
    {x. start \<le> x \<and> x < stop \<and> (x - start) mod step = 0}"
proof (intro set_eqI iffI)
  fix x
  assume "x \<in> set (py_range start stop step)"
  then obtain i where "i < nat ((stop - start + step - 1) div step)"
    and x: "x = start + int i * step" by (auto simp: py_range_def)
  with assms have "x < stop" by (simp only: py_range_index)
  with assms x show "x \<in> {x. start \<le> x \<and> x < stop \<and> (x - start) mod step = 0}" by simp
next
  fix x
  assume "x \<in> {x. start \<le> x \<and> x < stop \<and> (x - start) mod step = 0}"
  then have x: "start \<le> x" "x < stop" "(x - start) mod step = 0" by simp_all
  define k where "k = (x - start) div step"
  from x(3) have "step dvd x - start" by (simp only: dvd_eq_mod_eq_0)
  then have e: "x - start = k * step" by (simp only: k_def dvd_div_mult_self)
  from x(1) assms have k0: "0 \<le> k" by (simp add: k_def pos_imp_zdiv_nonneg_iff)
  with e have xk: "x = start + int (nat k) * step" by simp
  with x(2) assms have "nat k < nat ((stop - start + step - 1) div step)"
    by (simp only: py_range_index)
  then have "start + int (nat k) * step \<in> set (py_range start stop step)"
    unfolding py_range_def set_map set_upt by (intro imageI) simp
  with xk show "x \<in> set (py_range start stop step)" by simp
qed

lemma distinct_py_range: "0 < step \<Longrightarrow> distinct (py_range start stop step)"
  by (simp add: py_range_def distinct_map inj_on_def)

lemma for_loop_Inr:
  assumes "\<And>x. x \<in> set xs \<Longrightarrow> body x = Inr (f x)"
  shows "for_loop xs body = Inr (concat (map f xs))"
  using assms by (induction xs) simp_all

lemma for_loop_single:
  assumes "\<And>x. x \<in> set xs \<Longrightarrow> body x = Inr [f x]"
  shows "for_loop xs body = Inr (map f xs)"
  using assms by (induction xs) simp_all

lemma py_error_unique: "a = b" for a b :: py_error
  by (cases a; cases b) simp

lemma for_loop_Inl:
  "(\<exists>e. for_loop xs body = Inl e) \<longleftrightarrow> (\<exists>x \<in> set xs. \<exists>e. body x = Inl e)"
  by (induction xs) (auto split: sum.splits)

lemma length_concat_map_const:
  assumes "\<And>x. x \<in> set xs \<Longrightarrow> length (f x) = n"
  shows "length (concat (map f xs)) = length xs * n"
  using assms by (induction xs) simp_all

lemma list_all_concat_map:
  "list_all P (concat (map f xs)) \<longleftrightarrow> list_all (\<lambda>x. list_all P (f x)) xs"
  by (induction xs) simp_all

lemma list_all_py_range:
  assumes "0 < step" and "\<And>x. start \<le> x \<Longrightarrow> x < stop \<Longrightarrow> (x - start) mod step = 0 \<Longrightarrow> P x"
  shows "list_all P (py_range start stop step)"
  using assms by (simp add: list_all_iff set_py_range)

section \<open>Indexing\<close>

lemma py_index_Inr: "0 \<le> i \<Longrightarrow> i < int (length xs) \<Longrightarrow> py_index xs i = Inr (xs ! nat i)"
  by (simp add: py_index_def)

lemma py_index_Inl:
  "py_index xs i = Inl e \<longleftrightarrow> i < - int (length xs) \<or> int (length xs) \<le> i"
  by (cases e) (auto simp: py_index_def)

section \<open>Palette\<close>

lemma wf_colour_triple [simp]: "wf_colour (r, g, b) \<longleftrightarrow> r \<le> 255 \<and> g \<le> 255 \<and> b \<le> 255"
  by (simp add: wf_colour_def)

lemmas palette_defs = ROAD_COLOR_def LANE_COLOR_def CROSSWALK_COLOR_def WHITE_def GRAY_def
  PANEL_COLOR_def RED_def YELLOW_def GREEN_def BLACK_def

lemma wf_palette [simp]:
  "wf_colour ROAD_COLOR" "wf_colour LANE_COLOR" "wf_colour CROSSWALK_COLOR" "wf_colour WHITE"
  "wf_colour GRAY" "wf_colour PANEL_COLOR" "wf_colour RED" "wf_colour YELLOW"
  "wf_colour GREEN" "wf_colour BLACK"
  by (simp_all add: palette_defs)

section \<open>Boxes\<close>

lemma in_window_Rect [simp]:
  "in_window (Rect c (x, y, w, h) width radius) \<longleftrightarrow>
     0 \<le> x \<and> 0 \<le> y \<and> x + w \<le> screen_width \<and> y + h \<le> screen_height"
  by (simp add: in_window_def box_within_def)

lemma in_window_Line [simp]:
  "in_window (Line c (xa, ya) (xb, yb) width) \<longleftrightarrow>
     0 \<le> xa \<and> 0 \<le> xb \<and> 0 \<le> ya \<and> 0 \<le> yb
     \<and> xa \<le> screen_width \<and> xb \<le> screen_width \<and> ya \<le> screen_height \<and> yb \<le> screen_height"
  by (auto simp: in_window_def box_within_def)

lemma in_window_Circle [simp]:
  "in_window (Circle c (x, y) r) \<longleftrightarrow>
     int r \<le> x \<and> int r \<le> y \<and> x + int r \<le> screen_width \<and> y + int r \<le> screen_height"
  by (simp add: in_window_def box_within_def)

lemma in_window_Polygon [simp]:
  "in_window (Polygon c ps) \<longleftrightarrow>
     list_all (\<lambda>(x, y). 0 \<le> x \<and> x \<le> screen_width \<and> 0 \<le> y \<and> y \<le> screen_height) ps"
proof (cases ps)
  case Nil
  then show ?thesis by (simp add: in_window_def)
next
  case (Cons p qs)
  then have "in_window (Polygon c ps) \<longleftrightarrow>
    (\<forall>x \<in> fst ` set ps. 0 \<le> x \<and> x \<le> screen_width)
    \<and> (\<forall>y \<in> snd ` set ps. 0 \<le> y \<and> y \<le> screen_height)"
    by (auto simp: in_window_def box_within_def)
  then show ?thesis by (auto simp: list_all_iff)
qed

lemma in_window_other [simp]:
  "in_window (Fill c)" "in_window (Blit f t c p)" "in_window Flip" "in_window (Tick n)"
  "in_window Quit"
  by (simp_all add: in_window_def)

lemma lamps_simps [simp]:
  "lamps [] = []" "lamps (Circle c p r # cs) = c # lamps cs"
  "lamps (Rect c b w k # cs) = lamps cs" "lamps (Line c p q w # cs) = lamps cs"
  "lamps (Blit f t c p # cs) = lamps cs" "lamps (Polygon c ps # cs) = lamps cs"
  "lamps (Fill c # cs) = lamps cs" "lamps (Flip # cs) = lamps cs"
  "lamps (Tick n # cs) = lamps cs" "lamps (Quit # cs) = lamps cs"
  by (simp_all add: lamps_def)

lemma lamps_append [simp]: "lamps (cs @ ds) = lamps cs @ lamps ds"
  by (simp add: lamps_def map_filter_def)

lemma texts_simps [simp]:
  "texts [] = []" "texts (Blit f t c p # cs) = t # texts cs"
  "texts (Rect c b w k # cs) = texts cs" "texts (Line c p q w # cs) = texts cs"
  "texts (Circle c p r # cs) = texts cs" "texts (Polygon c ps # cs) = texts cs"
  "texts (Fill c # cs) = texts cs" "texts (Flip # cs) = texts cs"
  "texts (Tick n # cs) = texts cs" "texts (Quit # cs) = texts cs"
  by (simp_all add: texts_def)

lemma texts_append [simp]: "texts (cs @ ds) = texts cs @ texts ds"
  by (simp add: texts_def map_filter_def)

lemma texts_empty: "list_all (\<lambda>c. blit_text c = None) cs \<Longrightarrow> texts cs = []"
  by (induction cs) (simp_all add: texts_def)

lemma lamps_empty: "list_all (\<lambda>c. circle_colour c = None) cs \<Longrightarrow> lamps cs = []"
  by (induction cs) (simp_all add: lamps_def)

lemma wf_texture: "list_all wf_colour ASPHALT_TEXTURE"
  by (simp add: ASPHALT_TEXTURE_def)

end
