(* ===== verification/Intersection.thy ===== *)
theory Intersection
  imports Graphics
begin

text \<open>
  \<^verbatim>\<open>draw_intersection\<close> (lines 113-151 of \<^verbatim>\<open>src/advanced_traffic_management.py\<close>):
  the two textured roads, painted tile by tile in two nested loops each, the lane
  markings, the crosswalks and the four arrows, as the list of the drawing calls in
  the order the function makes them. The colour of a tile is read from
  \<^verbatim>\<open>ASPHALT_TEXTURE\<close> at an index computed from its position (lines 118 and 123); an
  index out of range would raise \<^verbatim>\<open>IndexError\<close>, so the roads and the function are
  values of \<open>py_error + command list\<close>.

  \<open>paint\<close> says which pixels a filled rectangle paints, \<open>hits\<close> lists the colours that
  a list of commands paints on a pixel and \<open>painted\<close> is the colour they leave on it,
  that of the last rectangle over it. \<open>tile\<close>, \<open>tiles\<close> and \<open>intersection_commands\<close> are
  the closed forms of a tile, a road and the whole drawing, which the loops are
  proved to compute.
\<close>

section \<open>Definitions\<close>

definition texture_color :: "int \<Rightarrow> int \<Rightarrow> py_error + colour" where
  "texture_color x y =
     py_index ASPHALT_TEXTURE ((x + y) div 10 mod int (length ASPHALT_TEXTURE))"

definition road_tile :: "int \<Rightarrow> int \<Rightarrow> py_error + command list" where
  "road_tile x y =
     (case texture_color x y of
        Inl e \<Rightarrow> Inl e
      | Inr color \<Rightarrow> Inr [Rect color (x, y, 5, 5) 0 0])"

definition vertical_road :: "py_error + command list" where
  "vertical_road =
     for_loop (py_range 0 1000 5) (\<lambda>y. for_loop (py_range 350 650 5) (\<lambda>x. road_tile x y))"

definition horizontal_road :: "py_error + command list" where
  "horizontal_road =
     for_loop (py_range 350 650 5) (\<lambda>y. for_loop (py_range 0 1000 5) (\<lambda>x. road_tile x y))"

definition lane_markings :: "command list" where
  "lane_markings =
     map (\<lambda>y. Line LANE_COLOR (500, y) (500, y + 30) 3) (py_range 0 350 50)
     @ map (\<lambda>y. Line LANE_COLOR (500, y) (500, y + 30) 3) (py_range 650 1000 50)
     @ map (\<lambda>x. Line LANE_COLOR (x, 500) (x + 30, 500) 3) (py_range 0 350 50)
     @ map (\<lambda>x. Line LANE_COLOR (x, 500) (x + 30, 500) 3) (py_range 650 1000 50)"

definition crosswalks :: "command list" where
  "crosswalks =
     concat (map (\<lambda>i. [Rect CROSSWALK_COLOR (450 + i * 20, 350, 10, 300) 0 0,
                        Rect CROSSWALK_COLOR (350, 450 + i * 20, 300, 10) 0 0])
               (py_range 0 5 1))"

definition arrow_n :: "point list" where
  "arrow_n = [(500, 100), (480, 130), (520, 130)]"

definition arrow_s :: "point list" where
  "arrow_s = [(500, 700), (480, 670), (520, 670)]"

definition arrow_e :: "point list" where
  "arrow_e = [(900, 500), (870, 480), (870, 520)]"

definition arrow_w :: "point list" where
  "arrow_w = [(100, 500), (130, 480), (130, 520)]"

definition lane_arrows :: "command list" where
  "lane_arrows =
     [Polygon WHITE arrow_n, Polygon WHITE arrow_s, Polygon WHITE arrow_e, Polygon WHITE arrow_w]"

definition draw_intersection :: "py_error + command list" where
  "draw_intersection =
     (case vertical_road of
        Inl e \<Rightarrow> Inl e
      | Inr v \<Rightarrow>
          (case horizontal_road of
             Inl e \<Rightarrow> Inl e
           | Inr h \<Rightarrow> Inr (v @ h @ lane_markings @ crosswalks @ lane_arrows)))"

definition tile :: "int \<Rightarrow> int \<Rightarrow> command" where
  "tile x y = Rect (ASPHALT_TEXTURE ! nat ((x + y) div 10 mod 4)) (x, y, 5, 5) 0 0"

definition tiles :: "int list \<Rightarrow> int list \<Rightarrow> command list" where
  "tiles xs ys = concat (map (\<lambda>y. map (\<lambda>x. tile x y) xs) ys)"

definition intersection_commands :: "command list" where
  "intersection_commands =
     tiles (py_range 350 650 5) (py_range 0 1000 5)
     @ tiles (py_range 0 1000 5) (py_range 350 650 5)
     @ lane_markings @ crosswalks @ lane_arrows"

fun paint :: "command \<Rightarrow> point \<Rightarrow> colour option" where
  "paint (Rect c (x, y, w, h) width radius) (px, py) =
     (if width = 0 \<and> radius = 0 \<and> x \<le> px \<and> px < x + w \<and> y \<le> py \<and> py < y + h
      then Some c else None)"
| "paint _ _ = None"

definition hits :: "command list \<Rightarrow> point \<Rightarrow> colour list" where
  "hits cs p = List.map_filter (\<lambda>c. paint c p) cs"

definition painted :: "command list \<Rightarrow> point \<Rightarrow> colour option" where
  "painted cs p = (if hits cs p = [] then None else Some (last (hits cs p)))"

definition on_road :: "point \<Rightarrow> bool" where
  "on_road p \<longleftrightarrow>
     (case p of (px, py) \<Rightarrow>
        350 \<le> px \<and> px < 650 \<and> 0 \<le> py \<and> py < 1000
        \<or> 0 \<le> px \<and> px < 1000 \<and> 350 \<le> py \<and> py < 650)"

definition asphalt :: "point \<Rightarrow> colour" where
  "asphalt p =
     (case p of (px, py) \<Rightarrow> ASPHALT_TEXTURE ! nat ((px div 5 + py div 5) div 2 mod 4))"

section \<open>The roads\<close>

lemma texture_color_Inr [simp]:
  "texture_color x y = Inr (ASPHALT_TEXTURE ! nat ((x + y) div 10 mod 4))"
proof -
  have "0 \<le> (x + y) div 10 mod 4" and "(x + y) div 10 mod 4 < 4" by simp_all
  then show ?thesis by (simp add: texture_color_def py_index_def ASPHALT_TEXTURE_def)
qed

lemma road_tile_Inr [simp]: "road_tile x y = Inr [tile x y]"
  by (simp add: road_tile_def tile_def)

lemma vertical_road_eq: "vertical_road = Inr (tiles (py_range 350 650 5) (py_range 0 1000 5))"
  unfolding vertical_road_def tiles_def
  by (intro for_loop_Inr for_loop_single) simp

lemma horizontal_road_eq:
  "horizontal_road = Inr (tiles (py_range 0 1000 5) (py_range 350 650 5))"
  unfolding horizontal_road_def tiles_def
  by (intro for_loop_Inr for_loop_single) simp

lemma draw_intersection_eq: "draw_intersection = Inr intersection_commands"
  by (simp add: draw_intersection_def vertical_road_eq horizontal_road_eq
      intersection_commands_def)

lemma length_tiles [simp]: "length (tiles xs ys) = length ys * length xs"
  unfolding tiles_def
  by (subst length_concat_map_const [where n = "length xs"]) simp_all

lemma list_all_tiles:
  "list_all P (tiles xs ys) \<longleftrightarrow> list_all (\<lambda>y. list_all (\<lambda>x. P (tile x y)) xs) ys"
  by (simp add: tiles_def list_all_concat_map list.pred_map comp_def)

lemma wf_tile [simp]: "wf_command (tile x y)"
proof -
  have "nat ((x + y) div 10 mod 4) < 4" by simp
  then have "wf_colour (ASPHALT_TEXTURE ! nat ((x + y) div 10 mod 4))"
    using wf_texture by (simp add: list_all_length ASPHALT_TEXTURE_def)
  then show ?thesis by (simp add: tile_def)
qed

lemma in_window_tile [simp]:
  "in_window (tile x y) \<longleftrightarrow> 0 \<le> x \<and> 0 \<le> y \<and> x \<le> 995 \<and> y \<le> 1025"
  by (auto simp: tile_def screen_width_def screen_height_def)

section \<open>The pixels of the roads\<close>

lemma hits_Nil [simp]: "hits [] p = []"
  by (simp add: hits_def)

lemma hits_append [simp]: "hits (cs @ ds) p = hits cs p @ hits ds p"
  by (simp add: hits_def map_filter_def)

lemma hits_concat_map: "hits (concat (map f xs)) p = concat (map (\<lambda>x. hits (f x) p) xs)"
  by (induction xs) simp_all

lemma hits_map: "hits (map f xs) p = concat (map (\<lambda>x. hits [f x] p) xs)"
  using hits_concat_map [of "\<lambda>x. [f x]" xs p] by simp

lemma hits_tile:
  "hits [tile x y] (px, py) =
     (if x \<le> px \<and> px < x + 5 \<and> y \<le> py \<and> py < y + 5
      then [ASPHALT_TEXTURE ! nat ((x + y) div 10 mod 4)] else [])"
  by (simp add: hits_def tile_def)

lemma select_upt: "concat (map (\<lambda>i. if i = k then g i else []) [0..<n]) = (if k < n then g k else [])"
  by (induction n) auto

lemma tile_index:
  fixes p start step :: int
  assumes "0 < step"
  shows "start + int i * step \<le> p \<and> p < start + int i * step + step
    \<longleftrightarrow> start \<le> p \<and> i = nat ((p - start) div step)"
proof
  assume a: "start + int i * step \<le> p \<and> p < start + int i * step + step"
  then have "p - start = step * int i + (p - start - int i * step)"
    and "0 \<le> p - start - int i * step" and "p - start - int i * step < step"
    by (simp_all add: algebra_simps)
  then have "(p - start) div step = int i" by (rule int_div_pos_eq)
  moreover from a assms have "start \<le> p"
    by (meson le_add_same_cancel1 mult_nonneg_nonneg of_nat_0_le_iff less_imp_le order_trans)
  ultimately show "start \<le> p \<and> i = nat ((p - start) div step)" by simp
next
  assume a: "start \<le> p \<and> i = nat ((p - start) div step)"
  with assms have "int i = (p - start) div step" by (simp add: pos_imp_zdiv_nonneg_iff)
  then have "p - start = int i * step + (p - start) mod step" by simp
  moreover from assms have "0 \<le> (p - start) mod step" "(p - start) mod step < step" by simp_all
  ultimately show "start + int i * step \<le> p \<and> p < start + int i * step + step" by linarith
qed

lemma select_py_range:
  assumes "0 < step"
  shows "concat (map (\<lambda>x. if x \<le> p \<and> p < x + step then g x else [])
      (py_range start stop step))
    = (if start \<le> p \<and> start + (p - start) div step * step < stop
       then g (start + (p - start) div step * step) else [])"
proof -
  let ?k = "nat ((p - start) div step)"
  let ?n = "nat ((stop - start + step - 1) div step)"
  have "concat (map (\<lambda>x. if x \<le> p \<and> p < x + step then g x else [])
      (py_range start stop step))
    = concat (map (\<lambda>i. if i = ?k then (if start \<le> p then g (start + int i * step) else [])
        else []) [0..<?n])"
    unfolding py_range_def map_map comp_def
    by (intro arg_cong [where f = concat] map_cong refl) (simp add: tile_index [OF assms])
  also have "\<dots> = (if ?k < ?n then (if start \<le> p then g (start + int ?k * step) else []) else [])"
    by (rule select_upt)
  also have "\<dots> = (if start \<le> p \<and> start + (p - start) div step * step < stop
       then g (start + (p - start) div step * step) else [])"
  proof (cases "start \<le> p")
    case True
    with assms have "int ?k = (p - start) div step" by (simp add: pos_imp_zdiv_nonneg_iff)
    with py_range_index [OF assms, of ?k stop start] True show ?thesis by simp
  next
    case False
    then show ?thesis by simp
  qed
  finally show ?thesis .
qed

lemma hits_tiles:
  "hits (tiles (py_range xa xb 5) (py_range ya yb 5)) (px, py) =
     (if xa \<le> px \<and> xa + (px - xa) div 5 * 5 < xb \<and> ya \<le> py \<and> ya + (py - ya) div 5 * 5 < yb
      then [ASPHALT_TEXTURE !
        nat ((xa + (px - xa) div 5 * 5 + (ya + (py - ya) div 5 * 5)) div 10 mod 4)]
      else [])"
proof -
  have row: "hits (map (\<lambda>x. tile x y) (py_range xa xb 5)) (px, py) =
      (if y \<le> py \<and> py < y + 5
       then (if xa \<le> px \<and> xa + (px - xa) div 5 * 5 < xb
         then [ASPHALT_TEXTURE ! nat ((xa + (px - xa) div 5 * 5 + y) div 10 mod 4)] else [])
       else [])" for y
  proof (cases "y \<le> py \<and> py < y + 5")
    case True
    then show ?thesis
      using select_py_range [of 5 px "\<lambda>x. [ASPHALT_TEXTURE ! nat ((x + y) div 10 mod 4)]" xa xb]
      by (simp add: hits_map hits_tile)
  next
    case False
    then show ?thesis by (auto simp: hits_map hits_tile)
  qed
  show ?thesis
    unfolding tiles_def hits_concat_map [of "\<lambda>y. map (\<lambda>x. tile x y) (py_range xa xb 5)"] row
    using select_py_range [of 5 py "\<lambda>y. if xa \<le> px \<and> xa + (px - xa) div 5 * 5 < xb
         then [ASPHALT_TEXTURE ! nat ((xa + (px - xa) div 5 * 5 + y) div 10 mod 4)] else []" ya yb]
    by simp
qed

lemma tile_origin:
  fixes p a :: int
  assumes "a mod 5 = 0"
  shows "a + (p - a) div 5 * 5 = p div 5 * 5"
  using assms by presburger

lemma tile_colour:
  fixes px py :: int
  shows "(px div 5 * 5 + py div 5 * 5) div 10 = (px div 5 + py div 5) div 2"
  by presburger

section \<open>Markings, crosswalks and arrows\<close>

lemma length_lane_markings [simp]: "length lane_markings = 28"
  by (simp add: lane_markings_def)

lemma length_crosswalks [simp]: "length crosswalks = 10"
  by (simp add: crosswalks_def length_concat_map_const [where n = 2])

lemma wf_lane_markings: "list_all wf_command lane_markings"
  by (auto simp: lane_markings_def list_all_iff)

lemma in_window_lane_markings: "list_all in_window lane_markings"
  unfolding lane_markings_def list_all_append list.pred_map comp_def
  by (intro conjI list_all_py_range; simp add: screen_width_def screen_height_def; presburger)

lemma wf_crosswalks: "list_all wf_command crosswalks"
  by (simp add: crosswalks_def list_all_concat_map list_all_iff)

lemma in_window_crosswalks: "list_all in_window crosswalks"
  unfolding crosswalks_def list_all_concat_map
  by (intro list_all_py_range) (simp_all add: screen_width_def screen_height_def)

lemmas arrow_defs = arrow_n_def arrow_s_def arrow_e_def arrow_w_def

lemma length_lane_arrows [simp]: "length lane_arrows = 4"
  by (simp add: lane_arrows_def)

lemma wf_lane_arrows: "list_all wf_command lane_arrows"
  by (simp add: lane_arrows_def arrow_defs)

lemma in_window_lane_arrows: "list_all in_window lane_arrows"
  by (simp add: lane_arrows_def arrow_defs screen_width_def screen_height_def)

section \<open>The whole drawing\<close>

lemma wf_tiles: "list_all wf_command (tiles xs ys)"
  unfolding list_all_tiles by (simp add: list_all_iff)

lemma in_window_vertical_road: "list_all in_window (tiles (py_range 350 650 5) (py_range 0 1000 5))"
  unfolding list_all_tiles
  by (intro list_all_py_range; simp; presburger)

lemma in_window_horizontal_road:
  "list_all in_window (tiles (py_range 0 1000 5) (py_range 350 650 5))"
  unfolding list_all_tiles
  by (intro list_all_py_range; simp; presburger)

lemma length_intersection_commands [simp]: "length intersection_commands = 24042"
  by (simp add: intersection_commands_def)

lemma wf_intersection_commands: "list_all wf_command intersection_commands"
  by (simp add: intersection_commands_def wf_tiles wf_lane_markings wf_crosswalks
      wf_lane_arrows)

lemma in_window_intersection_commands: "list_all in_window intersection_commands"
  by (simp add: intersection_commands_def in_window_vertical_road in_window_horizontal_road
      in_window_lane_markings in_window_crosswalks in_window_lane_arrows)

lemma intersection_shapes:
  "list_all (\<lambda>c. blit_text c = None \<and> circle_colour c = None) intersection_commands"
  by (simp add: intersection_commands_def list_all_tiles tile_def lane_markings_def
      crosswalks_def lane_arrows_def list_all_concat_map list.pred_map comp_def list.pred_True)

lemma texts_intersection_commands [simp]: "texts intersection_commands = []"
  using intersection_shapes by (intro texts_empty) (simp add: list_all_iff)

lemma lamps_intersection_commands [simp]: "lamps intersection_commands = []"
  using intersection_shapes by (intro lamps_empty) (simp add: list_all_iff)

text \<open>
  C15. \<^verbatim>\<open>draw_intersection\<close> never raises: the texture index \<^verbatim>\<open>(x+y)//10 % 4\<close> is always
  in range. It makes 24042 drawing calls (two roads of 12000 tiles each, 28 lane
  markings, 10 crosswalk stripes, 4 arrows), each with arguments that \<^verbatim>\<open>pygame\<close>
  accepts and each inside the window of 1000 by 1030 pixels.
\<close>

theorem draw_intersection_total:
  "\<exists>cs. draw_intersection = Inr cs \<and> length cs = 24042
     \<and> list_all wf_command cs \<and> list_all in_window cs"
  by (simp add: draw_intersection_eq wf_intersection_commands in_window_intersection_commands)

text \<open>
  C28. The two road loops paint exactly the cross formed by the vertical road
  (columns 350 to 649, rows 0 to 999) and the horizontal road (rows 350 to 649,
  columns 0 to 999). A pixel of the cross gets the colour of \<^verbatim>\<open>ASPHALT_TEXTURE\<close> with
  index \<^verbatim>\<open>((px//5 + py//5)//2) % 4\<close>, also on the crossing, which both loops paint; a
  pixel outside the cross is left as it was.
\<close>

theorem road_painted:
  "\<exists>v h. vertical_road = Inr v \<and> horizontal_road = Inr h
     \<and> painted (v @ h) p = (if on_road p then Some (asphalt p) else None)"
proof -
  obtain px py where p: "p = (px, py)" by (cases p)
  have o: "350 + (px - 350) div 5 * 5 = px div 5 * 5" "0 + (px - 0) div 5 * 5 = px div 5 * 5"
    "350 + (py - 350) div 5 * 5 = py div 5 * 5" "0 + (py - 0) div 5 * 5 = py div 5 * 5"
    by (rule tile_origin; simp)+
  have lt: "px div 5 * 5 < 650 \<longleftrightarrow> px < 650" "px div 5 * 5 < 1000 \<longleftrightarrow> px < 1000"
    "py div 5 * 5 < 650 \<longleftrightarrow> py < 650" "py div 5 * 5 < 1000 \<longleftrightarrow> py < 1000"
    by presburger+
  show ?thesis
    unfolding vertical_road_eq horizontal_road_eq p
    by (simp add: painted_def hits_tiles o lt tile_colour on_road_def asphalt_def)
qed

end
