(* ===== verification/Text_Format.thy ===== *)
theory Text_Format
  imports Binary64
begin

text \<open>
  The texts that \<^verbatim>\<open>src/advanced_traffic_management.py\<close> formats for the window
  (lines 194, 195, 207 and 208) are built from three conversions of Python:
  \<^verbatim>\<open>str\<close> of an integer (\<open>py_str\<close>), a float with the format \<^verbatim>\<open>.1f\<close> (\<open>format_1f\<close>)
  and \<^verbatim>\<open>str\<close> of a float (\<open>float_str\<close>).

  \<open>format_1f\<close> rounds the exact value of the float to one decimal, ties to the even
  digit, and prints the sign of a negative float also when all digits are zero.
  \<open>float_str\<close> is the shortest text that reads back as the same float; the model
  gives it for the floats that are multiples of one half below \<open>10 ^ 16\<close>
  (\<open>short_float\<close>), for which it is the integer part, a point and the digit 0 or 5.
  Every green time is such a float (\<open>Display\<close> proves it). The float \<open>-0.0\<close> is not
  told apart from \<open>0.0\<close>.

  \<open>parse_int\<close> and \<open>parse_fixed\<close> read a decimal numeral and a numeral with one
  decimal back; they are the reference against which the printed texts are checked.
\<close>

section \<open>Definitions\<close>

definition digit_char :: "nat \<Rightarrow> char" where
  "digit_char d = char_of (48 + d)"

fun str_nat :: "nat \<Rightarrow> string" where
  "str_nat n = (if n < 10 then [digit_char n] else str_nat (n div 10) @ [digit_char (n mod 10)])"

definition py_str :: "int \<Rightarrow> string" where
  "py_str i = (if i < 0 then CHR ''-'' # str_nat (nat (- i)) else str_nat (nat i))"

definition fixed1 :: "bool \<Rightarrow> nat \<Rightarrow> string" where
  "fixed1 negative tenths =
     (if negative then ''-'' else '''') @ str_nat (tenths div 10) @ ''.''
       @ [digit_char (tenths mod 10)]"

definition format_1f :: "rat \<Rightarrow> string" where
  "format_1f x = fixed1 (x < 0) (nat (rhe (\<bar>x\<bar> * 10)))"

definition short_float :: "rat \<Rightarrow> bool" where
  "short_float x \<longleftrightarrow> of_int \<lfloor>2 * x\<rfloor> = 2 * x \<and> \<bar>x\<bar> < 10 ^ 16"

definition float_str :: "rat \<Rightarrow> string" where
  "float_str x = fixed1 (x < 0) (nat \<lfloor>\<bar>x\<bar> * 10\<rfloor>)"

definition digit_of :: "char \<Rightarrow> nat option" where
  "digit_of c = (let k = of_char c :: nat in if 48 \<le> k \<and> k \<le> 57 then Some (k - 48) else None)"

fun digits_value :: "string \<Rightarrow> nat \<Rightarrow> nat option" where
  "digits_value [] acc = Some acc"
| "digits_value (c # cs) acc =
     (case digit_of c of None \<Rightarrow> None | Some d \<Rightarrow> digits_value cs (10 * acc + d))"

definition parse_nat :: "string \<Rightarrow> nat option" where
  "parse_nat s = (if s = [] then None else digits_value s 0)"

definition parse_int :: "string \<Rightarrow> int option" where
  "parse_int s =
     (if s \<noteq> [] \<and> hd s = CHR ''-'' then map_option (\<lambda>n. - int n) (parse_nat (tl s))
      else map_option int (parse_nat s))"

definition parse_tenths :: "string \<Rightarrow> nat option" where
  "parse_tenths s =
     (case rev s of
        d # dot # r \<Rightarrow>
          (if dot = CHR ''.'' then
             (case (parse_nat (rev r), digit_of d) of
                (Some n, Some k) \<Rightarrow> Some (10 * n + k)
              | _ \<Rightarrow> None)
           else None)
      | _ \<Rightarrow> None)"

definition parse_fixed :: "string \<Rightarrow> rat option" where
  "parse_fixed s =
     (if s \<noteq> [] \<and> hd s = CHR ''-'' then map_option (\<lambda>n. - (of_nat n / 10)) (parse_tenths (tl s))
      else map_option (\<lambda>n. of_nat n / 10) (parse_tenths s))"

definition strip_prefix :: "string \<Rightarrow> string \<Rightarrow> string option" where
  "strip_prefix pre s = (if take (length pre) s = pre then Some (drop (length pre) s) else None)"

definition strip_suffix :: "string \<Rightarrow> string \<Rightarrow> string option" where
  "strip_suffix suf s = map_option rev (strip_prefix (rev suf) (rev s))"

section \<open>Digits\<close>

declare str_nat.simps [simp del]

lemma digit_of_digit_char [simp]: "d < 10 \<Longrightarrow> digit_of (digit_char d) = Some d"
  by (simp add: digit_of_def digit_char_def)

lemma digit_of_minus [simp]: "digit_of CHR ''-'' = None"
  by (simp add: digit_of_def)

lemma digit_of_point [simp]: "digit_of CHR ''.'' = None"
  by (simp add: digit_of_def)

lemma str_nat_nonempty [simp]: "str_nat n \<noteq> []"
  by (subst str_nat.simps) simp

lemma digits_value_append:
  "digits_value (s @ t) acc =
     (case digits_value s acc of None \<Rightarrow> None | Some a \<Rightarrow> digits_value t a)"
  by (induction s arbitrary: acc) (simp_all split: option.splits)

lemma digits_value_str_nat [simp]: "digits_value (str_nat n) 0 = Some n"
proof (induction n rule: str_nat.induct)
  case (1 n)
  show ?case
  proof (cases "n < 10")
    case True
    then show ?thesis by (subst str_nat.simps) simp
  next
    case False
    with 1 show ?thesis by (subst str_nat.simps) (simp add: digits_value_append)
  qed
qed

lemma parse_nat_str_nat [simp]: "parse_nat (str_nat n) = Some n"
  by (simp add: parse_nat_def)

lemma hd_str_nat_digit: "digit_of (hd (str_nat n)) \<noteq> None"
proof (induction n rule: str_nat.induct)
  case (1 n)
  show ?case
  proof (cases "n < 10")
    case True
    then show ?thesis by (subst str_nat.simps) simp
  next
    case False
    with 1 show ?thesis by (subst str_nat.simps) simp
  qed
qed

lemma hd_str_nat [simp]: "hd (str_nat n) \<noteq> CHR ''-''"
  using hd_str_nat_digit [of n] by auto

section \<open>Integers\<close>

lemma parse_int_py_str: "parse_int (py_str i) = Some i"
  by (simp add: parse_int_def py_str_def)

lemma py_str_inj: "py_str i = py_str j \<longleftrightarrow> i = j"
  by (metis parse_int_py_str option.inject)

section \<open>One decimal\<close>

lemma parse_tenths_fixed1 [simp]:
  "parse_tenths (str_nat (t div 10) @ [CHR ''.'', digit_char (t mod 10)]) = Some t"
  by (simp add: parse_tenths_def)

lemma parse_fixed_fixed1:
  "parse_fixed (fixed1 neg t) = Some (if neg then - (of_nat t / 10) else of_nat t / 10)"
  by (simp add: parse_fixed_def fixed1_def)

lemma parse_fixed_format_1f: "parse_fixed (format_1f x) = Some (of_int (rhe (x * 10)) / 10)"
proof (cases "x < 0")
  case True
  then have "rhe (\<bar>x\<bar> * 10) = - rhe (x * 10)" by (simp add: rhe_minus [symmetric])
  moreover from True have "rhe (x * 10) \<le> 0"
    using rhe_mono [of "x * 10" 0] by (simp add: rhe_of_int [of 0, simplified])
  ultimately show ?thesis using True by (simp add: format_1f_def parse_fixed_fixed1)
next
  case False
  then have "0 \<le> rhe (x * 10)"
    using rhe_mono [of 0 "x * 10"] by (simp add: rhe_of_int [of 0, simplified])
  with False show ?thesis by (simp add: format_1f_def parse_fixed_fixed1)
qed

lemma format_1f_error:
  assumes "parse_fixed (format_1f x) = Some y"
  shows "\<bar>y - x\<bar> \<le> 1 / 20"
proof -
  from assms have y: "y = of_int (rhe (x * 10)) / 10" by (simp add: parse_fixed_format_1f)
  define r :: rat where "r = of_int (rhe (x * 10))"
  from rhe_lower [of "x * 10"] rhe_upper [of "x * 10"]
  have "r - 1 / 2 \<le> x * 10" "x * 10 \<le> r + 1 / 2" by (simp_all only: r_def)
  moreover from y have "y * 10 = r" by (simp add: r_def)
  ultimately show ?thesis by linarith
qed

lemma parse_fixed_float_str:
  assumes "of_int \<lfloor>10 * x\<rfloor> = 10 * x"
  shows "parse_fixed (float_str x) = Some x"
proof -
  define n where "n = \<lfloor>10 * x\<rfloor>"
  from assms have e: "10 * x = of_int n" by (simp only: n_def)
  have "\<bar>x\<bar> * 10 = \<bar>10 * x\<bar>" by (simp add: abs_mult)
  also have "\<dots> = of_int \<bar>n\<bar>" by (simp only: e of_int_abs)
  finally have a: "\<bar>x\<bar> * 10 = of_int \<bar>n\<bar>" .
  then have t: "(of_nat (nat \<lfloor>\<bar>x\<bar> * 10\<rfloor>) :: rat) = \<bar>x\<bar> * 10"
    by (simp only: floor_of_int of_nat_nat abs_ge_zero)
  show ?thesis unfolding float_str_def parse_fixed_fixed1 t by simp
qed

lemma short_float_tenths: "short_float x \<Longrightarrow> of_int \<lfloor>10 * x\<rfloor> = 10 * x"
proof -
  assume "short_float x"
  then have "of_int \<lfloor>2 * x\<rfloor> = 2 * x" unfolding short_float_def ..
  then have "10 * x = of_int (5 * \<lfloor>2 * x\<rfloor>)" by (simp only: of_int_mult of_int_numeral)
  then show ?thesis by (simp only: floor_of_int)
qed

lemma hd_fixed1: "hd (fixed1 neg t) = CHR ''-'' \<longleftrightarrow> neg"
  by (simp add: fixed1_def hd_append)

lemma fixed1_nonempty [simp]: "fixed1 neg t \<noteq> []"
  by (simp add: fixed1_def)

lemma format_1f_sign: "hd (format_1f x) = CHR ''-'' \<longleftrightarrow> x < 0"
  by (simp add: format_1f_def hd_fixed1)

lemma format_1f_nonempty [simp]: "format_1f x \<noteq> []"
  by (simp add: format_1f_def)

section \<open>Prefixes and suffixes\<close>

lemma strip_prefix_append [simp]: "strip_prefix pre (pre @ s) = Some s"
  by (simp add: strip_prefix_def)

lemma strip_suffix_append [simp]: "strip_suffix suf (s @ suf) = Some s"
  by (simp add: strip_suffix_def)

end
