(* ===== verification/Display.thy ===== *)
theory Display
  imports Graphics Text_Format
begin

text \<open>
  The drawing of \<^verbatim>\<open>draw_signals\<close> (lines 162-199 of
  \<^verbatim>\<open>src/advanced_traffic_management.py\<close>): for each entry of the table of signals the
  housing, the three texture lines, the three lamps and the information box with the
  direction, the count and the time, as the list of the drawing calls in order.
  \<open>draw_signals_commands\<close> is the whole function; theory \<open>Signals\<close> holds what it
  decides to show, and the lemmas here relate the two.

  The width of a rendered text (\<^verbatim>\<open>get_width()\<close>) is the font's business and enters as
  the parameter \<open>get_width\<close>. \<open>read_count\<close> and \<open>read_time\<close> read the printed count
  and time back.
\<close>

section \<open>Definitions\<close>

definition signal_housing :: "signal_entry \<Rightarrow> command list" where
  "signal_housing entry =
     (let x = sig_x entry; y = sig_y entry in
      if sig_direction entry = ''South'' then
        [Rect (80, 80, 80) (x - 30, y - 150, 60, 240) 0 10,
         Rect (120, 120, 120) (x - 28, y - 148, 56, 236) 0 8]
      else
        [Rect (80, 80, 80) (x - 30, y - 110, 60, 240) 0 10,
         Rect (120, 120, 120) (x - 28, y - 108, 56, 236) 0 8])"

definition texture_lines :: "signal_entry \<Rightarrow> command list" where
  "texture_lines entry =
     (let x = sig_x entry; y = sig_y entry in
      map (\<lambda>i. Line (150, 150, 150) (x - 25, y - 100 + i * 80) (x + 25, y - 100 + i * 80) 2)
        (py_range 0 3 1))"

definition draw_lights :: "signal_entry \<Rightarrow> colour list \<Rightarrow> command list" where
  "draw_lights entry colors =
     (let x = sig_x entry; y = sig_y entry in
      map (\<lambda>(i, color). Circle color (x, y - 80 + int i * 80) 20) (enumerate 0 colors))"

definition count_text :: "vehicle_count \<Rightarrow> string" where
  "count_text count = py_str count @ '' cars''"

definition time_text :: "lane \<Rightarrow> nat \<Rightarrow> seconds \<Rightarrow> seconds \<Rightarrow> string" where
  "time_text active_lane idx timer_remaining total_time =
     (if active_lane = idx then format_1f timer_remaining @ ''s''
      else float_str total_time @ ''s'')"

definition info_display ::
  "(font \<Rightarrow> string \<Rightarrow> int) \<Rightarrow> lane \<Rightarrow> seconds \<Rightarrow> nat \<Rightarrow> signal_entry \<Rightarrow> command list" where
  "info_display get_width active_lane timer_remaining idx entry =
     (let x = sig_x entry; y = sig_y entry;
          info_bg = (x - 50, y + 100, 100, 60);
          dir_text = sig_direction entry;
          cnt_text = count_text (sig_count entry);
          tm_text = time_text active_lane idx timer_remaining (sig_total_time entry)
      in [Rect PANEL_COLOR info_bg 0 5,
          Rect (100, 100, 100) info_bg 2 5,
          Blit font_small dir_text WHITE (x - get_width font_small dir_text div 2, y + 105),
          Blit font_medium cnt_text WHITE (x - get_width font_medium cnt_text div 2, y + 125),
          Blit font_small tm_text WHITE (x - get_width font_small tm_text div 2, y + 145)])"

definition draw_signal ::
  "(font \<Rightarrow> string \<Rightarrow> int) \<Rightarrow> lane \<Rightarrow> seconds \<Rightarrow> nat \<Rightarrow> signal_entry \<Rightarrow> command list" where
  "draw_signal get_width active_lane timer_remaining idx entry =
     signal_housing entry @ texture_lines entry
     @ draw_lights entry (light_colors active_lane idx timer_remaining)
     @ info_display get_width active_lane timer_remaining idx entry"

definition draw_signals_commands ::
  "(font \<Rightarrow> string \<Rightarrow> int) \<Rightarrow> lane \<Rightarrow> vehicle_count list \<Rightarrow> seconds list \<Rightarrow> seconds \<Rightarrow> nat
    \<Rightarrow> py_error + command list" where
  "draw_signals_commands get_width active_lane car_counts timers timer_remaining frame_count =
     (case signals_table active_lane car_counts timers of
        Inl e \<Rightarrow> Inl e
      | Inr signals \<Rightarrow>
          Inr (concat (map (\<lambda>(idx, entry).
                 draw_signal get_width active_lane timer_remaining idx entry)
               (enumerate 0 signals))))"

definition read_count :: "string \<Rightarrow> int option" where
  "read_count s = Option.bind (strip_suffix '' cars'' s) parse_int"

definition read_time :: "string \<Rightarrow> rat option" where
  "read_time s = Option.bind (strip_suffix ''s'' s) parse_fixed"

fun read_texts :: "string list \<Rightarrow> (string \<times> int option \<times> rat option) list" where
  "read_texts (d # c # t # rest) = (d, read_count c, read_time t) # read_texts rest"
| "read_texts _ = []"

definition lamps_enclosed :: "signal_entry \<Rightarrow> colour list \<Rightarrow> bool" where
  "lamps_enclosed entry colors \<longleftrightarrow>
     list_all (\<lambda>c. inside c (hd (signal_housing entry))) (draw_lights entry colors)"

section \<open>One signal\<close>

lemma py_range_3 [simp]: "py_range 0 3 1 = [0, 1, 2]"
  by (simp add: py_range_def upt_rec)

lemma enumerate_3: "enumerate 0 [a, b, c] = [(0, a), (1, b), (2, c)]"
  by (simp add: eval_nat_numeral)

lemma length_light_colors [simp]: "length (light_colors a idx r) = 3"
  by (simp add: light_colors_def)

lemma light_colors_eq: "\<exists>a' b c. light_colors a idx r = [a', b, c]"
  by (simp add: light_colors_def)

lemma wf_light_colors: "list_all wf_colour (light_colors a idx r)"
  by (simp add: light_colors_def)

lemma length_draw_signal [simp]: "length (draw_signal gw a r idx entry) = 13"
  by (simp add: draw_signal_def signal_housing_def texture_lines_def draw_lights_def
      info_display_def Let_def)

lemma wf_draw_signal: "list_all wf_command (draw_signal gw a r idx entry)"
proof -
  obtain a' b c where l: "light_colors a idx r = [a', b, c]"
    using light_colors_eq by blast
  with wf_light_colors [of a idx r]
  have "list_all wf_command (draw_lights entry (light_colors a idx r))"
    by (simp add: draw_lights_def Let_def enumerate_3 del: enumerate_simps)
  then show ?thesis
    by (simp add: draw_signal_def signal_housing_def texture_lines_def info_display_def Let_def)
qed

lemma lamps_draw_signal [simp]:
  "lamps (draw_signal gw a r idx entry) = light_colors a idx r"
proof -
  obtain a' b c where l: "light_colors a idx r = [a', b, c]"
    using light_colors_eq by blast
  show ?thesis
    by (simp add: draw_signal_def signal_housing_def texture_lines_def draw_lights_def
        info_display_def Let_def l enumerate_3 del: enumerate_simps)
qed

lemma texts_draw_signal [simp]:
  "texts (draw_signal gw a r idx entry) =
     [sig_direction entry, count_text (sig_count entry),
      time_text a idx r (sig_total_time entry)]"
proof -
  obtain a' b c where l: "light_colors a idx r = [a', b, c]"
    using light_colors_eq by blast
  show ?thesis
    by (simp add: draw_signal_def signal_housing_def texture_lines_def draw_lights_def
        info_display_def Let_def l enumerate_3 del: enumerate_simps)
qed

section \<open>The texts\<close>

lemma read_count_text [simp]: "read_count (count_text c) = Some c"
  by (simp add: read_count_def count_text_def parse_int_py_str)

lemma read_time_active: "read_time (time_text a a r t) = Some (of_int (rhe (r * 10)) / 10)"
  by (simp add: read_time_def time_text_def parse_fixed_format_1f)

lemma read_time_inactive:
  "a \<noteq> idx \<Longrightarrow> short_float t \<Longrightarrow> read_time (time_text a idx r t) = Some t"
  by (simp add: read_time_def time_text_def parse_fixed_float_str short_float_tenths)

lemma read_time_text:
  "short_float t \<Longrightarrow>
     read_time (time_text a idx r t) = Some (if a = idx then of_int (rhe (r * 10)) / 10 else t)"
  by (simp add: read_time_active read_time_inactive)

lemma short_float_timer_value: "timer_value t \<Longrightarrow> short_float t"
proof -
  assume "timer_value t"
  then obtain n :: int where "t = of_int n / 2" and "5 \<le> t" and "t \<le> 20"
    by (auto simp: timer_value_def)
  then have "2 * t = of_int n" and "\<bar>t\<bar> < 10 ^ 16" by simp_all
  then have "of_int \<lfloor>2 * t\<rfloor> = 2 * t" and "\<bar>t\<bar> < 10 ^ 16" by (simp_all only: floor_of_int)
  then show ?thesis unfolding short_float_def ..
qed

lemma in_window_draw_signal:
  assumes "50 \<le> sig_x entry" and "sig_x entry \<le> 950"
    and "150 \<le> sig_y entry" and "sig_y entry \<le> 870"
  shows "list_all in_window (draw_signal gw a r idx entry)"
proof -
  obtain a' b c where l: "light_colors a idx r = [a', b, c]"
    using light_colors_eq by blast
  from assms show ?thesis
    by (simp add: draw_signal_def signal_housing_def texture_lines_def draw_lights_def
        info_display_def Let_def l enumerate_3 screen_width_def screen_height_def
        del: enumerate_simps)
qed

lemma lamps_enclosed_iff:
  "lamps_enclosed entry (light_colors a idx r) \<longleftrightarrow> sig_direction entry \<noteq> ''South''"
proof -
  obtain a' b c where l: "light_colors a idx r = [a', b, c]"
    using light_colors_eq by blast
  show ?thesis
    by (simp add: lamps_enclosed_def signal_housing_def draw_lights_def Let_def l enumerate_3
        inside_def box_within_def del: enumerate_simps)
qed

section \<open>The four signals\<close>

lemma enumerate_4: "enumerate 0 [a, b, c, d] = [(0, a), (1, b), (2, c), (3, d)]"
  by (simp add: eval_nat_numeral)

lemma draw_signals_commands_Inl:
  "draw_signals_commands gw a cs ts r f = Inl e
    \<longleftrightarrow> e = IndexError \<and> (length cs < 4 \<or> length ts < 4)"
  by (cases e) (auto simp: draw_signals_commands_def signals_table_def)

lemma draw_signals_commands_Inr:
  assumes "4 \<le> length cs" and "4 \<le> length ts"
  shows "draw_signals_commands gw a cs ts r f = Inr
    (draw_signal gw a r 0 \<lparr>sig_x = 500, sig_y = 250, sig_active = a, sig_count = cs ! 0,
        sig_total_time = ts ! 0, sig_direction = ''North''\<rparr>
     @ draw_signal gw a r 1 \<lparr>sig_x = 700, sig_y = 500, sig_active = a, sig_count = cs ! 1,
        sig_total_time = ts ! 1, sig_direction = ''East''\<rparr>
     @ draw_signal gw a r 2 \<lparr>sig_x = 500, sig_y = 750, sig_active = a, sig_count = cs ! 2,
        sig_total_time = ts ! 2, sig_direction = ''South''\<rparr>
     @ draw_signal gw a r 3 \<lparr>sig_x = 300, sig_y = 500, sig_active = a, sig_count = cs ! 3,
        sig_total_time = ts ! 3, sig_direction = ''West''\<rparr>)"
  using assms
  by (simp add: draw_signals_commands_def signals_table_def enumerate_4 del: enumerate_simps)

lemma draw_signals_commands_wf:
  assumes "draw_signals_commands gw a cs ts r f = Inr cmds"
  shows "length cmds = 52" and "list_all wf_command cmds" and "list_all in_window cmds"
proof -
  from assms have len: "4 \<le> length cs" "4 \<le> length ts"
    by (auto simp: draw_signals_commands_def signals_table_def split: if_splits)
  note eq = assms [unfolded draw_signals_commands_Inr [OF len], simplified]
  show "length cmds = 52" by (simp add: eq [symmetric])
  show "list_all wf_command cmds" by (simp add: eq [symmetric] wf_draw_signal)
  show "list_all in_window cmds" by (simp add: eq [symmetric] in_window_draw_signal)
qed

lemma draw_signals_commands_fails:
  "(\<exists>e. draw_signals_commands gw a cs ts r f = Inl e) \<longleftrightarrow> (\<exists>e. draw_signals a cs ts r f = Inl e)"
  by (simp add: draw_signals_commands_Inl draw_signals_Inl)

lemma signals_table_enclosed:
  assumes "4 \<le> length cs" and "4 \<le> length ts"
  shows "\<exists>tab. signals_table a cs ts = Inr tab
    \<and> map (\<lambda>(idx, e). lamps_enclosed e (light_colors a idx r)) (enumerate 0 tab)
        = [True, True, False, True]"
  using assms by (simp add: signals_table_def enumerate_4 lamps_enclosed_iff del: enumerate_simps)

lemma read_texts_commands:
  assumes "4 \<le> length cs" and "4 \<le> length ts" and "list_all short_float (take 4 ts)"
  shows "\<exists>cmds views. draw_signals_commands gw a cs ts r f = Inr cmds
    \<and> draw_signals a cs ts r f = Inr views
    \<and> lamps cmds = concat (map view_lights views)
    \<and> read_texts (texts cmds) =
        map (\<lambda>(idx, v). (view_direction v, Some (view_count v),
               Some (if a = idx then of_int (rhe (view_time v * 10)) / 10 else view_time v)))
          (enumerate 0 views)"
proof -
  from assms(2) obtain t0 t1 t2 t3 ts' where ts: "ts = t0 # t1 # t2 # t3 # ts'"
    by (auto simp: Suc_le_length_iff eval_nat_numeral)
  with assms(3) have "short_float t0" "short_float t1" "short_float t2" "short_float t3"
    by simp_all
  note rt = this [THEN read_time_text]
  show ?thesis
    unfolding draw_signals_commands_Inr [OF assms(1,2)] draw_signals_Inr [OF assms(1,2)]
    by (simp add: enumerate_4 ts rt del: enumerate_simps)
qed

text \<open>
  C27. What \<^verbatim>\<open>draw_signals\<close> draws shows what it decided to show. With four counts and
  four green times that are multiples of half a second, the colours of the twelve
  lamps drawn are those of the four views in order, and the three texts under each
  signal read back as its direction, its count, and its time: the green time exactly
  for a waiting direction, the running timer rounded to a tenth of a second for the
  active one.
\<close>

theorem signal_texts_read_back:
  assumes "4 \<le> length cs" and "4 \<le> length ts" and "list_all short_float (take 4 ts)"
  shows "\<exists>cmds views. draw_signals_commands gw a cs ts r f = Inr cmds
    \<and> draw_signals a cs ts r f = Inr views
    \<and> lamps cmds = concat (map view_lights views)
    \<and> read_texts (texts cmds) =
        map (\<lambda>(idx, v). (view_direction v, Some (view_count v),
               Some (if a = idx then of_int (rhe (view_time v * 10)) / 10 else view_time v)))
          (enumerate 0 views)"
  using assms by (rule read_texts_commands)

theorem signal_texts_read_back_witness:
  "4 \<le> length [10, 2, 10, 2 :: int] \<and> 4 \<le> length [15, 5, 15, 5 :: rat]
   \<and> list_all short_float (take 4 [15, 5, 15, 5])
   \<and> (\<exists>cmds views. draw_signals_commands (\<lambda>f t. 0) 0 [10, 2, 10, 2] [15, 5, 15, 5] 15 0 = Inr cmds
        \<and> draw_signals 0 [10, 2, 10, 2] [15, 5, 15, 5] 15 0 = Inr views
        \<and> lamps cmds = concat (map view_lights views)
        \<and> read_texts (texts cmds) =
            map (\<lambda>(idx, v). (view_direction v, Some (view_count v),
                   Some (if (0::nat) = idx then of_int (rhe (view_time v * 10)) / 10
                         else view_time v)))
              (enumerate 0 views))"
  using signal_texts_read_back [where cs = "[10, 2, 10, 2]" and ts = "[15, 5, 15, 5]"
      and a = 0 and gw = "\<lambda>f t. 0" and r = 15 and f = 0]
  by (simp add: short_float_def)

text \<open>
  C30. The time printed under the active signal loses at most a twentieth of a second:
  the text reads back as the multiple of a tenth nearest to the running timer, ties
  to the even one, and starts with a minus sign exactly when the timer is negative.
\<close>

theorem time_text_accuracy:
  "read_time (time_text a a r t) = Some (of_int (rhe (r * 10)) / 10)
   \<and> \<bar>of_int (rhe (r * 10)) / 10 - r\<bar> \<le> 1 / 20
   \<and> (hd (time_text a a r t) = CHR ''-'' \<longleftrightarrow> r < 0)"
proof -
  have "hd (time_text a a r t) = CHR ''-'' \<longleftrightarrow> r < 0"
    by (simp add: time_text_def format_1f_sign)
  with format_1f_error [OF parse_fixed_format_1f, of r] show ?thesis
    by (simp add: read_time_active)
qed

text \<open>
  C29. The lamps of the North, East and West signals lie inside the housing drawn for
  them; the lowest lamp of the South signal does not. The housing of the South signal
  is drawn 40 pixels higher than the others (from \<^verbatim>\<open>y-150\<close> to \<^verbatim>\<open>y+90\<close>), its lamps are
  not, and the lowest lamp reaches \<^verbatim>\<open>y+100\<close>.
\<close>

theorem south_lamp_outside_housing:
  assumes "4 \<le> length cs" and "4 \<le> length ts"
  shows "\<exists>tab. signals_table a cs ts = Inr tab
    \<and> map (\<lambda>(idx, e). lamps_enclosed e (light_colors a idx r)) (enumerate 0 tab)
        = [True, True, False, True]"
  using assms by (rule signals_table_enclosed)

theorem south_lamp_outside_housing_witness:
  "4 \<le> length [10, 2, 10, 2 :: int] \<and> 4 \<le> length [15, 5, 15, 5 :: rat]
   \<and> (\<exists>tab. signals_table 0 [10, 2, 10, 2] [15, 5, 15, 5] = Inr tab
        \<and> map (\<lambda>(idx, e). lamps_enclosed e (light_colors 0 idx 15)) (enumerate 0 tab)
            = [True, True, False, True])"
  using south_lamp_outside_housing [where cs = "[10, 2, 10, 2]" and ts = "[15, 5, 15, 5]"
      and a = 0 and r = 15]
  by simp

end
