(* ===== verification/Stats_Panel.thy ===== *)
theory Stats_Panel
  imports Graphics Text_Format
begin

text \<open>
  \<^verbatim>\<open>draw_stats_panel\<close> (lines 201-212 of \<^verbatim>\<open>src/advanced_traffic_management.py\<close>): the
  panel in the upper left corner with its title, the number of completed cycles and
  the total of the vehicles, as the list of the drawing calls in order.
  \<open>read_cycles\<close> and \<open>read_total\<close> read the two numbers back from the printed lines.
\<close>

section \<open>Definitions\<close>

definition cycle_text :: "nat \<Rightarrow> string" where
  "cycle_text cycles = ''Cycles completed: '' @ py_str (int cycles)"

definition vehicle_text :: "int \<Rightarrow> string" where
  "vehicle_text total_vehicles = ''Total vehicles: '' @ py_str total_vehicles"

definition draw_stats_panel :: "nat \<Rightarrow> int \<Rightarrow> command list" where
  "draw_stats_panel cycles total_vehicles =
     (let panel = (20, 20, 300, 120) in
      [Rect PANEL_COLOR panel 0 10,
       Rect (100, 100, 100) panel 2 10,
       Blit font_large ''Traffic Statistics'' WHITE (40, 30),
       Blit font_medium (cycle_text cycles) WHITE (40, 70),
       Blit font_medium (vehicle_text total_vehicles) WHITE (40, 100)])"

definition read_cycles :: "string \<Rightarrow> int option" where
  "read_cycles s = Option.bind (strip_prefix ''Cycles completed: '' s) parse_int"

definition read_total :: "string \<Rightarrow> int option" where
  "read_total s = Option.bind (strip_prefix ''Total vehicles: '' s) parse_int"

section \<open>The panel\<close>

lemma length_draw_stats_panel [simp]: "length (draw_stats_panel c t) = 5"
  by (simp add: draw_stats_panel_def Let_def)

lemma wf_draw_stats_panel: "list_all wf_command (draw_stats_panel c t)"
  by (simp add: draw_stats_panel_def Let_def)

lemma in_window_draw_stats_panel: "list_all in_window (draw_stats_panel c t)"
  by (simp add: draw_stats_panel_def Let_def screen_width_def screen_height_def)

lemma texts_draw_stats_panel [simp]:
  "texts (draw_stats_panel c t) = [''Traffic Statistics'', cycle_text c, vehicle_text t]"
  by (simp add: draw_stats_panel_def Let_def)

lemma lamps_draw_stats_panel [simp]: "lamps (draw_stats_panel c t) = []"
  by (simp add: draw_stats_panel_def Let_def)

lemma read_cycle_text [simp]: "read_cycles (cycle_text c) = Some (int c)"
  unfolding read_cycles_def cycle_text_def strip_prefix_append by (simp add: parse_int_py_str)

lemma read_vehicle_text [simp]: "read_total (vehicle_text t) = Some t"
  unfolding read_total_def vehicle_text_def strip_prefix_append by (simp add: parse_int_py_str)

text \<open>
  The panel shows the state: its three texts are the title and two lines from
  which the number of completed cycles and the total of the vehicles read back
  exactly, for every pair of numbers, negative totals included; two states with
  different numbers never show the same panel.
\<close>

theorem stats_panel_read_back:
  "map read_cycles (texts (draw_stats_panel c t)) ! 1 = Some (int c)
   \<and> map read_total (texts (draw_stats_panel c t)) ! 2 = Some t
   \<and> (draw_stats_panel c t = draw_stats_panel c' t' \<longleftrightarrow> c = c' \<and> t = t')"
proof -
  have "draw_stats_panel c t = draw_stats_panel c' t' \<Longrightarrow> c = c' \<and> t = t'"
  proof -
    assume "draw_stats_panel c t = draw_stats_panel c' t'"
    then have "texts (draw_stats_panel c t) = texts (draw_stats_panel c' t')" by simp
    then have "cycle_text c = cycle_text c'" and "vehicle_text t = vehicle_text t'" by simp_all
    then have "read_cycles (cycle_text c) = read_cycles (cycle_text c')"
      and "read_total (vehicle_text t) = read_total (vehicle_text t')" by simp_all
    then show ?thesis by simp
  qed
  then show ?thesis by auto
qed

end
