(* ===== verification/Render.thy ===== *)
theory Render
  imports Scheduler Intersection Display Stats_Panel
begin

text \<open>
  What a frame of the main loop puts on the window (lines 241-264 of
  \<^verbatim>\<open>src/advanced_traffic_management.py\<close>). \<open>render_frame\<close> is one iteration of the
  \<^verbatim>\<open>while\<close> loop with its drawing calls: the background, the intersection, the
  events and the timer update of theory \<open>Scheduler\<close>, the signals, the statistics
  panel, the flip and the wait for the next frame. It returns the next state and the
  list of the calls in order. \<open>render_loop\<close> is the loop, followed by
  \<^verbatim>\<open>pygame.quit()\<close>; it returns the last state and the calls of all its frames.

  \<open>frame\<close> and \<open>main_loop\<close> of theory \<open>Scheduler\<close> are these functions with the output
  left out; the lemmas here prove that, so that everything proved of the scheduler
  holds of the program that draws.
\<close>

section \<open>Definitions\<close>

definition background :: colour where
  "background = (0, 50, 0)"

definition render_frame ::
  "(font \<Rightarrow> string \<Rightarrow> int) \<Rightarrow> event list \<Rightarrow> controller \<Rightarrow> exit + controller \<times> command list" where
  "render_frame get_width events s =
     (case draw_intersection of
        Inl e \<Rightarrow> Inl (Raised e)
      | Inr road \<Rightarrow>
          (case advance_timer (handle_events events s) of
             Inl e \<Rightarrow> Inl e
           | Inr s' \<Rightarrow>
               (case draw_signals_commands get_width (active_lane s') (car_counts s')
                       (timers s') (timer_remaining s') (frame_count s') of
                  Inl e \<Rightarrow> Inl (Raised e)
                | Inr signals \<Rightarrow>
                    Inr (s'\<lparr>frame_count := frame_count s' + 1\<rparr>,
                         [Fill background] @ road @ signals
                         @ draw_stats_panel (cycles_completed s') (total_vehicles s')
                         @ [Flip, Tick 30]))))"

fun render_frames ::
  "(font \<Rightarrow> string \<Rightarrow> int) \<Rightarrow> event list list \<Rightarrow> controller
    \<Rightarrow> (exit + controller \<times> command list) option" where
  "render_frames get_width [] s = (if running s then None else Some (Inr (s, [])))"
| "render_frames get_width (events # rest) s =
     (if running s then
        (case render_frame get_width events s of
           Inl e \<Rightarrow> Some (Inl e)
         | Inr (s', cmds) \<Rightarrow>
             map_option (map_sum id (\<lambda>(s'', out). (s'', cmds @ out)))
               (render_frames get_width rest s'))
      else Some (Inr (s, [])))"

definition render_loop ::
  "(font \<Rightarrow> string \<Rightarrow> int) \<Rightarrow> event list list \<Rightarrow> controller
    \<Rightarrow> (exit + controller \<times> command list) option" where
  "render_loop get_width eventss s =
     map_option (map_sum id (\<lambda>(s', out). (s', out @ [Quit]))) (render_frames get_width eventss s)"

definition frame_length :: nat where
  "frame_length = 24102"

section \<open>One frame\<close>

lemma render_frame_eq:
  "render_frame gw events s =
     (case advance_timer (handle_events events s) of
        Inl e \<Rightarrow> Inl e
      | Inr s' \<Rightarrow>
          (case draw_signals_commands gw (active_lane s') (car_counts s') (timers s')
                  (timer_remaining s') (frame_count s') of
             Inl e \<Rightarrow> Inl (Raised e)
           | Inr signals \<Rightarrow>
               Inr (s'\<lparr>frame_count := frame_count s' + 1\<rparr>,
                    [Fill background] @ intersection_commands @ signals
                    @ draw_stats_panel (cycles_completed s') (total_vehicles s')
                    @ [Flip, Tick 30])))"
  by (simp add: render_frame_def draw_intersection_eq)

lemma draw_signals_cases:
  "(\<exists>cmds views. draw_signals_commands gw a cs ts r f = Inr cmds \<and> draw_signals a cs ts r f = Inr views)
   \<or> draw_signals_commands gw a cs ts r f = Inl IndexError \<and> draw_signals a cs ts r f = Inl IndexError"
proof (cases "length cs < 4 \<or> length ts < 4")
  case True
  then show ?thesis by (simp add: draw_signals_commands_Inl draw_signals_Inl)
next
  case False
  then have "4 \<le> length cs" "4 \<le> length ts" by simp_all
  then show ?thesis by (simp add: draw_signals_commands_Inr draw_signals_Inr)
qed

lemma render_frame_frame: "map_sum id fst (render_frame gw events s) = frame events s"
proof (cases "advance_timer (handle_events events s)")
  case (Inl e)
  then show ?thesis by (simp add: render_frame_eq frame_def)
next
  case (Inr s')
  from draw_signals_cases [of gw "active_lane s'" "car_counts s'" "timers s'"
      "timer_remaining s'" "frame_count s'"]
  show ?thesis by (auto simp: render_frame_eq frame_def Inr)
qed

lemma render_frame_Inr:
  assumes "render_frame gw events s = Inr (s', cmds)"
  shows "frame events s = Inr s'"
  using render_frame_frame [of gw events s] assms by simp

lemma frame_render_frame:
  assumes "frame events s = Inr s'"
  shows "\<exists>cmds. render_frame gw events s = Inr (s', cmds)"
  using render_frame_frame [of gw events s] assms
  by (cases "render_frame gw events s") auto

lemma render_frame_output:
  assumes "render_frame gw events s = Inr (s', cmds)"
  shows "length cmds = frame_length" and "list_all wf_command cmds"
    and "list_all in_window cmds"
    and "take 1 cmds = [Fill background]" and "drop (frame_length - 2) cmds = [Flip, Tick 30]"
proof -
  from assms obtain s1 sig where s1: "advance_timer (handle_events events s) = Inr s1"
    and sig: "draw_signals_commands gw (active_lane s1) (car_counts s1) (timers s1)
      (timer_remaining s1) (frame_count s1) = Inr sig"
    and cmds: "cmds = [Fill background] @ intersection_commands @ sig
      @ draw_stats_panel (cycles_completed s1) (total_vehicles s1) @ [Flip, Tick 30]"
    by (auto simp: render_frame_eq split: sum.splits)
  note w = draw_signals_commands_wf [OF sig]
  show len: "length cmds = frame_length" by (simp add: cmds w frame_length_def)
  show "list_all wf_command cmds"
    by (simp add: cmds w wf_intersection_commands wf_draw_stats_panel background_def)
  show "list_all in_window cmds"
    by (simp add: cmds w in_window_intersection_commands in_window_draw_stats_panel)
  show "take 1 cmds = [Fill background]" by (simp add: cmds)
  have "cmds = take (frame_length - 2) cmds @ [Flip, Tick 30]"
    using len by (simp add: cmds w frame_length_def)
  then show "drop (frame_length - 2) cmds = [Flip, Tick 30]"
    using len by (metis append_eq_conv_conj length_take min.absorb2 diff_le_self)
qed

section \<open>The loop\<close>

lemma render_frames_main_loop:
  "map_option (map_sum id fst) (render_frames gw eventss s) = main_loop eventss s"
proof (induction eventss arbitrary: s)
  case Nil
  show ?case by simp
next
  case (Cons events rest)
  show ?case
  proof (cases "render_frame gw events s")
    case (Inl e)
    with render_frame_frame [of gw events s, symmetric] show ?thesis by simp
  next
    case (Inr p)
    obtain s' cmds where p: "p = (s', cmds)" by (cases p)
    from Inr p have "frame events s = Inr s'" by (simp add: render_frame_Inr)
    with Inr p Cons.IH [of s'] show ?thesis
      by (simp add: option.map_comp sum.map_comp comp_def split_def
          cong: option.map_cong sum.map_cong)
  qed
qed

lemma map_sum_output_Inr:
  "map_sum id (\<lambda>(s'', out). (s'', f out)) z = Inr (s', out') \<longleftrightarrow>
     (\<exists>out1. z = Inr (s', out1) \<and> out' = f out1)"
  by (cases z) auto

lemma render_frames_output:
  assumes "render_frames gw eventss s = Some (Inr (s', out))"
  shows "length out = frame_length * (frame_count s' - frame_count s)
    \<and> frame_count s \<le> frame_count s' \<and> list_all wf_command out \<and> list_all in_window out"
  using assms
proof (induction eventss arbitrary: s out)
  case Nil
  then show ?case by (simp split: if_splits)
next
  case (Cons events rest)
  show ?case
  proof (cases "running s")
    case True
    with Cons.prems obtain s1 cmds out1
      where fr: "render_frame gw events s = Inr (s1, cmds)"
        and rest: "render_frames gw rest s1 = Some (Inr (s', out1))"
        and out: "out = cmds @ out1"
      by (auto simp: map_sum_output_Inr split: sum.splits)
    from frame_preserves(4) [OF render_frame_Inr [OF fr]]
    have fc: "frame_count s1 = frame_count s + 1" .
    note ih = Cons.IH [OF rest]
    from ih obtain k where k: "frame_count s' = frame_count s1 + k"
      by (auto simp: le_iff_add)
    from ih render_frame_output(1-3) [OF fr] show ?thesis
      by (simp add: out k fc)
  next
    case False
    with Cons.prems show ?thesis by simp
  qed
qed

lemma render_loop_main_loop:
  "map_option (map_sum id fst) (render_loop gw eventss s) = main_loop eventss s"
proof (cases "render_frames gw eventss s")
  case None
  with render_frames_main_loop [of gw eventss s] show ?thesis by (simp add: render_loop_def)
next
  case (Some r)
  with render_frames_main_loop [of gw eventss s] show ?thesis
    by (cases r) (auto simp: render_loop_def)
qed

lemma render_loop_output:
  assumes "main_loop eventss s = Some (Inr s')"
  shows "\<exists>out. render_loop gw eventss s = Some (Inr (s', out))
    \<and> length out = frame_length * (frame_count s' - frame_count s) + 1
    \<and> last out = Quit \<and> list_all wf_command out \<and> list_all in_window out"
proof -
  from assms render_frames_main_loop [of gw eventss s]
  obtain out where r: "render_frames gw eventss s = Some (Inr (s', out))"
    by (cases "render_frames gw eventss s") (auto simp: map_sum_def split: sum.splits)
  from render_frames_output [OF r] show ?thesis by (simp add: render_loop_def r)
qed

section \<open>Properties\<close>


text \<open>
  C13. In every state that satisfies the invariant of the scheduler a frame draws
  without an exception, and what it draws is well formed: 24102 calls, the first the
  background, the last two the flip and the wait for a thirtieth of a second, every
  colour component at most 255, every rectangle, circle and polygon of positive
  size, and every shape inside the window of 1000 by 1030 pixels.
\<close>

theorem frame_output_well_formed:
  assumes "sched_inv s"
  shows "\<exists>s' cmds. render_frame gw events s = Inr (s', cmds) \<and> frame events s = Inr s'
    \<and> length cmds = frame_length \<and> list_all wf_command cmds \<and> list_all in_window cmds
    \<and> take 1 cmds = [Fill background] \<and> drop (frame_length - 2) cmds = [Flip, Tick 30]"
proof -
  from frame_Inr [OF assms, of events] obtain s' where "frame events s = Inr s'" by blast
  with frame_render_frame [of events s s' gw] obtain cmds
    where r: "render_frame gw events s = Inr (s', cmds)" by blast
  from render_frame_output [OF r] render_frame_Inr [OF r] r show ?thesis by blast
qed

theorem frame_output_well_formed_witness:
  "sched_inv scenario_state
   \<and> (\<exists>s' cmds. render_frame (\<lambda>f t. 0) [] scenario_state = Inr (s', cmds)
        \<and> frame [] scenario_state = Inr s'
        \<and> length cmds = frame_length \<and> list_all wf_command cmds \<and> list_all in_window cmds
        \<and> take 1 cmds = [Fill background] \<and> drop (frame_length - 2) cmds = [Flip, Tick 30])"
  using frame_output_well_formed [where s = scenario_state and gw = "\<lambda>f t. 0" and events = "[]"]
  by simp

text \<open>
  When the loop returns, the program has drawn one full frame of 24102 calls for
  each frame counted, every call well formed and inside the window, and has ended
  with \<^verbatim>\<open>pygame.quit()\<close>.
\<close>

theorem loop_output:
  assumes "main_loop eventss s = Some (Inr s')"
  shows "\<exists>out. render_loop gw eventss s = Some (Inr (s', out))
    \<and> length out = frame_length * (frame_count s' - frame_count s) + 1
    \<and> last out = Quit \<and> list_all wf_command out \<and> list_all in_window out"
  using assms by (rule render_loop_output)

theorem loop_output_witness:
  "\<exists>s' out. main_loop [[QUIT]] scenario_state = Some (Inr s')
     \<and> render_loop (\<lambda>f t. 0) [[QUIT]] scenario_state = Some (Inr (s', out))
     \<and> length out = frame_length * (frame_count s' - frame_count scenario_state) + 1
     \<and> last out = Quit \<and> list_all wf_command out \<and> list_all in_window out"
proof -
  from frame_Inr [OF sched_inv_scenario, of "[QUIT]"] obtain s'
    where fr: "frame [QUIT] scenario_state = Inr s'" by blast
  from frame_preserves(5) [OF fr] have "\<not> running s'" by simp
  with fr have "main_loop [[QUIT]] scenario_state = Some (Inr s')" by simp
  with loop_output [of "[[QUIT]]" scenario_state s' "\<lambda>f t. 0"] show ?thesis by blast
qed

end
