(* ===== verification/Program.thy ===== *)
theory Program
  imports Session Render
begin

text \<open>
  The program as it is run: the module level of
  \<^verbatim>\<open>src/advanced_traffic_management.py\<close> and \<^verbatim>\<open>main\<close> with its drawing calls.

  The module first sets up \<^verbatim>\<open>pygame\<close> (lines 9-13 and 31-33): \<open>window_setup\<close> and
  \<open>font_setup\<close> are the calls it makes, as values of \<open>setup_call\<close>; the flags of the
  window, combined with \<^verbatim>\<open>|\<close> in the source, are the list of the flags combined. It
  then loads the detection model (lines 36-41); if loading raises, it prints the
  exception and calls \<^verbatim>\<open>exit()\<close>. What loading returns is the argument \<open>loaded\<close> of
  \<open>script\<close>: \<open>Inl Load_Failed\<close> for an exception, \<open>Inr model\<close> for the model, which is
  then the detector that \<^verbatim>\<open>main\<close> uses. The last two lines call \<^verbatim>\<open>main\<close>.
  \<open>render_main\<close> is \<^verbatim>\<open>main\<close> (theory \<open>Session\<close>) with the loop that draws (theory
  \<open>Render\<close>) in place of the loop of the scheduler. \<open>script\<close> returns the calls of the
  setup and the outcome of the run.
\<close>

section \<open>Definitions\<close>

datatype load_error = Load_Failed

datatype display_flag = DOUBLEBUF | HWSURFACE

datatype setup_call =
    Init
  | Set_Mode "int \<times> int" "display_flag list"
  | Set_Caption string
  | Font font nat

definition flags :: "display_flag list" where
  "flags = [DOUBLEBUF, HWSURFACE]"

definition window_setup :: "setup_call list" where
  "window_setup =
     [Init, Set_Mode (screen_width, screen_height) flags,
      Set_Caption ''Enhanced Traffic Signal Visualization'']"

definition font_setup :: "setup_call list" where
  "font_setup = [Font font_large 36, Font font_medium 28, Font font_small 20]"

definition module_setup :: "setup_call list" where
  "module_setup = window_setup @ font_setup"

definition render_main ::
  "(font \<Rightarrow> string \<Rightarrow> int) \<Rightarrow> 'img environment \<Rightarrow> (exit + controller \<times> command list) option" where
  "render_main get_width env =
     (case acquire env of
        None \<Rightarrow> None
      | Some (Inl e) \<Rightarrow> Some (Inl e)
      | Some (Inr counts) \<Rightarrow>
          (case startup counts of
             Inl e \<Rightarrow> Some (Inl e)
           | Inr s \<Rightarrow> render_loop get_width (env_events env) s))"

definition script ::
  "load_error + 'img detector \<Rightarrow> (font \<Rightarrow> string \<Rightarrow> int) \<Rightarrow> 'img environment
    \<Rightarrow> setup_call list \<times> (load_error + exit + controller \<times> command list) option" where
  "script loaded get_width env =
     (module_setup,
      (case loaded of
         Inl e \<Rightarrow> Some (Inl e)
       | Inr model \<Rightarrow> map_option Inr (render_main get_width (env\<lparr>env_model := model\<rparr>))))"

section \<open>The program and its scheduler\<close>

lemma render_main_main: "map_option (map_sum id fst) (render_main gw env) = main env"
proof (cases "acquire env")
  case None
  then show ?thesis by (simp add: render_main_def main_def)
next
  case (Some r)
  show ?thesis
  proof (cases r)
    case (Inl e)
    with Some show ?thesis by (simp add: render_main_def main_def)
  next
    case (Inr counts)
    with Some show ?thesis
      by (cases "startup counts") (simp_all add: render_main_def main_def render_loop_main_loop)
  qed
qed

lemma render_main_no_raise: "render_main gw env \<noteq> Some (Inl (Raised e))"
proof
  assume "render_main gw env = Some (Inl (Raised e))"
  with render_main_main [of gw env] have "main env = Some (Inl (Raised e))" by simp
  with main_no_raise show False by blast
qed

lemma script_main:
  "map_option (map_sum id (map_sum id fst)) (snd (script (Inr model) gw env))
    = map_option Inr (main (env\<lparr>env_model := model\<rparr>))"
  unfolding script_def render_main_main [of gw "env\<lparr>env_model := model\<rparr>", symmetric]
  by (simp add: option.map_comp comp_def)

lemma module_setup_window:
  "module_setup ! 1 = Set_Mode (1000, 1030) [DOUBLEBUF, HWSURFACE]"
  "map (\<lambda>f. Font f (font_size f)) [font_large, font_medium, font_small] = drop 3 module_setup"
  by (simp_all add: module_setup_def window_setup_def font_setup_def flags_def
      screen_width_def screen_height_def)

section \<open>Properties\<close>


end
