(* ===== verification/Drift.thy ===== *)
theory Drift
  imports Refinement
begin

text \<open>
  How far the running timer of \<^verbatim>\<open>main\<close> (line 250 of
  \<^verbatim>\<open>src/advanced_traffic_management.py\<close>) drifts from exact time. Within a green
  phase every frame lowers the timer by the float \<^verbatim>\<open>1 / 30\<close> and rounds the result;
  each of these steps is within \<open>1 / 2 ^ 47\<close> of a thirtieth of a second, and the
  errors of successive frames add up at most linearly.
\<close>

section \<open>Frames within a phase\<close>

lemma frame_phase_index:
  assumes "sched_inv s" and "frame events s = Inr s'"
  shows "phase_index s' =
    phase_index s + (if float_sub (timer_remaining s) tick_delta \<le> 0 then 1 else 0)"
proof -
  from frame_Inr [OF assms(1), of events] assms(2) obtain s1
    where s1: "advance_timer (handle_events events s) = Inr s1"
      and s': "s' = s1\<lparr>frame_count := frame_count s1 + 1\<rparr>" by auto
  from advance_timer_phase_index [OF s1] sched_invD(4) [OF assms(1)] show ?thesis
    by (simp add: s' phase_index_def)
qed

lemma frame_same_phase:
  assumes "sched_inv s" and "frame events s = Inr s'" and "phase_index s' = phase_index s"
  shows "timer_remaining s' = float_sub (timer_remaining s) tick_delta"
proof -
  from frame_phase_index [OF assms(1,2)] assms(3)
  have pos: "0 < float_sub (timer_remaining s) tick_delta" by (simp split: if_splits)
  from frame_Inr [OF assms(1), of events] assms(2) obtain s1
    where s1: "advance_timer (handle_events events s) = Inr s1"
      and s': "s' = s1\<lparr>frame_count := frame_count s1 + 1\<rparr>" by auto
  from pos have "0 < float_sub (timer_remaining (handle_events events s)) tick_delta" by simp
  from advance_timer_continue [OF this] s1 show ?thesis by (auto simp: s')
qed

lemma run_monotone:
  assumes "sched_inv s" and "run eventss s = Inr s'"
  shows "phase_index s \<le> phase_index s'" and "frame_count s \<le> frame_count s'"
proof -
  have "phase_index s \<le> phase_index s' \<and> frame_count s \<le> frame_count s'"
    using assms
  proof (induction eventss arbitrary: s)
    case Nil
    then show ?case by simp
  next
    case (Cons events rest)
    show ?case
    proof (cases "running s")
      case True
      with Cons.prems(2) obtain s1 where fr: "frame events s = Inr s1"
        and rest: "run rest s1 = Inr s'"
        by (auto simp: run_Cons split: sum.splits)
      from Cons.IH [OF sched_inv_frame [OF Cons.prems(1) fr] rest]
        frame_phase_index [OF Cons.prems(1) fr] frame_preserves(4) [OF fr]
      show ?thesis by simp
    next
      case False
      with Cons.prems(2) show ?thesis by (simp add: run_Cons)
    qed
  qed
  then show "phase_index s \<le> phase_index s'" and "frame_count s \<le> frame_count s'"
    by simp_all
qed

lemma frame_drift:
  assumes "sched_inv s" and "frame events s = Inr s'" and "phase_index s' = phase_index s"
  shows "\<bar>timer_remaining s' - (timer_remaining s - 1 / 30)\<bar> \<le> 1 / 2 ^ 47"
proof -
  from sched_invD(5) [OF assms(1)] sched_inv_timer_le_20 [OF assms(1)]
  have "near_thirtieth (effective_delta s)" by (rule near_thirtieth_effective_delta)
  then have "\<bar>timer_remaining s - float_sub (timer_remaining s) tick_delta - 1 / 30\<bar>
      \<le> 1 / 2 ^ 47"
    by (simp only: near_thirtieth_def effective_delta_def)
  then show ?thesis unfolding frame_same_phase [OF assms] by linarith
qed

lemma run_drift:
  assumes "sched_inv s" and "run eventss s = Inr s'" and "phase_index s' = phase_index s"
  shows "\<bar>timer_remaining s' - (timer_remaining s - of_nat (frame_count s' - frame_count s) / 30)\<bar>
    \<le> of_nat (frame_count s' - frame_count s) / 2 ^ 47"
  using assms
proof (induction eventss arbitrary: s)
  case Nil
  then show ?case by simp
next
  case (Cons events rest)
  show ?case
  proof (cases "running s")
    case True
    with Cons.prems(2) obtain s1 where fr: "frame events s = Inr s1"
      and rest: "run rest s1 = Inr s'"
      by (auto simp: run_Cons split: sum.splits)
    note inv1 = sched_inv_frame [OF Cons.prems(1) fr]
    from run_monotone(1) [OF inv1 rest] frame_phase_index [OF Cons.prems(1) fr] Cons.prems(3)
    have p1: "phase_index s1 = phase_index s" and p': "phase_index s' = phase_index s1"
      by (simp_all split: if_splits)
    define k where "k = frame_count s' - frame_count s1"
    from run_monotone(2) [OF inv1 rest] frame_preserves(4) [OF fr]
    have fc: "frame_count s' - frame_count s = Suc k" by (simp add: k_def)
    define c :: rat where "c = 1 / 2 ^ 47"
    from frame_drift [OF Cons.prems(1) fr p1]
    have a: "\<bar>timer_remaining s1 - (timer_remaining s - 1 / 30)\<bar> \<le> c" by (simp only: c_def)
    from Cons.IH [OF inv1 rest p']
    have b: "\<bar>timer_remaining s' - (timer_remaining s1 - of_nat k / 30)\<bar> \<le> of_nat k * c"
      by (simp only: k_def c_def times_divide_eq_right mult_1_right)
    have "\<bar>timer_remaining s' - (timer_remaining s - of_nat (Suc k) / 30)\<bar> \<le> of_nat (Suc k) * c"
    proof -
      have "of_nat (Suc k) / 30 = of_nat k / 30 + (1 / 30 :: rat)" by (simp add: field_simps)
      moreover have "of_nat (Suc k) * c = of_nat k * c + c" by (simp add: algebra_simps)
      ultimately show ?thesis using a b by linarith
    qed
    then show ?thesis by (simp only: fc c_def times_divide_eq_right mult_1_right)
  next
    case False
    with Cons.prems(2) show ?thesis by (simp add: run_Cons)
  qed
qed

section \<open>Properties\<close>

text \<open>
  C36. The timer does not drift. As long as the direction has not changed, the running
  timer after any number of frames differs from the exact time left (the timer at the
  start minus a thirtieth of a second per frame) by at most \<open>1 / 2 ^ 47\<close> seconds per
  frame: less than \<open>2 powi (- 37)\<close> seconds over the longest phase of 600 frames.
\<close>

theorem timer_drift:
  assumes "sched_inv s" and "run eventss s = Inr s'" and "phase_index s' = phase_index s"
  shows "\<bar>timer_remaining s' - (timer_remaining s - of_nat (frame_count s' - frame_count s) / 30)\<bar>
    \<le> of_nat (frame_count s' - frame_count s) / 2 ^ 47"
  using assms by (rule run_drift)

theorem timer_drift_witness:
  "sched_inv scenario_state
   \<and> (\<exists>s'. run [[]] scenario_state = Inr s' \<and> phase_index s' = phase_index scenario_state
        \<and> frame_count s' - frame_count scenario_state = 1
        \<and> \<bar>timer_remaining s' - (timer_remaining scenario_state
              - of_nat (frame_count s' - frame_count scenario_state) / 30)\<bar>
            \<le> of_nat (frame_count s' - frame_count scenario_state) / 2 ^ 47)"
proof -
  let ?init = scenario_state
  have pos: "0 < float_sub (timer_remaining ?init) tick_delta"
    using float_sub_tick_ge [of 15] by simp
  let ?next = "?init\<lparr>timer_remaining := float_sub (timer_remaining ?init) tick_delta,
    frame_count := frame_count ?init + 1\<rparr>"
  have fr: "frame [] ?init = Inr ?next"
    by (rule frame_continue [OF sched_inv_scenario _ _ pos]) simp_all
  then have r: "run [[]] ?init = Inr ?next" by (simp add: run_Cons)
  have p: "phase_index ?next = phase_index ?init" by (simp add: phase_index_def)
  from timer_drift [OF sched_inv_scenario r p] r p show ?thesis
    by (intro conjI exI [of _ ?next]) simp_all
qed

end
