(* ===== verification/Console.thy ===== *)
theory Console
  imports Program
begin

text \<open>
  What \<^verbatim>\<open>src/advanced_traffic_management.py\<close> prints on the terminal: the lines of
  the module level (38, 40), of \<^verbatim>\<open>capture_from_file_dialog\<close> (68, 75, 79), of
  \<^verbatim>\<open>capture_one_by_one_images\<close> (87, 89, 93, 102) and of \<^verbatim>\<open>main\<close> (221, 222, 229,
  233). Each function of the acquisition and \<^verbatim>\<open>main\<close> have here a companion that
  returns the list of the texts printed, in order, on the same input; the prompt of
  \<^verbatim>\<open>input\<close> is one of them. When a waiting loop has not returned on the ticks
  supplied, the list holds what has been printed until then.

  \<open>read_image_line\<close> reads the count back from a line of the file dialog.
\<close>

section \<open>Definitions\<close>

definition model_prints :: "load_error + 'img detector \<Rightarrow> string \<Rightarrow> string list" where
  "model_prints loaded exception_text =
     (case loaded of
        Inr model \<Rightarrow> [''YOLOv5 model loaded successfully.'']
      | Inl e \<Rightarrow> [''Failed to load YOLO model: '' @ exception_text])"

definition load_error_line :: "string \<Rightarrow> string" where
  "load_error_line image_path = ''Error: Cannot load image at '' @ image_path @ ''.''"

definition image_line :: "nat \<Rightarrow> vehicle_count \<Rightarrow> string" where
  "image_line i count =
     ''Image '' @ py_str (int i + 1) @ '': Detected '' @ py_str count @ '' vehicles.''"

definition position_line :: "string \<Rightarrow> string" where
  "position_line direction =
     ''Position the camera for the '' @ direction @ '' side and press '' @ [CHR 0x27]
       @ ''s'' @ [CHR 0x27] @ '' to capture.''"

definition failed_line :: "string \<Rightarrow> string" where
  "failed_line direction = ''Failed to capture frame for '' @ direction @ '' side. Exiting.''"

definition captured_line :: "string \<Rightarrow> vehicle_count \<Rightarrow> string" where
  "captured_line direction count =
     ''Captured '' @ direction @ '' side. Detected '' @ py_str count @ '' vehicles.''"

fun capture_files_prints ::
  "'img detector \<Rightarrow> (string \<Rightarrow> 'img option) \<Rightarrow> nat \<Rightarrow> string list \<Rightarrow> string list" where
  "capture_files_prints model imread i [] = []"
| "capture_files_prints model imread i (image_path # image_paths) =
     (case imread image_path of
        None \<Rightarrow> load_error_line image_path
      | Some img \<Rightarrow> image_line i (count_vehicles model img))
     # capture_files_prints model imread (Suc i) image_paths"

definition capture_from_file_dialog_prints ::
  "'img detector \<Rightarrow> (string \<Rightarrow> 'img option) \<Rightarrow> string list \<Rightarrow> string list" where
  "capture_from_file_dialog_prints model imread image_paths =
     (if length image_paths \<noteq> 4 then [''Error: Please select exactly four images.'']
      else capture_files_prints model imread 0 image_paths)"

fun wait_capture_prints :: "'img detector \<Rightarrow> string \<Rightarrow> 'img tick list \<Rightarrow> string list" where
  "wait_capture_prints model direction [] = []"
| "wait_capture_prints model direction ((ret, key) # ticks) =
     (case ret of
        None \<Rightarrow> [failed_line direction]
      | Some img \<Rightarrow>
          if key = key_s then [captured_line direction (count_vehicles model img)]
          else if key = key_q then []
          else wait_capture_prints model direction ticks)"

fun capture_directions_prints ::
  "'img detector \<Rightarrow> string list \<Rightarrow> 'img tick list \<Rightarrow> string list" where
  "capture_directions_prints model [] ticks = []"
| "capture_directions_prints model (direction # rest) ticks =
     position_line direction # wait_capture_prints model direction ticks
     @ (case wait_capture model ticks of
          Some (Inr (count, ticks')) \<Rightarrow> capture_directions_prints model rest ticks'
        | _ \<Rightarrow> [])"

definition capture_one_by_one_images_prints ::
  "'img detector \<Rightarrow> 'img tick list \<Rightarrow> string list" where
  "capture_one_by_one_images_prints model ticks =
     ''Using webcam to capture images one by one.''
     # capture_directions_prints model directions ticks"

definition menu_text :: string where
  "menu_text = ''Choose input type:'' @ [CHR 0x0A] @ ''1. Webcam for one-by-one images''
     @ [CHR 0x0A] @ ''2. File dialog to select images''"

definition prompt_text :: string where
  "prompt_text = ''Enter 1 or 2: ''"

definition invalid_choice_line :: string where
  "invalid_choice_line = ''Invalid choice.''"

definition no_input_line :: string where
  "no_input_line = ''Error: No valid input provided. Exiting.''"

definition acquire_prints :: "'img environment \<Rightarrow> string list" where
  "acquire_prints env =
     (if env_choice env = ''1'' then
        capture_one_by_one_images_prints (env_model env) (env_ticks env)
      else if env_choice env = ''2'' then
        capture_from_file_dialog_prints (env_model env) (env_imread env) (env_paths env)
      else [invalid_choice_line])"

definition main_prints :: "'img environment \<Rightarrow> string list" where
  "main_prints env =
     [menu_text, prompt_text] @ acquire_prints env
     @ (case acquire env of
          Some (Inr counts) \<Rightarrow>
            if counts = [0, 0, 0, 0] then [no_input_line] else []
        | _ \<Rightarrow> [])"

definition script_prints ::
  "load_error + 'img detector \<Rightarrow> string \<Rightarrow> 'img environment \<Rightarrow> string list" where
  "script_prints loaded exception_text env =
     model_prints loaded exception_text
     @ (case loaded of Inl e \<Rightarrow> [] | Inr model \<Rightarrow> main_prints (env\<lparr>env_model := model\<rparr>))"

definition final_line :: "string \<Rightarrow> bool" where
  "final_line l \<longleftrightarrow> l = invalid_choice_line \<or> l = no_input_line"

definition read_image_line :: "nat \<Rightarrow> string \<Rightarrow> int option" where
  "read_image_line i s =
     Option.bind (strip_prefix (''Image '' @ py_str (int i + 1) @ '': Detected '') s)
       (\<lambda>r. Option.bind (strip_suffix '' vehicles.'' r) parse_int)"

section \<open>The file dialog\<close>

lemma length_capture_files_prints [simp]:
  "length (capture_files_prints model imread i paths) = length paths"
  by (induction paths arbitrary: i) simp_all

lemma strip_prefix_Cons [simp]:
  "strip_prefix (a # pre) (b # s) = (if a = b then strip_prefix pre s else None)"
  by (simp add: strip_prefix_def)

lemma strip_prefix_Nil [simp]: "strip_prefix [] s = Some s"
  by (simp add: strip_prefix_def)

lemma read_image_line_image [simp]: "read_image_line i (image_line i n) = Some n"
proof -
  have "strip_prefix (''Image '' @ py_str (int i + 1) @ '': Detected '')
      ((''Image '' @ py_str (int i + 1) @ '': Detected '') @ py_str n @ '' vehicles.'')
    = Some (py_str n @ '' vehicles.'')" by (rule strip_prefix_append)
  then show ?thesis by (simp add: read_image_line_def image_line_def parse_int_py_str)
qed

lemma read_image_line_error [simp]: "read_image_line i (load_error_line p) = None"
  by (simp add: read_image_line_def load_error_line_def)

lemma read_capture_files_prints:
  "map (\<lambda>(j, l). read_image_line j l) (enumerate i (capture_files_prints model imread i paths))
    = map (\<lambda>p. map_option (count_vehicles model) (imread p)) paths"
  by (induction paths arbitrary: i) (simp_all split: option.splits)

lemma capture_from_file_dialog_read:
  assumes "length paths = 4"
  shows "capture_from_file_dialog model imread paths =
    map (\<lambda>(j, l). case read_image_line j l of None \<Rightarrow> 0 | Some n \<Rightarrow> n)
      (enumerate 0 (capture_from_file_dialog_prints model imread paths))"
proof -
  have "map (\<lambda>(j, l). case read_image_line j l of None \<Rightarrow> 0 | Some n \<Rightarrow> n)
      (enumerate 0 (capture_files_prints model imread 0 paths))
    = map (\<lambda>r. case r of None \<Rightarrow> 0 | Some n \<Rightarrow> n)
        (map (\<lambda>(j, l). read_image_line j l)
          (enumerate 0 (capture_files_prints model imread 0 paths)))"
    by (simp add: split_def)
  also have "\<dots> = map (file_count model imread) paths"
    unfolding read_capture_files_prints
    by (simp add: file_count_def split: option.splits)
  finally show ?thesis
    using assms by (simp add: capture_from_file_dialog_eq capture_from_file_dialog_prints_def)
qed

section \<open>Lines that end the program\<close>

lemmas line_defs = load_error_line_def image_line_def position_line_def failed_line_def
  captured_line_def invalid_choice_line_def no_input_line_def

lemma not_final_lines [simp]:
  "\<not> final_line (load_error_line p)" "\<not> final_line (image_line i n)"
  "\<not> final_line (position_line d)" "\<not> final_line (failed_line d)"
  "\<not> final_line (captured_line d n)" "\<not> final_line menu_text" "\<not> final_line prompt_text"
  "\<not> final_line ''Using webcam to capture images one by one.''"
  "\<not> final_line ''Error: Please select exactly four images.''"
  by (simp_all add: final_line_def line_defs menu_text_def prompt_text_def)

lemma final_lines [simp]:
  "final_line invalid_choice_line" "final_line no_input_line"
  "invalid_choice_line \<noteq> no_input_line" "no_input_line \<noteq> invalid_choice_line"
  by (simp_all add: final_line_def invalid_choice_line_def no_input_line_def)

lemma capture_files_prints_not_final:
  "list_all (\<lambda>l. \<not> final_line l) (capture_files_prints model imread i paths)"
  by (induction paths arbitrary: i) (simp_all split: option.splits)

lemma wait_capture_prints_not_final:
  "list_all (\<lambda>l. \<not> final_line l) (wait_capture_prints model d ticks)"
  by (induction ticks) (auto split: option.splits)

lemma capture_directions_prints_not_final:
  "list_all (\<lambda>l. \<not> final_line l) (capture_directions_prints model ds ticks)"
  by (induction ds arbitrary: ticks)
    (auto simp: wait_capture_prints_not_final split: option.splits sum.splits)

lemma acquire_prints_not_final:
  assumes "env_choice env = ''1'' \<or> env_choice env = ''2''"
  shows "list_all (\<lambda>l. \<not> final_line l) (acquire_prints env)" and "acquire_prints env \<noteq> []"
proof -
  from assms show "list_all (\<lambda>l. \<not> final_line l) (acquire_prints env)"
    by (auto simp: acquire_prints_def capture_one_by_one_images_prints_def
        capture_from_file_dialog_prints_def capture_directions_prints_not_final
        capture_files_prints_not_final)
  have "capture_files_prints (env_model env) (env_imread env) 0 (env_paths env) \<noteq> []"
    if "length (env_paths env) = 4"
    using that length_capture_files_prints [of "env_model env" "env_imread env" 0 "env_paths env"]
    by (metis length_0_conv zero_neq_numeral)
  with assms show "acquire_prints env \<noteq> []"
    by (auto simp: acquire_prints_def capture_one_by_one_images_prints_def
        capture_from_file_dialog_prints_def)
qed

lemma last_acquire_prints:
  assumes "env_choice env = ''1'' \<or> env_choice env = ''2''"
  shows "\<not> final_line (last (acquire_prints env))"
  using acquire_prints_not_final [OF assms] by (simp add: list_all_iff)

lemma main_prints_last:
  "last (main_prints env) =
     (case acquire env of
        Some (Inl e) \<Rightarrow> invalid_choice_line
      | Some (Inr counts) \<Rightarrow>
          if counts = [0, 0, 0, 0] then no_input_line else last (acquire_prints env)
      | None \<Rightarrow> last (acquire_prints env))"
proof (cases "env_choice env = ''1'' \<or> env_choice env = ''2''")
  case True
  note ne = acquire_prints_not_final(2) [OF True]
  from True acquire_Inl [of env] have "\<And>e. acquire env \<noteq> Some (Inl e)" by auto
  with ne show ?thesis
    by (auto simp: main_prints_def split: option.splits sum.splits)
next
  case False
  then have "acquire env = Some (Inl Invalid_Choice)" by (simp add: acquire_def)
  with False show ?thesis by (simp add: main_prints_def acquire_prints_def)
qed

lemma main_outcome_lines:
  "(last (main_prints env) = invalid_choice_line \<longleftrightarrow> main env = Some (Inl Invalid_Choice))
   \<and> (last (main_prints env) = no_input_line \<longleftrightarrow> main env = Some (Inl No_Valid_Input))"
proof (cases "acquire env")
  case None
  then have c: "env_choice env = ''1'' \<or> env_choice env = ''2''"
    by (auto simp: acquire_def split: if_splits)
  from last_acquire_prints [OF c] None show ?thesis
    by (auto simp: main_prints_last main_cases final_line_def)
next
  case (Some r)
  show ?thesis
  proof (cases r)
    case (Inl e)
    with Some acquire_Inl [of env e] show ?thesis
      by (simp add: main_prints_last main_cases)
  next
    case (Inr counts)
    with Some have c: "env_choice env = ''1'' \<or> env_choice env = ''2''"
      by (auto simp: acquire_def split: if_splits)
    from Some Inr have "length counts = 4" by (auto intro: acquire_counts)
    then have "sched_inv (phase_start counts 0 0 0)" by simp
    note nf = main_loop_never_fails [OF this, of "env_events env"]
    show ?thesis
    proof (cases "counts = [0, 0, 0, 0]")
      case True
      with Some Inr show ?thesis by (simp add: main_prints_last main_cases)
    next
      case False
      with last_acquire_prints [OF c] nf Some Inr show ?thesis
        by (auto simp: main_prints_last main_cases final_line_def)
    qed
  qed
qed

lemma zero_traffic_lines:
  assumes "env_choice env = ''2''" and "length (env_paths env) = 4"
    and "list_all (\<lambda>p. map_option (count_vehicles (env_model env)) (env_imread env p) = Some 0)
      (env_paths env)"
  shows "main_prints env =
      [menu_text, prompt_text, image_line 0 0, image_line 1 0, image_line 2 0, image_line 3 0,
       no_input_line]"
    and "main env = Some (Inl No_Valid_Input)"
proof -
  from assms(2) obtain a b c d where p: "env_paths env = [a, b, c, d]"
    by (auto simp: length_4_iff)
  from assms(3) obtain ia ib ic id' where i: "env_imread env a = Some ia"
    "env_imread env b = Some ib" "env_imread env c = Some ic" "env_imread env d = Some id'"
    and z: "count_vehicles (env_model env) ia = 0" "count_vehicles (env_model env) ib = 0"
    "count_vehicles (env_model env) ic = 0" "count_vehicles (env_model env) id' = 0"
    by (auto simp: p)
  from assms(1) have a: "acquire env = Some (Inr [0, 0, 0, 0])"
    by (simp add: acquire_def capture_from_file_dialog_eq p file_count_def i z)
  then show "main env = Some (Inl No_Valid_Input)" by (simp add: main_cases)
  from assms(1) a show "main_prints env =
      [menu_text, prompt_text, image_line 0 0, image_line 1 0, image_line 2 0, image_line 3 0,
       no_input_line]"
    by (simp add: main_prints_def acquire_prints_def capture_from_file_dialog_prints_def p i z
        eval_nat_numeral)
qed

lemma script_prints_load_failed [simp]:
  "script_prints (Inl e) text env = [''Failed to load YOLO model: '' @ text]"
  by (simp add: script_prints_def model_prints_def)

lemma script_prints_loaded [simp]:
  "script_prints (Inr model) text env =
     ''YOLOv5 model loaded successfully.'' # main_prints (env\<lparr>env_model := model\<rparr>)"
  by (simp add: script_prints_def model_prints_def)

section \<open>Properties\<close>

text \<open>
  C32. The lines that \<^verbatim>\<open>capture_from_file_dialog\<close> prints for four selected files give
  back what it returns: it prints one line per file, the line of a readable image
  reads back as the number of vehicles detected in it, the line of an unreadable one
  does not read as a count, and the counts returned are the numbers read, with 0 for
  the unreadable images.
\<close>

theorem file_dialog_prints_read_back:
  assumes "length paths = 4"
  shows "length (capture_from_file_dialog_prints model imread paths) = 4
    \<and> map (\<lambda>(j, l). read_image_line j l)
        (enumerate 0 (capture_from_file_dialog_prints model imread paths))
      = map (\<lambda>p. map_option (count_vehicles model) (imread p)) paths
    \<and> capture_from_file_dialog model imread paths =
        map (\<lambda>(j, l). case read_image_line j l of None \<Rightarrow> 0 | Some n \<Rightarrow> n)
          (enumerate 0 (capture_from_file_dialog_prints model imread paths))"
  using assms capture_from_file_dialog_read [OF assms, of model imread]
  by (simp add: capture_from_file_dialog_prints_def read_capture_files_prints)

theorem file_dialog_prints_read_back_witness:
  "length [''n.jpg'', ''e.jpg'', ''s.jpg'', ''w.jpg''] = 4
   \<and> length (capture_from_file_dialog_prints (\<lambda>_. []) (\<lambda>_. Some ())
        [''n.jpg'', ''e.jpg'', ''s.jpg'', ''w.jpg'']) = 4
   \<and> capture_from_file_dialog (\<lambda>_. []) (\<lambda>_. Some ()) [''n.jpg'', ''e.jpg'', ''s.jpg'', ''w.jpg''] =
        map (\<lambda>(j, l). case read_image_line j l of None \<Rightarrow> 0 | Some n \<Rightarrow> n)
          (enumerate 0 (capture_from_file_dialog_prints (\<lambda>_. []) (\<lambda>_. Some ())
            [''n.jpg'', ''e.jpg'', ''s.jpg'', ''w.jpg'']))"
  using file_dialog_prints_read_back [where paths = "[''n.jpg'', ''e.jpg'', ''s.jpg'', ''w.jpg'']"
      and model = "\<lambda>_. []" and imread = "\<lambda>_. Some ()"]
  by simp

text \<open>
  C31. The last line printed tells how \<^verbatim>\<open>main\<close> ended: it is \<^verbatim>\<open>Invalid choice.\<close> exactly
  when \<^verbatim>\<open>main\<close> returned because the line typed is neither 1 nor 2, and it is the
  line \<^verbatim>\<open>Error: No valid input provided. Exiting.\<close> exactly when \<^verbatim>\<open>main\<close> returned on
  four zero counts. No line of the acquisition is one of the two, whatever the paths
  selected and the directions captured.
\<close>

theorem main_prints_outcome:
  "(last (main_prints env) = invalid_choice_line \<longleftrightarrow> main env = Some (Inl Invalid_Choice))
   \<and> (last (main_prints env) = no_input_line \<longleftrightarrow> main env = Some (Inl No_Valid_Input))"
  by (rule main_outcome_lines)

text \<open>
  C33. Four readable images without a vehicle: the program prints for each image that
  it detected 0 vehicles and then that no valid input was provided, and ends; the
  valid input of an empty intersection is reported as an error.
\<close>

theorem zero_traffic_prints:
  assumes "env_choice env = ''2''" and "length (env_paths env) = 4"
    and "list_all (\<lambda>p. map_option (count_vehicles (env_model env)) (env_imread env p) = Some 0)
      (env_paths env)"
  shows "main_prints env =
      [menu_text, prompt_text, image_line 0 0, image_line 1 0, image_line 2 0, image_line 3 0,
       no_input_line]
    \<and> main env = Some (Inl No_Valid_Input)"
  using zero_traffic_lines [OF assms] by simp

theorem zero_traffic_prints_witness:
  "main_prints \<lparr>env_model = \<lambda>_. [], env_choice = ''2'', env_ticks = [],
      env_paths = [''n.jpg'', ''e.jpg'', ''s.jpg'', ''w.jpg''], env_imread = \<lambda>_. Some (),
      env_events = []\<rparr> =
      [menu_text, prompt_text, image_line 0 0, image_line 1 0, image_line 2 0, image_line 3 0,
       no_input_line]
   \<and> main \<lparr>env_model = \<lambda>_. [], env_choice = ''2'', env_ticks = [],
      env_paths = [''n.jpg'', ''e.jpg'', ''s.jpg'', ''w.jpg''], env_imread = \<lambda>_. Some (),
      env_events = []\<rparr> = Some (Inl No_Valid_Input)"
  using zero_traffic_prints [where env = "\<lparr>env_model = \<lambda>_. [], env_choice = ''2'',
      env_ticks = [], env_paths = [''n.jpg'', ''e.jpg'', ''s.jpg'', ''w.jpg''],
      env_imread = \<lambda>_. Some (), env_events = []\<rparr> :: unit environment"]
  by (simp add: count_vehicles_def)

end
