(* ===== verification/Spec2Isabelle.thy ===== *)
theory Spec2Isabelle
  imports Traffic_Prelude Binary64 Timing_Policy Signals Scheduler Liveness Detection Session
    Spec_Scheduler Refinement Float_Range Graphics Intersection Text_Format Display Stats_Panel
    Render Program Drift Console
begin

text \<open>
  A verification development for the adaptive traffic-signal controller of
  \<^verbatim>\<open>src/advanced_traffic_management.py\<close>.

  \<^bold>\<open>The program.\<close> \<^verbatim>\<open>main\<close> asks which input to use and obtains four vehicle
  counts, one per direction (North, East, South, West): from the webcam, one frame per
  direction on the key \<^verbatim>\<open>s\<close> (\<^verbatim>\<open>capture_one_by_one_images\<close>), or from four image
  files (\<^verbatim>\<open>capture_from_file_dialog\<close>); \<^verbatim>\<open>count_vehicles\<close> counts the detections
  of a frame that are vehicles. Both return the sentinel \<open>[0, 0, 0, 0]\<close> when the
  acquisition is aborted, and \<^verbatim>\<open>main\<close> returns on it. \<^verbatim>\<open>calculate_timers\<close> turns
  each count into a green time of 1.5 seconds per vehicle, clamped to \<open>[5, 20]\<close>. The
  loop of \<^verbatim>\<open>main\<close> then runs at 30 frames per second: each frame reads the window
  events, subtracts \<^verbatim>\<open>1 / 30\<close> from the running timer, moves to the next direction
  with that direction's green time when the timer is used up, counts a cycle when the
  direction returns to 0, and draws the four signals with \<^verbatim>\<open>draw_signals\<close>. Around
  that it fills the background, draws the roads with \<^verbatim>\<open>draw_intersection\<close> and the
  statistics with \<^verbatim>\<open>draw_stats_panel\<close>, and shows the frame. All times are Python
  floats. At module level the program opens the window, defines palette and fonts
  and loads the detection model; it exits if the model cannot be loaded.

  \<^bold>\<open>Theories and the code they model.\<close>
  \<^item> \<open>Traffic_Prelude\<close>: names of the value types, the theorem collections
    \<open>tm_defs\<close>, \<open>tm_frame\<close>, \<open>tm_inv\<close>, and generic lemmas on clamping, lists of
    four, iterated functions and powers of two.
  \<^item> \<open>Binary64\<close>: the float arithmetic the program performs. A float is the rational
    it denotes; \<open>b64\<close> rounds a rational to the nearest binary64 number, ties to
    even; \<open>float_of_int\<close> and \<open>float_mul\<close> are the operations of line 51,
    \<open>int_truediv\<close> and \<open>float_sub\<close> those of line 250. \<open>round53\<close> is the same
    rounding on integers, proved equal (\<open>b64_scaled\<close>) and used for evaluation.
  \<^item> \<open>Timing_Policy\<close>: \<^verbatim>\<open>calculate_timers\<close> (lines 43-54): \<open>timer_for\<close> is the loop
    body, \<open>calculate_timers_loop\<close> the loop with its accumulator,
    \<open>calculate_timers\<close> the function; \<open>timing_policy\<close> is the contract of the
    specification in exact arithmetic.
  \<^item> \<open>Signals\<close>: what \<^verbatim>\<open>draw_signals\<close> (lines 154-199) decides to show:
    \<open>signals_table\<close> (lines 155-160, with the \<^verbatim>\<open>IndexError\<close> of a short list),
    \<open>light_colors\<close> (lines 176-180), the time printed under a signal (line 195).
    The drawing calls are in theory \<open>Display\<close>.
  \<^item> \<open>Scheduler\<close>: the locals of \<^verbatim>\<open>main\<close> as the record \<open>controller\<close>; \<open>startup\<close>
    (lines 232-239), \<open>handle_events\<close> (246-248), \<open>advance_timer\<close> with
    \<open>switch_lane\<close> (250-255), \<open>frame\<close> (one iteration, 241-262), \<open>main_loop\<close>
    (the \<^verbatim>\<open>while\<close> loop) and \<open>run\<close> (the state after a list of frames);
    \<open>countdown\<close> is the timer update repeated until the timer is used up.
  \<^item> \<open>Liveness\<close>: progress of the loop: the countdown is monotone in its start, the
    table \<open>phase_frames\<close> of the twelve possible phase lengths, runs of several
    phases.
  \<^item> \<open>Float_Range\<close>: the floats of the scheduler and of the timing policy are in
    the range in which \<open>b64\<close> is the rounding of the machine.
  \<^item> \<open>Detection\<close>: \<^verbatim>\<open>count_vehicles\<close> (lines 56-61), \<^verbatim>\<open>capture_from_file_dialog\<close>
    (63-80) with its loop \<open>capture_files_loop\<close>, and \<^verbatim>\<open>capture_one_by_one_images\<close>
    (82-111) with the loop over the directions \<open>capture_directions\<close> and the waiting
    loop \<open>wait_capture\<close>. The detector, \<^verbatim>\<open>imread\<close>, the file dialog, the webcam
    and the keyboard are parameters.
  \<^item> \<open>Session\<close>: \<^verbatim>\<open>main\<close> as a whole (lines 214-264) over the record
    \<open>environment\<close> of everything it reads: \<open>acquire\<close> is the choice of the input
    (221-230), \<open>main\<close> composes it with \<open>startup\<close> and \<open>main_loop\<close>.
  \<^item> \<open>Spec_Scheduler\<close>: the Signal Scheduler of the specification (\<open>initialize\<close>,
    \<open>advance\<close>, \<open>query\<close>) in exact arithmetic, written from \<^verbatim>\<open>spec.md\<close>.
  \<^item> \<open>Refinement\<close>: the abstraction from \<open>controller\<close> to the state of the
    specification and the simulation of the program by the specification.
  \<^item> \<open>Graphics\<close>: what the drawing functions share: the window size (line 11), the
    palette (16-28), the fonts (31-33), the datatype \<open>command\<close> of the \<^verbatim>\<open>pygame\<close>
    calls the program makes, Python's \<^verbatim>\<open>range\<close> (\<open>py_range\<close>), list indexing
    (\<open>py_index\<close>) and \<^verbatim>\<open>for\<close> loop over a body that may raise (\<open>for_loop\<close>), and
    the predicates \<open>wf_command\<close> and \<open>in_window\<close>. A drawing function is the list of
    the calls it makes, in order.
  \<^item> \<open>Intersection\<close>: \<^verbatim>\<open>draw_intersection\<close> (lines 113-151): \<open>texture_color\<close> and
    \<open>road_tile\<close> are the body of the road loops, \<open>vertical_road\<close> and
    \<open>horizontal_road\<close> the two nested loops, \<open>lane_markings\<close>, \<open>crosswalks\<close> and
    \<open>lane_arrows\<close> the rest.
  \<^item> \<open>Text_Format\<close>: the conversions of Python that format the texts: \<^verbatim>\<open>str\<close> of
    an integer (\<open>py_str\<close>), the format \<^verbatim>\<open>.1f\<close> (\<open>format_1f\<close>), \<^verbatim>\<open>str\<close> of a float
    (\<open>float_str\<close>), and readers of decimal numerals as their reference.
  \<^item> \<open>Display\<close>: the drawing calls of \<^verbatim>\<open>draw_signals\<close> (lines 162-199):
    \<open>signal_housing\<close>, \<open>texture_lines\<close>, \<open>draw_lights\<close>, \<open>info_display\<close> with
    \<open>count_text\<close> and \<open>time_text\<close>, \<open>draw_signal\<close> for one signal and
    \<open>draw_signals_commands\<close> for the function.
  \<^item> \<open>Stats_Panel\<close>: \<^verbatim>\<open>draw_stats_panel\<close> (lines 201-212).
  \<^item> \<open>Render\<close>: the main loop with its drawing calls (lines 241-264):
    \<open>render_frame\<close> is an iteration and \<open>render_loop\<close> the loop followed by
    \<^verbatim>\<open>pygame.quit()\<close>.
  \<^item> \<open>Program\<close>: \<open>render_main\<close> is \<^verbatim>\<open>main\<close> with the loop that draws, and
    \<open>script\<close> the module level: the set-up of \<^verbatim>\<open>pygame\<close>, window and fonts
    (\<open>module_setup\<close>, lines 9-13 and 31-33), the loading of the model with its exit
    on failure (lines 36-41) and the call of \<^verbatim>\<open>main\<close> (lines 266-267).
  \<^item> \<open>Drift\<close>: the distance of the running timer from exact time within a phase.
  \<^item> \<open>Console\<close>: what the program prints: for the module level, the two capture
    functions and \<^verbatim>\<open>main\<close> a companion function (\<open>model_prints\<close>,
    \<open>capture_from_file_dialog_prints\<close>, \<open>capture_one_by_one_images_prints\<close>,
    \<open>main_prints\<close>, \<open>script_prints\<close>) that returns the texts printed, in order, on the
    same input.

  \<^bold>\<open>How the parts interact.\<close> \<open>main\<close> calls \<open>acquire\<close>, which calls one of the two
  capture functions, which call \<open>count_vehicles\<close>; then \<open>startup\<close>, which calls
  \<open>calculate_timers\<close>; then \<open>main_loop\<close>, whose \<open>frame\<close> calls \<open>handle_events\<close>,
  \<open>advance_timer\<close> and \<open>draw_signals\<close> in the order of the source. An early return
  or an exception of any of them ends the run as a value \<open>Inl\<close>; a loop that has not
  returned on the input supplied is the value \<open>None\<close>. The scheduler's arithmetic is
  that of \<open>Binary64\<close>. The scheduler theories leave the output out: \<open>frame\<close> keeps of
  \<^verbatim>\<open>draw_signals\<close> only whether it raises. \<open>render_frame\<close> is the same iteration with
  the calls of \<open>draw_intersection\<close>, \<open>draw_signals_commands\<close> and
  \<open>draw_stats_panel\<close> between \<^verbatim>\<open>fill\<close> and \<^verbatim>\<open>flip\<close>; \<open>render_loop\<close>,
  \<open>render_main\<close> and \<open>script\<close> are built on it as \<open>main_loop\<close> and \<open>main\<close> are on
  \<open>frame\<close>, and are proved to project to them.

  \<^bold>\<open>What is shown.\<close>
  \<^item> Timing policy: the float computation equals the exact clamp for every count;
    bounds, monotonicity, saturation from 14 vehicles, floor up to 3, linearity in
    between; the loop is the \<open>map\<close> of the policy.
  \<^item> Float arithmetic: relative error \<open>2 powi (- 53)\<close>, monotonicity, agreement of
    the integer rounding with \<open>b64\<close>.
  \<^item> Signals: exactly one lamp per signal is lit, and which; \<^verbatim>\<open>draw_signals\<close> fails
    exactly on lists shorter than four.
  \<^item> Scheduler: which inputs \<open>startup\<close> rejects and what state it builds; the
    invariant \<open>sched_inv\<close> (direction below 4, timer a positive float not above the
    green time, green times and total as computed at the start) holds initially, is
    kept by every frame and so holds in every reachable state, and under it no frame
    fails; the phase count \<open>4 * cycles_completed + active_lane\<close> grows by exactly one
    per change of direction; the loop returns exactly when a quit event arrives and
    completes the frame of that event; vectors of one to three counts fail in the
    first frame with \<^verbatim>\<open>IndexError\<close>.
  \<^item> Phase lengths and progress: a phase ends with a clean change of direction after
    the number of frames given by \<open>countdown\<close>; every phase ends within 600 frames,
    every direction is served within 2400 frames and cycles keep completing; a full
    green phase lasts at least its green time at 30 frames per second and at most one
    frame more; for the worked example \<open>[10, 2, 10, 2]\<close> of the specification the
    phases last 451, 151, 451 and 151 frames, so the first cycle completes in frame
    1204 and not in frame 1200.
  \<^item> Acquisition: \<^verbatim>\<open>count_vehicles\<close> is the number of detections of the four
    vehicle classes; both capture functions return four non-negative counts whenever
    they return; the webcam function is equal to a reference description by the first
    four decisive ticks and returns exactly when the ticks contain four of them or an
    abort.
  \<^item> The whole program: \<^verbatim>\<open>main\<close> never ends with an exception of the scheduler;
    when and why it ends early; it returns from the loop exactly on a quit event, in
    a reachable state with a positive total; four images without vehicles end the
    program like an aborted acquisition.
  \<^item> Refinement: the start is \<open>initialize\<close>, each frame is one \<open>advance\<close> by a step
    within \<open>1 / 2 ^ 47\<close> of a thirtieth of a second, a run is the sequence of these
    steps, and \<open>query\<close> returns what the display reads; where program and
    specification differ (accepted inputs, Scenario D).
  \<^item> Drift: within a phase the timer after \<open>n\<close> frames is within \<open>n / 2 ^ 47\<close>
    seconds of the timer at the start minus \<open>n / 30\<close>, for a phase of any length.
  \<^item> Drawing: \<^verbatim>\<open>draw_intersection\<close> never raises and makes 24042 calls; the two road
    loops paint exactly the cross of the two roads, each pixel with the texture colour
    of its tile, the crossing twice with the same colour; every call of every drawing
    function has arguments that \<^verbatim>\<open>pygame\<close> accepts and lies inside the window; the
    lamps of a signal lie inside its housing except the lowest lamp of the South
    signal.
  \<^item> Texts: a printed integer reads back exactly; the format \<^verbatim>\<open>.1f\<close> reads back
    within a twentieth; the texts under the signals and on the panel give back counts,
    times, cycles and total.
  \<^item> Rendering: the loop that draws projects to the loop of the scheduler, in every
    state, so the theorems on the scheduler hold of the program that draws; a frame
    issues 24102 calls from \<^verbatim>\<open>fill\<close> to \<^verbatim>\<open>tick\<close>; the script ends at once exactly
    when the model cannot be loaded and never with an \<^verbatim>\<open>IndexError\<close>.
  \<^item> Terminal output: the lines printed by the file dialog give back the counts it
    returns; the last line printed tells whether \<^verbatim>\<open>main\<close> ended on an invalid choice or
    on the all-zero vector; four images without vehicles are reported as detected and
    then as no valid input.
  \<^item> Across components (this theory): in every reachable state the display shows
    exactly the active direction as not red, and every time printed is positive; the
    frame drawn in a reachable state gives back the state after it.

  \<^bold>\<open>Bounds and fuel.\<close> The rounding function has an unbounded exponent. It agrees
  with the machine on every result that is zero or has a magnitude in
  \<open>[2 powi (- 1022), 2 powi 1024)\<close> (\<open>in_b64_range\<close>). Theory \<open>Float_Range\<close>
  proves that the program stays there: in every reachable state the timer and the
  result of the next subtraction are multiples of \<open>2 powi (- 57)\<close> of magnitude at
  most 20, and the floats of the timing policy are in range for every count of at most
  1000 bits. Conversion of an integer of 1024 bits or more to a float raises
  \<^verbatim>\<open>OverflowError\<close> in Python and is outside the model; the counts of the program
  are numbers of detections. The loops that wait for the user do not end by
  themselves: \<open>main_loop\<close> takes the events of finitely many frames and
  \<open>capture_one_by_one_images\<close> finitely many ticks, and both return \<open>None\<close> if the
  loop is still running after them; that they return on enough input is proved as
  such. \<open>countdown\<close> takes fuel: 600 is enough
  for every timer the program can hold, because the countdown from 20 seconds takes
  exactly 600 frames and the countdown is monotone in its start (\<open>countdown_le\<close>);
  more fuel never changes a result (\<open>countdown_mono\<close>). The twelve entries of
  \<open>phase_frames\<close> are evaluated by the integer routine \<open>countdown_fx\<close>.
  \<open>float_str\<close> is Python's text of a float on the floats that are multiples of one
  half below \<open>10 ^ 16\<close>; every green time is one (\<open>short_float_timer_value\<close>), and
  the running timer is printed with \<open>format_1f\<close>, which is modelled for every float.
  The width of a rendered text is a parameter of the drawing functions; nothing is
  assumed of it. The lists of drawing calls are never evaluated: their lengths and
  properties are proved from the loops.

  \<^bold>\<open>Not modelled.\<close> The camera and window calls of the webcam capture
  (\<^verbatim>\<open>cv2.imshow\<close>, \<^verbatim>\<open>cap.release\<close>, \<^verbatim>\<open>destroyAllWindows\<close>) and the file dialog
  window; the interleaving of the terminal output with the drawing calls (both are
  lists in their own order); the rasterisation of the drawing calls by \<^verbatim>\<open>pygame\<close> beyond the
  pixels of the filled rectangles of the roads (the shape of lines, circles, rounded
  corners and glyphs); the real time that \<^verbatim>\<open>clock.tick\<close> waits. The detector is a
  parameter: nothing is assumed of its result. The float \<^verbatim>\<open>-0.0\<close> is not told apart
  from \<^verbatim>\<open>0.0\<close>.

  \<^bold>\<open>Plan.\<close> Next: the pixels of the crosswalks and markings over the roads; the
  lines printed by the webcam capture read back as its counts.
\<close>

section \<open>The display in reachable states\<close>

text \<open>
  C38. In every state the program reaches from four counts, \<^verbatim>\<open>draw_signals\<close>
  succeeds, shows exactly the active direction as not red (yellow when at most 3
  seconds remain, green otherwise), prints the running timer under the active
  direction and the full green time under the others, and every time printed is
  positive.
\<close>

theorem reachable_display:
  assumes "reachable counts s" and "length counts = 4"
  shows "\<exists>views. draw_signals (active_lane s) (car_counts s) (timers s) (timer_remaining s)
      (frame_count s)
      = Inr views
    \<and> map (lit \<circ> view_lights) views = (replicate 4 [RED])[active_lane s :=
        [if timer_remaining s \<le> 3 then YELLOW else GREEN]]
    \<and> map view_time views = (map timer_for counts)[active_lane s := timer_remaining s]
    \<and> (\<forall>v \<in> set views. 0 < view_time v)"
proof -
  from reachable_sched_inv [OF assms] have inv: "sched_inv s" and c: "car_counts s = counts"
    by simp_all
  note d = sched_invD [OF inv]
  from draw_signals_views [OF d(1) sched_inv_lengths [OF inv] d(4), of "timer_remaining s"]
  obtain views where v: "draw_signals (active_lane s) (car_counts s) (timers s) (timer_remaining s)
      (frame_count s)
      = Inr views"
    and l: "map (lit \<circ> view_lights) views = (replicate 4 [RED])[active_lane s :=
        [if timer_remaining s \<le> 3 then YELLOW else GREEN]]"
    and t: "map view_time views = (timers s)[active_lane s := timer_remaining s]"
    by blast
  have "\<forall>x \<in> set ((timers s)[active_lane s := timer_remaining s]). 0 < x"
  proof
    fix x assume "x \<in> set ((timers s)[active_lane s := timer_remaining s])"
    then have "x \<in> insert (timer_remaining s) (set (timers s))"
      using set_update_subset_insert by fast
    with d(5) show "0 < x"
      unfolding d(2) calculate_timers_map using timer_for_range(1)
      by (auto intro: less_le_trans [of 0 5])
  qed
  with t have "\<forall>v \<in> set views. 0 < view_time v"
    by (metis (no_types, lifting) image_eqI list.set_map)
  with v l t show ?thesis by (auto simp: d(2) c calculate_timers_map)
qed

theorem reachable_display_witness:
  "reachable [10, 2, 10, 2] scenario_state \<and> length [10, 2, 10, 2 :: int] = 4
   \<and> (\<exists>views. draw_signals 0 [10, 2, 10, 2] [15, 5, 15, 5] 15 0 = Inr views
        \<and> map (lit \<circ> view_lights) views = [[GREEN], [RED], [RED], [RED]]
        \<and> map view_time views = [15, 5, 15, 5])"
proof -
  have "startup [10, 2, 10, 2] = Inr scenario_state"
    by (simp add: startup_cases scenario_state_def calculate_timers_map)
  then have r: "reachable [10, 2, 10, 2] scenario_state" by (rule reachable.start)
  have "(replicate 4 [RED])[0 := [GREEN]] = [[GREEN], [RED], [RED], [RED]]"
    by (simp add: eval_nat_numeral)
  with reachable_display [OF r] r show ?thesis by auto
qed

section \<open>The window in reachable states\<close>

lemma render_frame_texts:
  assumes "sched_inv s"
  obtains s1 cmds where "render_frame gw events s = Inr (s1\<lparr>frame_count := frame_count s1 + 1\<rparr>, cmds)"
    and "sched_inv s1" and "car_counts s1 = car_counts s"
    and "texts cmds = concat (map (\<lambda>i. [[''North'', ''East'', ''South'', ''West''] ! i,
          count_text (car_counts s1 ! i),
          time_text (active_lane s1) i (timer_remaining s1) (timers s1 ! i)]) [0, 1, 2, 3])
        @ [''Traffic Statistics'', cycle_text (cycles_completed s1),
           vehicle_text (total_vehicles s1)]"
    and "lamps cmds =
      concat (map (\<lambda>i. light_colors (active_lane s1) i (timer_remaining s1)) [0, 1, 2, 3])"
proof -
  from frame_Inr [OF assms, of events] obtain s1
    where s1: "advance_timer (handle_events events s) = Inr s1" and inv: "sched_inv s1" by blast
  from sched_invD(1) [OF inv] sched_inv_lengths [OF inv]
  have len: "4 \<le> length (car_counts s1)" "4 \<le> length (timers s1)" by simp_all
  let ?cmds = "[Fill background] @ intersection_commands
    @ draw_signal gw (active_lane s1) (timer_remaining s1) 0
        \<lparr>sig_x = 500, sig_y = 250, sig_active = active_lane s1, sig_count = car_counts s1 ! 0,
         sig_total_time = timers s1 ! 0, sig_direction = ''North''\<rparr>
    @ draw_signal gw (active_lane s1) (timer_remaining s1) 1
        \<lparr>sig_x = 700, sig_y = 500, sig_active = active_lane s1, sig_count = car_counts s1 ! 1,
         sig_total_time = timers s1 ! 1, sig_direction = ''East''\<rparr>
    @ draw_signal gw (active_lane s1) (timer_remaining s1) 2
        \<lparr>sig_x = 500, sig_y = 750, sig_active = active_lane s1, sig_count = car_counts s1 ! 2,
         sig_total_time = timers s1 ! 2, sig_direction = ''South''\<rparr>
    @ draw_signal gw (active_lane s1) (timer_remaining s1) 3
        \<lparr>sig_x = 300, sig_y = 500, sig_active = active_lane s1, sig_count = car_counts s1 ! 3,
         sig_total_time = timers s1 ! 3, sig_direction = ''West''\<rparr>
    @ draw_stats_panel (cycles_completed s1) (total_vehicles s1) @ [Flip, Tick 30]"
  have r: "render_frame gw events s = Inr (s1\<lparr>frame_count := frame_count s1 + 1\<rparr>, ?cmds)"
    by (simp add: render_frame_eq s1 draw_signals_commands_Inr [OF len])
  from advance_timer_frame(4) [OF s1] have c: "car_counts s1 = car_counts s" by simp
  show thesis
    by (rule that [OF r inv c]) simp_all
qed

lemma reachable_short_floats:
  assumes "sched_inv s" and "i < 4"
  shows "short_float (timers s ! i)"
  using sched_inv_lane(1) [OF assms] by (rule short_float_timer_value)

text \<open>
  C14. The window shows the state. In every state the program reaches from four counts
  the next frame is drawn without an exception, and from what it draws the state after
  the frame reads back: the three texts under each signal give its direction, its
  count and its time (the green time exactly for a waiting direction, the running
  timer rounded to a tenth of a second for the active one), the panel gives the
  number of completed cycles and the total of the counts, and the twelve lamps have
  the colours that \<open>light_colors\<close> computes for the active direction and the timer.
\<close>

theorem screen_shows_state:
  assumes "reachable counts s" and "length counts = 4"
  shows "\<exists>s' cmds. render_frame gw events s = Inr (s', cmds)
    \<and> read_texts (take 12 (texts cmds)) =
        map (\<lambda>i. ([''North'', ''East'', ''South'', ''West''] ! i, Some (counts ! i),
               Some (if active_lane s' = i then of_int (rhe (timer_remaining s' * 10)) / 10
                     else timer_for (counts ! i))))
          [0, 1, 2, 3]
    \<and> map read_cycles (drop 12 (texts cmds)) ! 1 = Some (int (cycles_completed s'))
    \<and> map read_total (drop 12 (texts cmds)) ! 2 = Some (sum_list counts)
    \<and> lamps cmds =
        concat (map (\<lambda>i. light_colors (active_lane s') i (timer_remaining s')) [0, 1, 2, 3])"
proof -
  from reachable_sched_inv [OF assms] have inv: "sched_inv s" and c: "car_counts s = counts"
    by simp_all
  from render_frame_texts [OF inv, of gw events] obtain s1 cmds
    where r: "render_frame gw events s = Inr (s1\<lparr>frame_count := frame_count s1 + 1\<rparr>, cmds)"
      and inv1: "sched_inv s1" and c1: "car_counts s1 = car_counts s"
      and t: "texts cmds = concat (map (\<lambda>i. [[''North'', ''East'', ''South'', ''West''] ! i,
          count_text (car_counts s1 ! i),
          time_text (active_lane s1) i (timer_remaining s1) (timers s1 ! i)]) [0, 1, 2, 3])
        @ [''Traffic Statistics'', cycle_text (cycles_completed s1),
           vehicle_text (total_vehicles s1)]"
      and l: "lamps cmds =
        concat (map (\<lambda>i. light_colors (active_lane s1) i (timer_remaining s1)) [0, 1, 2, 3])"
    by blast
  note d = sched_invD [OF inv1]
  have tm: "timers s1 ! i = timer_for (counts ! i)" if "i < 4" for i
    using that d(1) by (simp add: d(2) c1 c)
  have rt: "read_time (time_text (active_lane s1) i (timer_remaining s1) (timers s1 ! i))
      = Some (if active_lane s1 = i then of_int (rhe (timer_remaining s1 * 10)) / 10
              else timer_for (counts ! i))" if "i < 4" for i
    using read_time_text [OF reachable_short_floats [OF inv1 that]] tm [OF that] by simp
  show ?thesis
    by (intro exI conjI, rule r) (simp_all add: t l rt c1 c d(3))
qed

theorem screen_shows_state_witness:
  "reachable [10, 2, 10, 2] scenario_state \<and> length [10, 2, 10, 2 :: int] = 4
   \<and> (\<exists>s' cmds. render_frame (\<lambda>f t. 0) [] scenario_state = Inr (s', cmds)
        \<and> map read_cycles (drop 12 (texts cmds)) ! 1 = Some (int (cycles_completed s'))
        \<and> map read_total (drop 12 (texts cmds)) ! 2 = Some 24)"
proof -
  have "startup [10, 2, 10, 2] = Inr scenario_state"
    by (simp add: startup_cases scenario_state_def calculate_timers_map)
  then have r: "reachable [10, 2, 10, 2] scenario_state" by (rule reachable.start)
  from screen_shows_state [OF r, where gw = "\<lambda>f t. 0" and events = "[]"]
  obtain s' cmds where "render_frame (\<lambda>f t. 0) [] scenario_state = Inr (s', cmds)"
    and "map read_cycles (drop 12 (texts cmds)) ! 1 = Some (int (cycles_completed s'))"
    and "map read_total (drop 12 (texts cmds)) ! 2 = Some (sum_list [10, 2, 10, 2])"
    by auto
  with r show ?thesis by auto
qed

end
